(* ===== verification/Prelude.thy ===== *)
theory Prelude
  imports Main "HOL-Library.Word" "HOL-Library.Char_ord" "HOL-Library.List_Lexorder"
    "HOL-Library.Sublist"
begin

text \<open>
  Shared vocabulary of the development: machine-integer types, the byte/character
  correspondence of \<^verbatim>\<open>std::string\<close>, the error monad on sums, the searching, trimming
  and decimal-printing operations of the C++ standard library that the SDK uses, and
  \<^verbatim>\<open>std::map<std::string, T>\<close> as a sorted association list with its contract stated
  as the locale \<open>ordered_map\<close>.
\<close>

unbundle bit_operations_syntax

type_synonym u8 = "8 word"
type_synonym u32 = "32 word"
type_synonym u64 = "64 word"

named_theorems err_simps \<open>evaluation of the error monad\<close>
named_theorems str_simps \<open>evaluation of string operations\<close>
named_theorems wire_defs \<open>definitions that build a message for the wire\<close>

section \<open>The error monad\<close>

definition bindE :: "'e + 'a \<Rightarrow> ('a \<Rightarrow> 'e + 'b) \<Rightarrow> 'e + 'b" where
  "bindE m f = (case m of Inl e \<Rightarrow> Inl e | Inr x \<Rightarrow> f x)"

text \<open>\<^verbatim>\<open>if (c) throw e;\<close>\<close>

definition throw_if :: "bool \<Rightarrow> 'e \<Rightarrow> 'e + unit" where
  "throw_if c e = (if c then Inl e else Inr ())"

text \<open>\<^verbatim>\<open>try { m } catch (e) { h(e) }\<close>\<close>

definition catchE :: "'e + 'a \<Rightarrow> ('e \<Rightarrow> 'e + 'a) \<Rightarrow> 'e + 'a" where
  "catchE m h = (case m of Inl e \<Rightarrow> h e | Inr x \<Rightarrow> Inr x)"

text \<open>A loop over a vector whose body may throw: the first exception leaves it.\<close>

fun mapE :: "('a \<Rightarrow> 'e + 'b) \<Rightarrow> 'a list \<Rightarrow> 'e + 'b list" where
  "mapE f [] = Inr []"
| "mapE f (x # xs) = bindE (f x) (\<lambda>y. bindE (mapE f xs) (\<lambda>ys. Inr (y # ys)))"

lemma bindE_simps [simp, err_simps]:
  "bindE (Inl e) f = Inl e"
  "bindE (Inr x) f = f x"
  by (simp_all add: bindE_def)

lemma catchE_simps [simp, err_simps]:
  "catchE (Inl e) h = h e"
  "catchE (Inr x) h = Inr x"
  by (simp_all add: catchE_def)

lemma throw_if_simps [simp, err_simps]:
  "throw_if True e = Inl e"
  "throw_if False e = Inr ()"
  by (simp_all add: throw_if_def)

lemma throw_if_Inr_iff [simp]: "throw_if c e = Inr u \<longleftrightarrow> \<not> c"
  by (simp add: throw_if_def)

lemma throw_if_Inl_iff [simp]: "throw_if c e = Inl d \<longleftrightarrow> c \<and> d = e"
  by (auto simp: throw_if_def)

lemma bindE_Inr_iff: "bindE m f = Inr y \<longleftrightarrow> (\<exists>x. m = Inr x \<and> f x = Inr y)"
  by (cases m) auto

lemma bindE_Inl_iff: "bindE m f = Inl e \<longleftrightarrow> m = Inl e \<or> (\<exists>x. m = Inr x \<and> f x = Inl e)"
  by (cases m) auto

lemma bindE_throw_if_Inr: "bindE (throw_if c e) f = Inr y \<longleftrightarrow> \<not> c \<and> f () = Inr y"
  by (auto simp: throw_if_def)

lemma bindE_throw_if_Inl:
  "bindE (throw_if c e) f = Inl d \<longleftrightarrow> (if c then d = e else f () = Inl d)"
  by (auto simp: throw_if_def)

lemma bindE_assoc: "bindE (bindE m f) g = bindE m (\<lambda>x. bindE (f x) g)"
  by (cases m) auto

lemma mapE_Inr_length: "mapE f xs = Inr ys \<Longrightarrow> length ys = length xs"
  by (induction xs arbitrary: ys) (auto simp: bindE_Inr_iff)

lemma mapE_Inr_set: "mapE f xs = Inr ys \<Longrightarrow> y \<in> set ys \<Longrightarrow> \<exists>x\<in>set xs. f x = Inr y"
  by (induction xs arbitrary: ys) (auto simp: bindE_Inr_iff)

lemma mapE_Inr_iff:
  "(\<exists>ys. mapE f xs = Inr ys) \<longleftrightarrow> (\<forall>x\<in>set xs. \<exists>y. f x = Inr y)"
proof (induction xs)
  case (Cons x xs)
  then show ?case by (cases "f x"; cases "mapE f xs") auto
qed simp

section \<open>Characters and bytes\<close>

text \<open>A \<^verbatim>\<open>char\<close> of a \<^verbatim>\<open>std::string\<close> and the \<^verbatim>\<open>uint8_t\<close> with the same bits.\<close>

definition byte_of :: "char \<Rightarrow> u8" where
  "byte_of c = of_nat (of_char c)"

definition char_of_byte :: "u8 \<Rightarrow> char" where
  "char_of_byte b = char_of (unat b)"

lemma char_of_byte_of [simp]: "char_of_byte (byte_of c) = c"
proof -
  have "unat (of_nat (of_char c) :: u8) = of_char c"
    by (simp add: unat_of_nat of_char_mod_256)
  then show ?thesis by (simp add: byte_of_def char_of_byte_def)
qed

lemma byte_of_char_of_byte [simp]: "byte_of (char_of_byte b) = b"
proof -
  have "unat b < 256" using unsigned_less [of b, where ?'a = nat] by simp
  then show ?thesis by (simp add: byte_of_def char_of_byte_def of_char_of)
qed

abbreviation bytes_of :: "string \<Rightarrow> u8 list" where
  "bytes_of s \<equiv> map byte_of s"

abbreviation string_of :: "u8 list \<Rightarrow> string" where
  "string_of bs \<equiv> map char_of_byte bs"

lemma string_of_bytes_of [simp]: "string_of (bytes_of s) = s"
  by (simp add: comp_def)

lemma bytes_of_string_of [simp]: "bytes_of (string_of bs) = bs"
  by (simp add: comp_def)

lemma char_byte_comp [simp]: "char_of_byte \<circ> byte_of = id" "byte_of \<circ> char_of_byte = id"
  by (simp_all add: fun_eq_iff)

lemma inj_byte_of: "inj byte_of"
  by (metis char_of_byte_of injI)

lemma byte_of_eq_iff [simp]: "byte_of c = byte_of d \<longleftrightarrow> c = d"
  using inj_byte_of by (auto dest: injD)

lemma char_of_byte_eq_iff [simp]: "char_of_byte a = char_of_byte b \<longleftrightarrow> a = b"
  by (metis byte_of_char_of_byte)

definition char_code :: "char \<Rightarrow> nat" where
  "char_code c = of_char c"

lemma char_code_less [simp]: "char_code c < 256"
  using mod_less_divisor [of 256 "of_char c"] by (simp add: char_code_def of_char_mod_256)

lemma char_code_eq_iff: "char_code c = char_code d \<longleftrightarrow> c = d"
  by (simp add: char_code_def)

lemma bit_word_of_nat_iff:
  "bit (word_of_nat n :: 'a::len word) b \<longleftrightarrow> b < LENGTH('a) \<and> bit n b"
  by transfer (simp add: bit_take_bit_iff bit_of_nat_iff_bit)

lemma byte_eqI:
  fixes x y :: u8
  assumes "bit x 0 = bit y 0" "bit x 1 = bit y 1" "bit x 2 = bit y 2" "bit x 3 = bit y 3"
    "bit x 4 = bit y 4" "bit x 5 = bit y 5" "bit x 6 = bit y 6" "bit x 7 = bit y 7"
  shows "x = y"
proof (rule bit_word_eqI)
  fix i assume "i < LENGTH(8)"
  then have "i = 0 \<or> i = 1 \<or> i = 2 \<or> i = 3 \<or> i = 4 \<or> i = 5 \<or> i = 6 \<or> i = 7" by auto
  then show "bit x i = bit y i" using assms by auto
qed

lemma bit_u8_high: "8 \<le> n \<Longrightarrow> \<not> bit (b :: u8) n"
  using bit_imp_le_length [of b n] by auto

section \<open>Searching and trimming strings\<close>

text \<open>\<^verbatim>\<open>std::string::find\<close>: the first position where the pattern starts, \<^verbatim>\<open>npos\<close> as None.\<close>

fun find_str :: "string \<Rightarrow> string \<Rightarrow> nat option" where
  "find_str pat [] = (if pat = [] then Some 0 else None)"
| "find_str pat (c # s) =
     (if prefix pat (c # s) then Some 0 else map_option Suc (find_str pat s))"

text \<open>\<^verbatim>\<open>find_first_of\<close> a set of characters, and \<^verbatim>\<open>rfind\<close> of one character.\<close>

fun find_first :: "(char \<Rightarrow> bool) \<Rightarrow> string \<Rightarrow> nat option" where
  "find_first P [] = None"
| "find_first P (c # s) = (if P c then Some 0 else map_option Suc (find_first P s))"

fun rfind_char :: "char \<Rightarrow> string \<Rightarrow> nat option" where
  "rfind_char x [] = None"
| "rfind_char x (c # s) =
     (case rfind_char x s of Some i \<Rightarrow> Some (Suc i) | None \<Rightarrow> if c = x then Some 0 else None)"

text \<open>\<^verbatim>\<open>substr(0, pos)\<close> and \<^verbatim>\<open>substr(pos)\<close> with \<^verbatim>\<open>pos\<close> possibly \<^verbatim>\<open>npos\<close>.\<close>

definition substr_upto :: "string \<Rightarrow> nat option \<Rightarrow> string" where
  "substr_upto s p = (case p of None \<Rightarrow> s | Some i \<Rightarrow> take i s)"

text \<open>\<^verbatim>\<open>std::isspace\<close> in the C locale.\<close>

definition isspace :: "char \<Rightarrow> bool" where
  "isspace c \<longleftrightarrow> char_code c = 32 \<or> (9 \<le> char_code c \<and> char_code c \<le> 13)"

text \<open>
  The two loops \<^verbatim>\<open>while (!s.empty() && isspace(s.front())) s.erase(s.begin());\<close> and
  \<^verbatim>\<open>while (!s.empty() && isspace(s.back())) s.pop_back();\<close>.
\<close>

fun trim_front :: "string \<Rightarrow> string" where
  "trim_front [] = []"
| "trim_front (c # s) = (if isspace c then trim_front s else c # s)"

function trim_back :: "string \<Rightarrow> string" where
  "trim_back s = (if s \<noteq> [] \<and> isspace (last s) then trim_back (butlast s) else s)"
  by pat_completeness auto
termination
  by (relation "measure length") auto

declare trim_back.simps [simp del]

definition trim :: "string \<Rightarrow> string" where
  "trim s = trim_back (trim_front s)"

lemma trim_front_dropWhile: "trim_front s = dropWhile isspace s"
  by (induction s) auto

lemma trim_back_dropWhile: "trim_back s = rev (dropWhile isspace (rev s))"
proof (induction s rule: trim_back.induct)
  case (1 s)
  show ?case
  proof (cases "s \<noteq> [] \<and> isspace (last s)")
    case True
    then have "dropWhile isspace (rev s) = dropWhile isspace (rev (butlast s))"
      by (cases s rule: rev_cases) simp_all
    with True "1" show ?thesis by (simp add: trim_back.simps [of s])
  next
    case False
    then have "dropWhile isspace (rev s) = rev s"
      by (cases s rule: rev_cases) auto
    with False show ?thesis by (auto simp: trim_back.simps [of s])
  qed
qed

text \<open>
  Trimming has the contract one expects of it: the result starts and ends with a
  non-space character, and it is the input with a block of spaces removed at each end.
\<close>

lemma trim_decompose:
  "\<exists>pre post. s = pre @ trim s @ post \<and> (\<forall>c\<in>set pre. isspace c) \<and> (\<forall>c\<in>set post. isspace c)"
proof -
  let ?t = "dropWhile isspace s"
  have s: "s = takeWhile isspace s @ ?t" by simp
  have t: "?t = rev (dropWhile isspace (rev ?t)) @ rev (takeWhile isspace (rev ?t))"
    by (metis rev_append rev_rev_ident takeWhile_dropWhile_id)
  have "s = takeWhile isspace s @ trim s @ rev (takeWhile isspace (rev ?t))"
    using s t by (simp add: trim_def trim_back_dropWhile trim_front_dropWhile)
  moreover have "\<forall>c\<in>set (takeWhile isspace s). isspace c"
    by (auto dest: set_takeWhileD)
  moreover have "\<forall>c\<in>set (rev (takeWhile isspace (rev ?t))). isspace c"
    by (auto dest: set_takeWhileD)
  ultimately show ?thesis by blast
qed

lemma trim_last: "trim s \<noteq> [] \<Longrightarrow> \<not> isspace (last (trim s))"
  by (simp add: trim_def trim_back_dropWhile last_rev hd_dropWhile)

lemma trim_hd: "trim s \<noteq> [] \<Longrightarrow> \<not> isspace (hd (trim s))"
proof -
  assume ne: "trim s \<noteq> []"
  let ?t = "dropWhile isspace s"
  have t: "?t = trim s @ rev (takeWhile isspace (rev ?t))"
    by (metis rev_append rev_rev_ident takeWhile_dropWhile_id trim_def trim_back_dropWhile
        trim_front_dropWhile)
  with ne have "hd ?t = hd (trim s)" and "?t \<noteq> []"
    by (metis hd_append2, force)
  then show ?thesis by (metis hd_dropWhile)
qed

lemma dropWhile_id_hd: "s = [] \<or> \<not> P (hd s) \<Longrightarrow> dropWhile P s = s"
  by (cases s) auto

lemma trim_id: "s = [] \<or> \<not> isspace (hd s) \<and> \<not> isspace (last s) \<Longrightarrow> trim s = s"
  by (auto simp: trim_def trim_back_dropWhile trim_front_dropWhile dropWhile_id_hd hd_rev)

lemma trim_idem [simp]: "trim (trim s) = trim s"
  by (metis trim_hd trim_id trim_last)

section \<open>Decimal printing: std::to_string\<close>

definition digit_char :: "nat \<Rightarrow> char" where
  "digit_char d = char_of (48 + d)"

fun to_string_nat :: "nat \<Rightarrow> string" where
  "to_string_nat n =
     (if n < 10 then [digit_char n] else to_string_nat (n div 10) @ [digit_char (n mod 10)])"

declare to_string_nat.simps [simp del]

definition to_string :: "int \<Rightarrow> string" where
  "to_string i = (if i < 0 then CHR ''-'' # to_string_nat (nat (- i)) else to_string_nat (nat i))"

definition is_digit :: "char \<Rightarrow> bool" where
  "is_digit c \<longleftrightarrow> 48 \<le> char_code c \<and> char_code c \<le> 57"

lemma char_code_digit [simp]: "d < 10 \<Longrightarrow> char_code (digit_char d) = 48 + d"
  by (simp add: char_code_def digit_char_def of_char_of)

lemma is_digit_digit_char [simp]: "d < 10 \<Longrightarrow> is_digit (digit_char d)"
  by (simp add: is_digit_def)

lemma to_string_nat_digits: "c \<in> set (to_string_nat n) \<Longrightarrow> is_digit c"
proof (induction n rule: to_string_nat.induct)
  case (1 n)
  then show ?case
    by (cases "n < 10") (auto simp: to_string_nat.simps [of n])
qed

lemma to_string_nat_nonempty [simp]: "to_string_nat n \<noteq> []"
  by (subst to_string_nat.simps) simp

lemma to_string_nonempty [simp]: "to_string i \<noteq> []"
  by (simp add: to_string_def)

lemma digit_char_eval [simp, str_simps]:
  "digit_char 0 = CHR ''0''" "digit_char 1 = CHR ''1''" "digit_char (Suc 0) = CHR ''1''"
  "digit_char 2 = CHR ''2''" "digit_char 3 = CHR ''3''" "digit_char 4 = CHR ''4''"
  "digit_char 5 = CHR ''5''" "digit_char 6 = CHR ''6''" "digit_char 7 = CHR ''7''"
  "digit_char 8 = CHR ''8''" "digit_char 9 = CHR ''9''"
  by code_simp+

lemmas to_string_eval [str_simps] = to_string_def to_string_nat.simps

text \<open>The reader that inverts the printer; it serves as its specification.\<close>

definition nat_of_digits :: "string \<Rightarrow> nat" where
  "nat_of_digits s = foldl (\<lambda>n c. 10 * n + (char_code c - 48)) 0 s"

definition int_of_string :: "string \<Rightarrow> int" where
  "int_of_string s =
     (case s of c # cs \<Rightarrow> if c = CHR ''-'' then - int (nat_of_digits cs) else int (nat_of_digits s)
      | [] \<Rightarrow> 0)"

lemma nat_of_digits_to_string_nat [simp]: "nat_of_digits (to_string_nat n) = n"
proof (induction n rule: to_string_nat.induct)
  case (1 n)
  show ?case
  proof (cases "n < 10")
    case True
    then show ?thesis
      by (simp add: to_string_nat.simps [of n] nat_of_digits_def)
  next
    case False
    with "1" have "nat_of_digits (to_string_nat (n div 10)) = n div 10" by simp
    with False show ?thesis
      by (simp add: to_string_nat.simps [of n] nat_of_digits_def)
  qed
qed

lemma minus_not_digit: "\<not> is_digit (CHR ''-'')"
  by (simp add: is_digit_def char_code_def)

lemma int_of_string_to_string [simp]: "int_of_string (to_string i) = i"
proof (cases "i < 0")
  case True
  then show ?thesis by (simp add: to_string_def int_of_string_def)
next
  case False
  obtain c cs where s: "to_string_nat (nat i) = c # cs"
    by (meson neq_Nil_conv to_string_nat_nonempty)
  then have "is_digit c" using to_string_nat_digits [of c "nat i"] by simp
  then have "c \<noteq> CHR ''-''" using minus_not_digit by blast
  with False s show ?thesis
    using nat_of_digits_to_string_nat [of "nat i"]
    by (simp add: to_string_def int_of_string_def)
qed

lemma to_string_inj [simp]: "to_string i = to_string j \<longleftrightarrow> i = j"
  by (metis int_of_string_to_string)

lemma to_string_chars: "c \<in> set (to_string i) \<Longrightarrow> is_digit c \<or> c = CHR ''-''"
  by (auto simp: to_string_def to_string_nat_digits split: if_splits)

section \<open>std::map with string keys\<close>

text \<open>
  \<^verbatim>\<open>std::map<std::string, T>\<close> iterates its keys in the order of
  \<^verbatim>\<open>std::string::operator<\<close>, which compares bytes as unsigned characters: the
  lexicographic order on \<^typ>\<open>string\<close>. A map is the list of its entries in that order;
  \<open>mput k v m\<close> is \<^verbatim>\<open>m[k] = v\<close>, \<open>mget m k\<close> is \<^verbatim>\<open>m.find(k)\<close>.
\<close>

type_synonym 'v smap = "(string \<times> 'v) list"

fun mput :: "string \<Rightarrow> 'v \<Rightarrow> 'v smap \<Rightarrow> 'v smap" where
  "mput k v [] = [(k, v)]"
| "mput k v ((k', v') # m) =
     (if k < k' then (k, v) # (k', v') # m
      else if k = k' then (k, v) # m
      else (k', v') # mput k v m)"

abbreviation mget :: "'v smap \<Rightarrow> string \<Rightarrow> 'v option" where
  "mget \<equiv> map_of"

definition mwf :: "'v smap \<Rightarrow> bool" where
  "mwf m \<longleftrightarrow> sorted_wrt (<) (map fst m)"

text \<open>\<^verbatim>\<open>if (c) m[k] = v;\<close> and \<^verbatim>\<open>if (o.has_value()) m[k] = *o;\<close>\<close>

definition put_if :: "bool \<Rightarrow> string \<Rightarrow> 'v \<Rightarrow> 'v smap \<Rightarrow> 'v smap" where
  "put_if c k v m = (if c then mput k v m else m)"

definition put_opt :: "string \<Rightarrow> 'v option \<Rightarrow> 'v smap \<Rightarrow> 'v smap" where
  "put_opt k ov m = (case ov of None \<Rightarrow> m | Some v \<Rightarrow> mput k v m)"

lemma mget_mput [simp]: "mget (mput k v m) = (mget m)(k \<mapsto> v)"
  by (induction m rule: mput.induct) (auto simp: fun_eq_iff)

lemma set_fst_mput [simp]: "fst ` set (mput k v m) = insert k (fst ` set m)"
  by (induction m rule: mput.induct) auto

lemma mwf_Nil [simp]: "mwf []"
  by (simp add: mwf_def)

lemma mwf_mput [simp]: "mwf m \<Longrightarrow> mwf (mput k v m)"
  unfolding mwf_def
proof (induction m rule: mput.induct)
  case (2 k v k' v' m)
  then show ?case by auto
qed simp

lemma mget_put_if [simp]:
  "mget (put_if c k v m) k' = (if k' = k \<and> c then Some v else mget m k')"
  by (simp add: put_if_def)

lemma mget_put_opt [simp]:
  "mget (put_opt k ov m) k' = (if k' = k \<and> ov \<noteq> None then ov else mget m k')"
  by (simp add: put_opt_def split: option.split)

lemma mput_nonempty [simp]: "mput k v m \<noteq> []"
  by (induction m rule: mput.induct) auto

lemma mwf_put_if [simp]: "mwf m \<Longrightarrow> mwf (put_if c k v m)"
  by (simp add: put_if_def)

lemma mwf_put_opt [simp]: "mwf m \<Longrightarrow> mwf (put_opt k ov m)"
  by (simp add: put_opt_def split: option.split)

lemma mwf_distinct: "mwf m \<Longrightarrow> distinct (map fst m)"
  unfolding mwf_def by (simp add: strict_sorted_iff)

lemma alist_of_keys:
  "distinct (map fst xs) \<Longrightarrow> map (\<lambda>k. (k, the (map_of xs k))) (map fst xs) = xs"
  by (auto simp: comp_def intro!: map_idI)

subsection \<open>The contract of an ordered map\<close>

text \<open>
  What the serialisers rely on: lookups follow insertions, and iteration is in key
  order. From that alone, two maps with the same contents have the same iteration, so
  the order of the assignments in the source does not show on the wire.
\<close>

locale ordered_map =
  fixes empty :: "'m" and put :: "string \<Rightarrow> 'v \<Rightarrow> 'm \<Rightarrow> 'm"
    and get :: "'m \<Rightarrow> string \<Rightarrow> 'v option" and entries :: "'m \<Rightarrow> (string \<times> 'v) list"
    and wf :: "'m \<Rightarrow> bool"
  assumes wf_empty: "wf empty"
    and wf_put: "wf m \<Longrightarrow> wf (put k v m)"
    and get_empty: "get empty k = None"
    and get_put: "wf m \<Longrightarrow> get (put k v m) k' = (if k' = k then Some v else get m k')"
    and entries_sorted: "wf m \<Longrightarrow> sorted_wrt (<) (map fst (entries m))"
    and get_entries: "wf m \<Longrightarrow> get m k = map_of (entries m) k"
begin

lemma entries_distinct: "wf m \<Longrightarrow> distinct (map fst (entries m))"
  using entries_sorted by (simp add: strict_sorted_iff)

lemma entries_unique:
  assumes "wf m" and "wf m'" and "\<And>k. get m k = get m' k"
  shows "entries m = entries m'"
proof -
  have eq: "map_of (entries m) = map_of (entries m')"
    using assms by (auto simp: get_entries fun_eq_iff)
  have "set (entries m) = set (entries m')"
    using map_of_inject_set [OF entries_distinct [OF assms(1)] entries_distinct [OF assms(2)]] eq
    by simp
  moreover have "map fst (entries m) = map fst (entries m')"
  proof (rule sorted_distinct_set_unique)
    show "sorted (map fst (entries m))" "distinct (map fst (entries m))"
      using entries_sorted [OF assms(1)] by (auto simp: strict_sorted_iff)
    show "sorted (map fst (entries m'))" "distinct (map fst (entries m'))"
      using entries_sorted [OF assms(2)] by (auto simp: strict_sorted_iff)
    show "set (map fst (entries m)) = set (map fst (entries m'))"
      using \<open>set (entries m) = set (entries m')\<close> by simp
  qed
  ultimately show ?thesis
    using alist_of_keys [OF entries_distinct [OF assms(1)]]
      alist_of_keys [OF entries_distinct [OF assms(2)]] eq by metis
qed

lemma put_commute:
  assumes "wf m" and "k \<noteq> k'"
  shows "entries (put k v (put k' v' m)) = entries (put k' v' (put k v m))"
  using assms by (intro entries_unique) (auto simp: wf_put get_put)

lemma put_overwrite:
  assumes "wf m"
  shows "entries (put k v (put k v' m)) = entries (put k v m)"
  using assms by (intro entries_unique) (auto simp: wf_put get_put)

end

interpretation smap: ordered_map "[]" mput mget "\<lambda>m. m" mwf
  by unfold_locales (auto simp: mwf_def [THEN iffD1])

end
