(* ===== verification/Sha256.thy ===== *)
theory Sha256
  imports Prelude
begin

text \<open>
  The SHA-256 and HMAC-SHA-256 of \<^verbatim>\<open>src/usersig.cc\<close>: the streaming class
  \<^verbatim>\<open>Sha256\<close> with its 64-byte buffer, and \<^verbatim>\<open>HmacSha256\<close>. The reference is FIPS 180-4
  (padding, message schedule by recursion, compression over whole blocks) and RFC 2104;
  the buffered implementation is proved equal to it for every message, every way of
  splitting the message over \<^verbatim>\<open>Update\<close> calls and every initial content of the
  uninitialised buffer.
\<close>

section \<open>The class Sha256\<close>

record sha256 =
  hreg :: "u32 list"
  state_buf :: "u8 list"
  buf_len :: nat
  bit_len :: u64

definition RotR :: "u32 \<Rightarrow> nat \<Rightarrow> u32" where
  "RotR x n = drop_bit n x OR push_bit (32 - n) x"

definition k_table :: "u32 list" where
  "k_table = concat [
     [0x428a2f98, 0x71374491, 0xb5c0fbcf, 0xe9b5dba5, 0x3956c25b, 0x59f111f1],
     [0x923f82a4, 0xab1c5ed5, 0xd807aa98, 0x12835b01, 0x243185be, 0x550c7dc3],
     [0x72be5d74, 0x80deb1fe, 0x9bdc06a7, 0xc19bf174, 0xe49b69c1, 0xefbe4786],
     [0x0fc19dc6, 0x240ca1cc, 0x2de92c6f, 0x4a7484aa, 0x5cb0a9dc, 0x76f988da],
     [0x983e5152, 0xa831c66d, 0xb00327c8, 0xbf597fc7, 0xc6e00bf3, 0xd5a79147],
     [0x06ca6351, 0x14292967, 0x27b70a85, 0x2e1b2138, 0x4d2c6dfc, 0x53380d13],
     [0x650a7354, 0x766a0abb, 0x81c2c92e, 0x92722c85, 0xa2bfe8a1, 0xa81a664b],
     [0xc24b8b70, 0xc76c51a3, 0xd192e819, 0xd6990624, 0xf40e3585, 0x106aa070],
     [0x19a4c116, 0x1e376c08, 0x2748774c, 0x34b0bcb5, 0x391c0cb3, 0x4ed8aa4a],
     [0x5b9cca4f, 0x682e6ff3, 0x748f82ee, 0x78a5636f, 0x84c87814, 0x8cc70208],
     [0x90befffa, 0xa4506ceb, 0xbef9a3f7, 0xc67178f2]]"

definition be32 :: "u8 list \<Rightarrow> nat \<Rightarrow> u32" where
  "be32 block i =
     push_bit 24 (ucast (block ! (i * 4))) OR push_bit 16 (ucast (block ! (i * 4 + 1))) OR
     push_bit 8 (ucast (block ! (i * 4 + 2))) OR ucast (block ! (i * 4 + 3))"

text \<open>One iteration of the loop that fills \<^verbatim>\<open>w[16..63]\<close>; \<open>w\<close> holds the words so far.\<close>

definition extend_w :: "u32 list \<Rightarrow> u32 list" where
  "extend_w w =
     (let i = length w;
          s0 = RotR (w ! (i - 15)) 7 XOR RotR (w ! (i - 15)) 18 XOR drop_bit 3 (w ! (i - 15));
          s1 = RotR (w ! (i - 2)) 17 XOR RotR (w ! (i - 2)) 19 XOR drop_bit 10 (w ! (i - 2))
      in w @ [w ! (i - 16) + s0 + w ! (i - 7) + s1])"

definition schedule :: "u8 list \<Rightarrow> u32 list" where
  "schedule block = (extend_w ^^ 48) (map (be32 block) [0..<16])"

type_synonym regs = "u32 \<times> u32 \<times> u32 \<times> u32 \<times> u32 \<times> u32 \<times> u32 \<times> u32"

text \<open>One of the 64 rounds, with the round's constant and schedule word.\<close>

fun round_step :: "u32 \<times> u32 \<Rightarrow> regs \<Rightarrow> regs" where
  "round_step (ki, wi) (a, b, c, d, e, f, g, h) =
     (let s1 = RotR e 6 XOR RotR e 11 XOR RotR e 25;
          ch = (e AND f) XOR (NOT e AND g);
          temp1 = h + s1 + ch + ki + wi;
          s0 = RotR a 2 XOR RotR a 13 XOR RotR a 22;
          maj = (a AND b) XOR (a AND c) XOR (b AND c);
          temp2 = s0 + maj
      in (temp1 + temp2, a, b, c, d + temp1, e, f, g))"

definition Compress_h :: "u32 list \<Rightarrow> u8 list \<Rightarrow> u32 list" where
  "Compress_h hs block =
     (let w = schedule block;
          (a, b, c, d, e, f, g, h) =
            fold round_step (zip k_table w)
              (hs ! 0, hs ! 1, hs ! 2, hs ! 3, hs ! 4, hs ! 5, hs ! 6, hs ! 7)
      in [hs ! 0 + a, hs ! 1 + b, hs ! 2 + c, hs ! 3 + d,
          hs ! 4 + e, hs ! 5 + f, hs ! 6 + g, hs ! 7 + h])"

definition Compress :: "sha256 \<Rightarrow> sha256" where
  "Compress s = s\<lparr>hreg := Compress_h (hreg s) (state_buf s)\<rparr>"

definition H0 :: "u32 list" where
  "H0 = [0x6a09e667, 0xbb67ae85, 0x3c6ef372, 0xa54ff53a,
         0x510e527f, 0x9b05688c, 0x1f83d9ab, 0x5be0cd19]"

text \<open>
  \<^verbatim>\<open>Reset\<close> leaves \<^verbatim>\<open>state_buf_\<close> uninitialised: its bytes are the argument \<open>junk\<close>.
\<close>

definition Reset :: "u8 list \<Rightarrow> sha256" where
  "Reset junk = \<lparr>hreg = H0, state_buf = junk, buf_len = 0, bit_len = 0\<rparr>"

definition memcpy_at :: "u8 list \<Rightarrow> nat \<Rightarrow> u8 list \<Rightarrow> u8 list" where
  "memcpy_at dst off src = take off dst @ src @ drop (off + length src) dst"

text \<open>
  The body of the copy loop. \<^verbatim>\<open>UpdateNoCount\<close> is the same loop; the object invariant
  \<open>buf_len < 64\<close> makes \<^verbatim>\<open>take\<close> positive, so every iteration consumes input. The loop
  is written with that invariant as part of its guard.
\<close>

definition update_body :: "sha256 \<Rightarrow> u8 list \<Rightarrow> sha256 \<times> u8 list" where
  "update_body s data =
     (let n = min (length data) (64 - buf_len s);
          s1 = s\<lparr>state_buf := memcpy_at (state_buf s) (buf_len s) (take n data),
                 buf_len := buf_len s + n\<rparr>;
          s2 = (if buf_len s1 = 64 then (Compress s1)\<lparr>buf_len := 0\<rparr> else s1)
      in (s2, drop n data))"

function UpdateNoCount :: "sha256 \<Rightarrow> u8 list \<Rightarrow> sha256" where
  "UpdateNoCount s data =
     (if data = [] \<or> 64 \<le> buf_len s then s
      else let (s', rest) = update_body s data in UpdateNoCount s' rest)"
  by pat_completeness auto
termination
  by (relation "measure (\<lambda>(s, data). length data)") (auto simp: update_body_def Let_def min_def)

declare UpdateNoCount.simps [simp del]

definition Update :: "sha256 \<Rightarrow> u8 list \<Rightarrow> sha256" where
  "Update s data =
     UpdateNoCount (s\<lparr>bit_len := bit_len s + of_nat (length data) * 8\<rparr>) data"

text \<open>
  \<^verbatim>\<open>while (buf_len_ != 56) UpdateNoCount(&zero, 1);\<close>: at most 64 bytes are needed to
  reach offset 56, so 64 iterations are enough.
\<close>

fun pad_zeros :: "nat \<Rightarrow> sha256 \<Rightarrow> sha256" where
  "pad_zeros 0 s = s"
| "pad_zeros (Suc n) s = (if buf_len s \<noteq> 56 then pad_zeros n (UpdateNoCount s [0]) else s)"

text \<open>The eight length bytes, most significant first.\<close>

definition len_bytes :: "u64 \<Rightarrow> u8 list" where
  "len_bytes n = map (\<lambda>i. ucast (drop_bit (8 * (7 - i)) n)) [0..<8]"

definition out_bytes :: "u32 \<Rightarrow> u8 list" where
  "out_bytes h = [ucast (drop_bit 24 h), ucast (drop_bit 16 h), ucast (drop_bit 8 h), ucast h]"

definition Final :: "sha256 \<Rightarrow> u8 list" where
  "Final s =
     (let s1 = Update s [0x80];
          s2 = s1\<lparr>bit_len := bit_len s1 - 8\<rparr>;
          s3 = pad_zeros 64 s2;
          s4 = fold (\<lambda>b t. UpdateNoCount t [b]) (len_bytes (bit_len s3)) s3
      in concat (map out_bytes (hreg s4)))"

definition Sha256_Hash :: "u8 list \<Rightarrow> u8 list \<Rightarrow> u8 list" where
  "Sha256_Hash junk data = Final (Update (Reset junk) data)"

section \<open>HmacSha256\<close>

text \<open>
  \<open>junk\<close> again stands for the uninitialised buffers of the hash objects. The digest of a
  long key overwrites the first 32 bytes of the zeroed key block.
\<close>

definition HmacSha256 :: "u8 list \<Rightarrow> u8 list \<Rightarrow> u8 list \<Rightarrow> u8 list" where
  "HmacSha256 junk key message =
     (let zero_block = replicate 64 0;
          key_block = (if 64 < length key then memcpy_at zero_block 0 (Sha256_Hash junk key)
                       else memcpy_at zero_block 0 key);
          inner = map (\<lambda>i. key_block ! i XOR 0x36) [0..<64] @ message;
          inner_hash = Sha256_Hash junk inner;
          outer = map (\<lambda>i. key_block ! i XOR 0x5c) [0..<64] @ inner_hash
      in Sha256_Hash junk outer)"

section \<open>Reference: FIPS 180-4 and RFC 2104\<close>

definition fips_word :: "u8 list \<Rightarrow> nat \<Rightarrow> u32" where
  "fips_word block t =
     word_cat (word_cat (block ! (4 * t)) (block ! (4 * t + 1)) :: 16 word)
              (word_cat (block ! (4 * t + 2)) (block ! (4 * t + 3)) :: 16 word)"

definition fips_Ch :: "u32 \<Rightarrow> u32 \<Rightarrow> u32 \<Rightarrow> u32" where
  "fips_Ch x y z = (x AND y) XOR (NOT x AND z)"
definition fips_Maj :: "u32 \<Rightarrow> u32 \<Rightarrow> u32 \<Rightarrow> u32" where
  "fips_Maj x y z = (x AND y) XOR (x AND z) XOR (y AND z)"
definition fips_Sigma0 :: "u32 \<Rightarrow> u32" where
  "fips_Sigma0 x = word_rotr 2 x XOR word_rotr 13 x XOR word_rotr 22 x"
definition fips_Sigma1 :: "u32 \<Rightarrow> u32" where
  "fips_Sigma1 x = word_rotr 6 x XOR word_rotr 11 x XOR word_rotr 25 x"
definition fips_sigma0 :: "u32 \<Rightarrow> u32" where
  "fips_sigma0 x = word_rotr 7 x XOR word_rotr 18 x XOR drop_bit 3 x"
definition fips_sigma1 :: "u32 \<Rightarrow> u32" where
  "fips_sigma1 x = word_rotr 17 x XOR word_rotr 19 x XOR drop_bit 10 x"

fun fips_W :: "u8 list \<Rightarrow> nat \<Rightarrow> u32" where
  "fips_W block t =
     (if t < 16 then fips_word block t
      else fips_sigma1 (fips_W block (t - 2)) + fips_W block (t - 7) +
           fips_sigma0 (fips_W block (t - 15)) + fips_W block (t - 16))"

declare fips_W.simps [simp del]

fun fips_round :: "u8 list \<Rightarrow> nat \<Rightarrow> regs \<Rightarrow> regs" where
  "fips_round block t (a, b, c, d, e, f, g, h) =
     (let T1 = h + fips_Sigma1 e + fips_Ch e f g + k_table ! t + fips_W block t;
          T2 = fips_Sigma0 a + fips_Maj a b c
      in (T1 + T2, a, b, c, d + T1, e, f, g))"

definition fips_compress :: "u32 list \<Rightarrow> u8 list \<Rightarrow> u32 list" where
  "fips_compress hs block =
     (let (a, b, c, d, e, f, g, h) =
            fold (fips_round block) [0..<64]
              (hs ! 0, hs ! 1, hs ! 2, hs ! 3, hs ! 4, hs ! 5, hs ! 6, hs ! 7)
      in map2 (+) [hs ! 0, hs ! 1, hs ! 2, hs ! 3, hs ! 4, hs ! 5, hs ! 6, hs ! 7]
           [a, b, c, d, e, f, g, h])"

fun hash_blocks :: "(u32 list \<Rightarrow> u8 list \<Rightarrow> u32 list) \<Rightarrow> u32 list \<Rightarrow> u8 list \<Rightarrow> u32 list" where
  "hash_blocks compress hs m =
     (if length m < 64 then hs
      else hash_blocks compress (compress hs (take 64 m)) (drop 64 m))"

declare hash_blocks.simps [simp del]

text \<open>The message, a one bit, zeros up to 56 bytes modulo 64, and the length in bits.\<close>

definition fips_pad :: "u8 list \<Rightarrow> u8 list" where
  "fips_pad m =
     m @ [0x80] @ replicate ((119 - length m mod 64) mod 64) 0 @
     map (\<lambda>i. of_nat (8 * length m div 256 ^ (7 - i))) [0..<8]"

definition fips_sha256 :: "u8 list \<Rightarrow> u8 list" where
  "fips_sha256 m = concat (map out_bytes (hash_blocks fips_compress H0 (fips_pad m)))"

definition rfc2104_hmac :: "(u8 list \<Rightarrow> u8 list) \<Rightarrow> u8 list \<Rightarrow> u8 list \<Rightarrow> u8 list" where
  "rfc2104_hmac H key text =
     (let k0 = (if 64 < length key then H key else key);
          k = k0 @ replicate (64 - length k0) 0
      in H (map2 (XOR) k (replicate 64 0x5c) @ H (map2 (XOR) k (replicate 64 0x36) @ text)))"

section \<open>The compression function is the standard's\<close>

lemma RotR_word_rotr: "0 < n \<Longrightarrow> n < 32 \<Longrightarrow> RotR x n = word_rotr n x"
proof (rule bit_word_eqI)
  fix i assume n: "0 < n" "n < 32" and "i < LENGTH(32)"
  then have i: "i < 32" by simp
  have m: "(i + n) mod 32 = (if i + n < 32 then i + n else i + n - 32)"
    using i n by (simp add: le_mod_geq)
  have big: "\<not> bit x (i + n)" if "\<not> i + n < 32"
    using that bit_imp_le_length [of x "i + n"] by auto
  show "bit (RotR x n) i = bit (word_rotr n x) i"
    using i n m big
    by (auto simp: RotR_def bit_word_rotr_iff bit_or_iff bit_drop_bit_eq bit_push_bit_iff add.commute)
qed

lemmas RotR_rotrs = RotR_word_rotr [of 2] RotR_word_rotr [of 6] RotR_word_rotr [of 7]
  RotR_word_rotr [of 11] RotR_word_rotr [of 13] RotR_word_rotr [of 17] RotR_word_rotr [of 18]
  RotR_word_rotr [of 19] RotR_word_rotr [of 22] RotR_word_rotr [of 25]

lemma be32_fips_word: "be32 block i = fips_word block i"
proof (rule bit_word_eqI)
  fix n assume "n < LENGTH(32)"
  then show "bit (be32 block i) n = bit (fips_word block i) n"
    by (auto simp: be32_def fips_word_def bit_word_cat_iff bit_or_iff bit_push_bit_iff
        bit_ucast_iff mult.commute dest: bit_imp_le_length)
qed

lemma length_extend_w [simp]: "length (extend_w w) = Suc (length w)"
  by (simp add: extend_w_def Let_def)

lemma length_extend_w_pow [simp]: "length ((extend_w ^^ n) w) = n + length w"
  by (induction n) auto

lemma extend_w_pow_fips:
  "(extend_w ^^ n) (map (be32 block) [0..<16]) = map (fips_W block) [0..<16 + n]"
proof (induction n)
  case 0
  show ?case by (auto simp: fips_W.simps be32_fips_word)
next
  case (Suc n)
  let ?w = "map (fips_W block) [0..<16 + n]"
  have "fips_W block (n + 16) = fips_sigma1 (fips_W block (n + 14)) + fips_W block (n + 9) +
      fips_sigma0 (fips_W block (Suc n)) + fips_W block n"
    by (subst fips_W.simps) (simp add: add.commute)
  then have "extend_w ?w = ?w @ [fips_W block (16 + n)]"
    by (simp add: extend_w_def Let_def RotR_rotrs fips_sigma0_def fips_sigma1_def algebra_simps)
  moreover have "map (fips_W block) [0..<16 + Suc n] = ?w @ [fips_W block (16 + n)]"
    by (simp only: add_Suc_right upt_Suc) simp
  ultimately show ?case using Suc by simp
qed

lemma schedule_fips: "schedule block = map (fips_W block) [0..<64]"
  unfolding schedule_def by (simp only: extend_w_pow_fips) simp

lemma length_k_table [simp]: "length k_table = 64"
  by (simp add: k_table_def)

lemma round_step_fips: "round_step (k_table ! t, fips_W block t) r = fips_round block t r"
proof -
  obtain a b c d e f g h where "r = (a, b, c, d, e, f, g, h)"
    by (metis surj_pair)
  then show ?thesis
    by (simp add: Let_def RotR_rotrs fips_Sigma0_def fips_Sigma1_def fips_Ch_def fips_Maj_def)
qed

lemma zip_k_schedule:
  "zip k_table (schedule block) = map (\<lambda>t. (k_table ! t, fips_W block t)) [0..<64]"
  by (rule nth_equalityI) (auto simp: schedule_fips)

lemma Compress_h_fips: "Compress_h hs block = fips_compress hs block"
proof -
  have "(\<lambda>t. round_step (k_table ! t, fips_W block t)) = fips_round block"
    by (intro ext) (rule round_step_fips)
  then have "fold round_step (zip k_table (schedule block)) r = fold (fips_round block) [0..<64] r" for r
    by (simp add: zip_k_schedule fold_map comp_def)
  then show ?thesis
    by (simp add: Compress_h_def fips_compress_def Let_def split: prod.splits)
qed

section \<open>The buffered implementation absorbs the message\<close>

lemma hash_blocks_short: "length m < 64 \<Longrightarrow> hash_blocks C hs m = hs"
  by (subst hash_blocks.simps) simp

lemma hash_blocks_step:
  "64 \<le> length m \<Longrightarrow> hash_blocks C hs m = hash_blocks C (C hs (take 64 m)) (drop 64 m)"
  by (subst hash_blocks.simps) simp

lemma hash_blocks_append:
  assumes "64 dvd length m"
  shows "hash_blocks C hs (m @ d) = hash_blocks C (hash_blocks C hs m) d"
  using assms
proof (induction C hs m rule: hash_blocks.induct)
  case (1 C hs m)
  show ?case
  proof (cases "length m < 64")
    case True
    with "1.prems" have "m = []" by (cases m) (auto dest: dvd_imp_le)
    then show ?thesis by (simp add: hash_blocks_short)
  next
    case False
    with "1.prems" have "64 dvd length (drop 64 m)" by (simp add: dvd_diff_nat)
    with False "1.IH" show ?thesis
      by (simp add: hash_blocks_step [of m] hash_blocks_step [of "m @ d"])
  qed
qed

text \<open>
  \<open>absorbed s m\<close>: the object has consumed exactly the bytes \<open>m\<close>. The chaining value is
  that of the whole blocks of \<open>m\<close>, the first \<open>buf_len\<close> bytes of the buffer are its rest.
\<close>

definition tail_of :: "u8 list \<Rightarrow> u8 list" where
  "tail_of m = drop (length m - length m mod 64) m"

definition absorbed :: "sha256 \<Rightarrow> u8 list \<Rightarrow> bool" where
  "absorbed s m \<longleftrightarrow>
     length (state_buf s) = 64 \<and> buf_len s = length m mod 64 \<and>
     take (buf_len s) (state_buf s) = tail_of m \<and>
     hreg s = hash_blocks Compress_h H0 m"

lemma absorbed_bit_len [simp]: "absorbed (s\<lparr>bit_len := n\<rparr>) m = absorbed s m"
  by (simp add: absorbed_def)

lemma absorbed_buf_len: "absorbed s m \<Longrightarrow> buf_len s < 64"
  by (simp add: absorbed_def)

lemma length_tail_of [simp]: "length (tail_of m) = length m mod 64"
  by (simp add: tail_of_def)

lemma split_tail: "m = take (length m - length m mod 64) m @ tail_of m"
  by (simp add: tail_of_def)

lemma hash_blocks_via_tail:
  "hash_blocks C H0 (m @ d) = hash_blocks C (hash_blocks C H0 m) (tail_of m @ d)"
proof -
  let ?f = "take (length m - length m mod 64) m"
  have dvd: "64 dvd length ?f" by (simp add: minus_mod_eq_mult_div)
  have m: "m = ?f @ tail_of m" by (rule split_tail)
  have "hash_blocks C H0 (m @ d) = hash_blocks C (hash_blocks C H0 ?f) (tail_of m @ d)"
    by (subst m, simp only: append_assoc hash_blocks_append [OF dvd])
  moreover have "hash_blocks C H0 m = hash_blocks C H0 ?f"
    by (subst m, simp only: hash_blocks_append [OF dvd]) (simp add: hash_blocks_short)
  ultimately show ?thesis by simp
qed

lemma tail_of_append_short:
  assumes "length m mod 64 + length d < 64"
  shows "tail_of (m @ d) = tail_of m @ d"
proof -
  have "(length m + length d) mod 64 = length m mod 64 + length d"
    using assms by (metis mod_add_left_eq mod_less)
  moreover have "length m mod 64 \<le> length m" by simp
  ultimately show ?thesis by (simp add: tail_of_def)
qed

lemma absorbed_Reset: "length junk = 64 \<Longrightarrow> absorbed (Reset junk) []"
  by (simp add: absorbed_def Reset_def tail_of_def hash_blocks_short)

lemma absorbed_body:
  assumes s: "absorbed s m" and ne: "data \<noteq> []" and eq: "update_body s data = (s', rest)"
  shows "absorbed s' (m @ take (length data - length rest) data) \<and>
         rest = drop (length data - length rest) data \<and> length rest < length data \<and>
         bit_len s' = bit_len s"
proof -
  let ?n = "min (length data) (64 - buf_len s)" and ?u = "take (min (length data) (64 - buf_len s)) data"
  let ?buf = "memcpy_at (state_buf s) (buf_len s) ?u"
  have b: "buf_len s = length m mod 64" "length (state_buf s) = 64"
    "take (buf_len s) (state_buf s) = tail_of m" "hreg s = hash_blocks Compress_h H0 m"
    using s by (auto simp: absorbed_def)
  have lt: "length m mod 64 < 64" by simp
  have rest: "rest = drop ?n data" using eq by (simp add: update_body_def Let_def)
  have used: "length data - length rest = ?n" using rest by simp
  have pos: "0 < ?n" using ne lt b(1) by simp
  have lu: "length ?u = ?n" by simp
  have lb: "length ?buf = 64"
    using b lu by (simp add: memcpy_at_def)
  have tk: "take (buf_len s + ?n) ?buf = tail_of m @ ?u"
    using b lu lt by (simp add: memcpy_at_def)
  have "absorbed s' (m @ ?u) \<and> bit_len s' = bit_len s"
  proof (cases "buf_len s + ?n = 64")
    case True
    then have s': "s' = s\<lparr>state_buf := ?buf, buf_len := 0, hreg := Compress_h (hreg s) ?buf\<rparr>"
      using eq by (auto simp: update_body_def Let_def Compress_def)
    have full: "?buf = tail_of m @ ?u" using tk True lb by simp
    have len: "length (tail_of m @ ?u) = 64" using full lb by simp
    have md: "(length m + ?n) mod 64 = 0"
      using True b(1) by (metis mod_add_left_eq mod_self)
    have "hash_blocks Compress_h H0 (m @ ?u) = Compress_h (hreg s) ?buf"
      using len b(4) full
      by (simp add: hash_blocks_via_tail hash_blocks_step hash_blocks_short del: length_append take_append)
    with s' md lb show ?thesis by (simp add: absorbed_def tail_of_def)
  next
    case False
    then have s': "s' = s\<lparr>state_buf := ?buf, buf_len := buf_len s + ?n\<rparr>"
      using eq by (auto simp: update_body_def Let_def)
    have sm: "length m mod 64 + length ?u < 64" using False b(1) lt by auto
    have md: "(length m + ?n) mod 64 = buf_len s + ?n"
      using sm b(1) lu by (metis mod_add_left_eq mod_less)
    have "hash_blocks Compress_h H0 (m @ ?u) = hreg s"
      using sm b(4) by (simp add: hash_blocks_via_tail hash_blocks_short)
    moreover have nd: "?n = length data" using False lt b(1) by auto
    ultimately show ?thesis
      using s' md [unfolded nd] lb tk tail_of_append_short [OF sm] by (simp add: absorbed_def)
  qed
  with rest used pos show ?thesis by simp
qed

lemma absorbed_UpdateNoCount:
  assumes "absorbed s m"
  shows "absorbed (UpdateNoCount s data) (m @ data) \<and> bit_len (UpdateNoCount s data) = bit_len s"
  using assms
proof (induction s data arbitrary: m rule: UpdateNoCount.induct)
  case (1 s data)
  show ?case
  proof (cases "data = []")
    case True
    with "1.prems" show ?thesis by (simp add: UpdateNoCount.simps [of s])
  next
    case False
    obtain s' rest where b: "update_body s data = (s', rest)" by fastforce
    let ?u = "take (length data - length rest) data"
    from absorbed_body [OF "1.prems" False b]
    have a: "absorbed s' (m @ ?u)" and r: "rest = drop (length data - length rest) data"
      and bl: "bit_len s' = bit_len s" by auto
    have nlt: "\<not> 64 \<le> buf_len s" using absorbed_buf_len [OF "1.prems"] by simp
    have u: "?u @ rest = data" using r by (metis append_take_drop_id)
    have "absorbed (UpdateNoCount s' rest) ((m @ ?u) @ rest) \<and>
          bit_len (UpdateNoCount s' rest) = bit_len s'"
      using "1.IH" [OF _ b [symmetric] refl a] False nlt by simp
    then show ?thesis
      using False nlt b bl u by (simp add: UpdateNoCount.simps [of s])
  qed
qed

lemma absorbed_Update: "absorbed s m \<Longrightarrow> absorbed (Update s data) (m @ data)"
  by (simp add: Update_def absorbed_UpdateNoCount)

lemma bit_len_Update:
  "absorbed s m \<Longrightarrow> bit_len (Update s data) = bit_len s + of_nat (length data) * 8"
  using absorbed_UpdateNoCount [of "s\<lparr>bit_len := bit_len s + of_nat (length data) * 8\<rparr>" m data]
  by (simp add: Update_def)

section \<open>Final pads as the standard does\<close>

lemma pad_count_step:
  fixes r :: nat
  assumes "r < 64" "r \<noteq> 56"
  shows "(120 - r) mod 64 = Suc ((120 - (if r = 63 then 0 else Suc r)) mod 64)"
proof (cases "r < 56")
  case True
  then have e: "120 - r = 64 + (56 - r)" "120 - Suc r = 64 + (55 - r)" by simp_all
  have "(120 - r) mod 64 = 56 - r" "(120 - Suc r) mod 64 = 55 - r"
    by (simp_all only: e mod_add_self1) simp_all
  with True show ?thesis by simp
next
  case False
  with assms show ?thesis by auto
qed

lemma absorbed_pad_zeros:
  assumes "absorbed s m" and "(120 - length m mod 64) mod 64 \<le> n"
  shows "absorbed (pad_zeros n s) (m @ replicate ((120 - length m mod 64) mod 64) 0) \<and>
         bit_len (pad_zeros n s) = bit_len s"
  using assms
proof (induction n arbitrary: s m)
  case 0
  then show ?case by simp
next
  case (Suc n)
  have bl: "buf_len s = length m mod 64" using Suc.prems(1) by (simp add: absorbed_def)
  have lt: "length m mod 64 < 64" by simp
  show ?case
  proof (cases "buf_len s = 56")
    case True
    with bl have "length m mod 64 = 56" by simp
    with True Suc.prems(1) show ?thesis by simp
  next
    case False
    let ?m = "m @ [0]"
    have a: "absorbed (UpdateNoCount s [0]) ?m" "bit_len (UpdateNoCount s [0]) = bit_len s"
      using absorbed_UpdateNoCount [OF Suc.prems(1), of "[0]"] by auto
    have z: "(120 - length m mod 64) mod 64 = Suc ((120 - length ?m mod 64) mod 64)"
    proof -
      have "length ?m mod 64 = (if length m mod 64 = 63 then 0 else Suc (length m mod 64))"
        by (simp add: mod_Suc)
      then show ?thesis using pad_count_step [of "length m mod 64"] False bl by simp
    qed
    with Suc.prems(2) have "(120 - length ?m mod 64) mod 64 \<le> n" by simp
    from Suc.IH [OF a(1) this] a(2) z False show ?thesis
      by (simp add: replicate_append_same [symmetric])
  qed
qed

lemma absorbed_fold_bytes:
  "absorbed s m \<Longrightarrow> absorbed (fold (\<lambda>b t. UpdateNoCount t [b]) bs s) (m @ bs)"
proof (induction bs arbitrary: s m)
  case (Cons b bs)
  have "absorbed (UpdateNoCount s [b]) (m @ [b])"
    using absorbed_UpdateNoCount [OF Cons.prems, of "[b]"] by simp
  from Cons.IH [OF this] show ?case by simp
qed simp

lemma len_bytes_of_nat:
  "len_bytes (of_nat n) = map (\<lambda>i. of_nat (n div 256 ^ (7 - i))) [0..<8]"
proof -
  have "(ucast (drop_bit (8 * (7 - i)) (of_nat n :: u64)) :: u8) = of_nat (n div 256 ^ (7 - i))"
    if "i < 8" for i
  proof (rule bit_word_eqI)
    fix b assume "b < LENGTH(8)"
    then have b: "b < 8" by simp
    have "8 * (7 - i) + b < 64" using b that by linarith
    then have lt: "b + 8 * (7 - i) < LENGTH(64)" by (simp add: add.commute)
    have d: "n div 256 ^ (7 - i) = drop_bit (8 * (7 - i)) n"
      by (simp add: drop_bit_eq_div power_mult)
    show "bit (ucast (drop_bit (8 * (7 - i)) (of_nat n :: u64)) :: u8) b =
          bit (of_nat (n div 256 ^ (7 - i)) :: u8) b"
      using b lt unfolding d
      by (simp only: bit_ucast_iff bit_drop_bit_eq bit_word_of_nat_iff comp_def add.commute) simp
  qed
  then show ?thesis by (simp add: len_bytes_def)
qed

lemma Final_correct:
  assumes s: "absorbed s m" and bl: "bit_len s = of_nat (8 * length m)"
  shows "Final s = fips_sha256 m"
proof -
  let ?s1 = "Update s [0x80]"
  let ?s2 = "?s1\<lparr>bit_len := bit_len ?s1 - 8\<rparr>"
  let ?s3 = "pad_zeros 64 ?s2"
  let ?zs = "replicate ((120 - length (m @ [0x80 :: u8]) mod 64) mod 64) (0 :: u8)"
  have a2: "absorbed ?s2 (m @ [0x80])"
    using absorbed_Update [OF s] by simp
  have bl2: "bit_len ?s2 = of_nat (8 * length m)"
    using bit_len_Update [OF s, of "[0x80]"] bl by simp
  have "(120 - length (m @ [0x80 :: u8]) mod 64) mod 64 \<le> 64"
    using mod_le_divisor [of 64] by simp
  from absorbed_pad_zeros [OF a2 this]
  have a3: "absorbed ?s3 ((m @ [0x80]) @ ?zs)" and bl3: "bit_len ?s3 = of_nat (8 * length m)"
    using bl2 by auto
  have zs: "(120 - Suc (length m) mod 64) mod 64 = (119 - length m mod 64) mod 64"
    by (auto simp: mod_Suc)
  have pad: "((m @ [0x80]) @ ?zs) @ len_bytes (bit_len ?s3) = fips_pad m"
    unfolding bl3 len_bytes_of_nat by (simp add: fips_pad_def zs)
  let ?s4 = "fold (\<lambda>b t. UpdateNoCount t [b]) (len_bytes (bit_len ?s3)) ?s3"
  have "absorbed ?s4 (fips_pad m)"
    using absorbed_fold_bytes [OF a3, of "len_bytes (bit_len ?s3)"] pad by simp
  then have "hreg ?s4 = hash_blocks Compress_h H0 (fips_pad m)"
    by (simp add: absorbed_def)
  moreover have "Compress_h = fips_compress"
    by (intro ext) (rule Compress_h_fips)
  ultimately show ?thesis
    by (simp add: Final_def fips_sha256_def Let_def)
qed

lemma Sha256_Hash_fips: "length junk = 64 \<Longrightarrow> Sha256_Hash junk m = fips_sha256 m"
proof -
  assume "length junk = 64"
  then have r: "absorbed (Reset junk) []" by (rule absorbed_Reset)
  have a: "absorbed (Update (Reset junk) m) m"
    using absorbed_Update [OF r, of m] by simp
  have "bit_len (Update (Reset junk) m) = of_nat (8 * length m)"
    using bit_len_Update [OF r, of m] by (simp add: Reset_def mult.commute)
  with a show ?thesis by (simp add: Sha256_Hash_def Final_correct)
qed

lemma length_fips_sha256 [simp]: "length (fips_sha256 m) = 32"
proof -
  have "length (hash_blocks fips_compress hs x) = 8" if "length hs = 8" for hs x
    using that
  proof (induction fips_compress hs x rule: hash_blocks.induct)
    case (1 hs m)
    then show ?case
      by (subst hash_blocks.simps) (simp add: fips_compress_def Let_def split: prod.splits)
  qed
  then have "length (hash_blocks fips_compress H0 (fips_pad m)) = 8"
    by (simp add: H0_def)
  then show ?thesis
    by (simp add: fips_sha256_def out_bytes_def length_concat comp_def sum_list_triv)
qed

section \<open>HMAC over any 32-byte hash\<close>

text \<open>
  What \<^verbatim>\<open>HmacSha256\<close> needs of its hash is only the digest length: a long key's digest
  fits into the zeroed key block. The locale states that contract; the code's construction
  over an arbitrary hash is then RFC 2104's.
\<close>

locale digest32 =
  fixes H :: "u8 list \<Rightarrow> u8 list"
  assumes digest_length: "length (H m) = 32"
begin

lemma xor_pad:
  "map (\<lambda>i. kb ! i XOR p) [0..<64] = map2 (XOR) kb (replicate 64 p)" if "length kb = 64"
  using that by (intro nth_equalityI) auto

lemma hmac_rfc2104:
  "(let key_block = memcpy_at (replicate 64 0) 0 (if 64 < length key then H key else key)
    in H (map (\<lambda>i. key_block ! i XOR 0x5c) [0..<64] @
          H (map (\<lambda>i. key_block ! i XOR 0x36) [0..<64] @ message)))
   = rfc2104_hmac H key message"
  by (cases "64 < length key")
    (simp_all add: Let_def rfc2104_hmac_def memcpy_at_def digest_length xor_pad)

end

interpretation fips: digest32 fips_sha256
  by unfold_locales simp

lemma HmacSha256_rfc2104:
  assumes "length junk = 64"
  shows "HmacSha256 junk key message = rfc2104_hmac fips_sha256 key message"
proof -
  have "Sha256_Hash junk = fips_sha256"
    using Sha256_Hash_fips [OF assms] by (intro ext)
  then show ?thesis
    using fips.hmac_rfc2104 [of key message]
    by (cases "64 < length key") (simp_all add: HmacSha256_def Let_def)
qed

lemma length_HmacSha256: "length junk = 64 \<Longrightarrow> length (HmacSha256 junk key message) = 32"
  by (simp add: HmacSha256_rfc2104 rfc2104_hmac_def Let_def)

section \<open>The constants\<close>

text \<open>
  FIPS 180-4 defines the round constants as the first 32 bits of the fractional parts of
  the cube roots of the first 64 primes, and the initial chaining value as those of the
  square roots of the first 8 primes. Scaled to integers: \<open>n\<close> is the floor of
  \<open>2^32\<close> times the \<open>e\<close>-th root of \<open>p\<close>, and the constant is \<open>n\<close> modulo \<open>2^32\<close>.
\<close>

definition first_primes :: "nat list" where
  "first_primes =
     [2, 3, 5, 7, 11, 13, 17, 19, 23, 29, 31, 37, 41, 43, 47, 53, 59, 61, 67, 71, 73, 79, 83,
      89, 97, 101, 103, 107, 109, 113, 127, 131, 137, 139, 149, 151, 157, 163, 167, 173, 179,
      181, 191, 193, 197, 199, 211, 223, 227, 229, 233, 239, 241, 251, 257, 263, 269, 271, 277,
      281, 283, 293, 307, 311]"

text \<open>The integer part of the root: no prime in the list has a root of 8 or more.\<close>

definition int_root :: "nat \<Rightarrow> nat \<Rightarrow> nat" where
  "int_root e p = length (takeWhile (\<lambda>k. k ^ e \<le> p) [1, 2, 3, 4, 5, 6, 7])"

definition root_constant :: "nat \<Rightarrow> nat \<Rightarrow> u32 \<Rightarrow> bool" where
  "root_constant e p k =
     (let n = int_root e p * 2 ^ 32 + unat k
      in n ^ e \<le> p * 2 ^ (32 * e) \<and> p * 2 ^ (32 * e) < (n + 1) ^ e)"

lemma k_table_roots: "list_all2 (root_constant 3) first_primes k_table"
  by (simp add: k_table_def first_primes_def root_constant_def int_root_def)

lemma H0_roots: "list_all2 (root_constant 2) (take 8 first_primes) H0"
  by (simp add: H0_def first_primes_def root_constant_def int_root_def)

section \<open>Properties\<close>

lemma absorbed_chunks:
  "absorbed s m \<Longrightarrow>
     absorbed (fold (\<lambda>c t. Update t c) chunks s) (m @ concat chunks) \<and>
     bit_len (fold (\<lambda>c t. Update t c) chunks s) = bit_len s + of_nat (8 * length (concat chunks))"
proof (induction chunks arbitrary: s m)
  case (Cons c chunks)
  from Cons.IH [OF absorbed_Update [OF Cons.prems, of c]] bit_len_Update [OF Cons.prems, of c]
  show ?case by (simp add: algebra_simps)
qed simp

text \<open>
  Claim C11. The buffered \<^verbatim>\<open>Sha256\<close> object computes FIPS 180-4 SHA-256: feeding a message to
  \<^verbatim>\<open>Update\<close> in any chunks and calling \<^verbatim>\<open>Final\<close> gives the digest of the concatenation, for
  every message and every content of the uninitialised 64-byte buffer. The length field,
  the padding and the byte order are the standard's.
\<close>

theorem Sha256_streaming_fips:
  assumes "length junk = 64"
  shows "Final (fold (\<lambda>c s. Update s c) chunks (Reset junk)) = fips_sha256 (concat chunks)"
proof -
  have r: "absorbed (Reset junk) []" using assms by (rule absorbed_Reset)
  from absorbed_chunks [OF r, of chunks] show ?thesis
    by (intro Final_correct) (simp_all add: Reset_def)
qed

theorem Sha256_streaming_fips_witness:
  "length (replicate 64 7 :: u8 list) = 64 \<and>
   Final (fold (\<lambda>c s. Update s c) [[1, 2], [], [3]] (Reset (replicate 64 7))) = fips_sha256 [1, 2, 3]"
  using Sha256_streaming_fips [of "replicate 64 7" "[[1, 2], [], [3]]"] by simp

text \<open>
  Claim C12. \<^verbatim>\<open>HmacSha256\<close> is the HMAC of RFC 2104 over SHA-256 for every key and message,
  in particular for keys longer than the 64-byte block, which are hashed first; the
  result is 32 bytes, the size of the caller's buffer.
\<close>

theorem HmacSha256_correct:
  assumes "length junk = 64"
  shows "HmacSha256 junk key message = rfc2104_hmac fips_sha256 key message \<and>
         length (HmacSha256 junk key message) = 32"
  using HmacSha256_rfc2104 [OF assms] length_HmacSha256 [OF assms] by simp

theorem HmacSha256_correct_witness:
  "length (replicate 64 0 :: u8 list) = 64 \<and>
   HmacSha256 (replicate 64 0) (replicate 65 1) [2] =
     rfc2104_hmac fips_sha256 (replicate 65 1) [2]"
  using HmacSha256_correct [of "replicate 64 0" "replicate 65 1" "[2]"] by simp

text \<open>
  The constants compiled into \<^verbatim>\<open>Sha256\<close> are the ones the standard derives: the 64
  round constants are the leading fractional bits of the cube roots of the first 64
  primes, the initial value those of the square roots of the first 8.
\<close>

lemma Sha256_constants:
  "list_all2 (root_constant 3) first_primes k_table \<and>
   list_all2 (root_constant 2) (take 8 first_primes) (hreg (Reset junk))"
  using k_table_roots H0_roots by (simp add: Reset_def)

end
