(* ===== verification/Asr_Error.thy ===== *)
theory Asr_Error
  imports Prelude
begin

text \<open>
  The SDK's error model (\<^verbatim>\<open>include/trtc_asr/errors.h\<close>): the numeric codes and the
  exception class \<^verbatim>\<open>ASRError\<close>. A fallible operation returns a value of
  \<open>exn + 'a\<close>. Besides \<^verbatim>\<open>ASRError\<close> the type has the exceptions of other libraries that
  derive from \<^verbatim>\<open>std::exception\<close> (the JSON library's \<^verbatim>\<open>type_error\<close> above all), and
  \<open>Undefined\<close> for a path on which the C++ program has undefined behaviour, so that
  reaching one is visible in the model.
\<close>

definition kErrInvalidParam :: int where "kErrInvalidParam = 1001"
definition kErrConnectFailed :: int where "kErrConnectFailed = 1002"
definition kErrWriteFailed :: int where "kErrWriteFailed = 1003"
definition kErrReadFailed :: int where "kErrReadFailed = 1004"
definition kErrAuthFailed :: int where "kErrAuthFailed = 1005"
definition kErrTimeout :: int where "kErrTimeout = 1006"
definition kErrServerError :: int where "kErrServerError = 1007"
definition kErrAlreadyStarted :: int where "kErrAlreadyStarted = 1008"
definition kErrNotStarted :: int where "kErrNotStarted = 1009"
definition kErrAlreadyStopped :: int where "kErrAlreadyStopped = 1010"

lemmas error_codes = kErrInvalidParam_def kErrConnectFailed_def kErrWriteFailed_def
  kErrReadFailed_def kErrAuthFailed_def kErrTimeout_def kErrServerError_def
  kErrAlreadyStarted_def kErrNotStarted_def kErrAlreadyStopped_def

datatype exn =
    ASRError int string
  | StdException string
  | Undefined string

type_synonym 'a result = "exn + 'a"

text \<open>\<^verbatim>\<open>ASRError::what()\<close>: the message with the code prefixed.\<close>

definition asr_what :: "int \<Rightarrow> string \<Rightarrow> string" where
  "asr_what code message = ''trtc-asr error ['' @ to_string code @ '']: '' @ message"

fun exn_what :: "exn \<Rightarrow> string" where
  "exn_what (ASRError code message) = asr_what code message"
| "exn_what (StdException w) = w"
| "exn_what (Undefined w) = w"

text \<open>
  \<^verbatim>\<open>try { m } catch (const std::exception& e) { throw ASRError(code, pre + e.what()); }\<close>:
  both \<^verbatim>\<open>ASRError\<close> and foreign exceptions derive from \<^verbatim>\<open>std::exception\<close>; undefined
  behaviour is not an exception and is not caught.
\<close>

definition rethrow_as :: "int \<Rightarrow> string \<Rightarrow> 'a result \<Rightarrow> 'a result" where
  "rethrow_as code pre m =
     catchE m (\<lambda>e. case e of Undefined w \<Rightarrow> Inl (Undefined w)
                         | _ \<Rightarrow> Inl (ASRError code (pre @ exn_what e)))"

text \<open>
  \<^verbatim>\<open>try { m } catch (const ASRError& e) { throw ASRError(code, pre + e.message()); }\<close>
\<close>

definition rethrow_asr_as :: "int \<Rightarrow> string \<Rightarrow> 'a result \<Rightarrow> 'a result" where
  "rethrow_asr_as code pre m =
     catchE m (\<lambda>e. case e of ASRError _ msg \<Rightarrow> Inl (ASRError code (pre @ msg)) | _ \<Rightarrow> Inl e)"

fun is_asr_error :: "exn \<Rightarrow> bool" where
  "is_asr_error (ASRError _ _) = True"
| "is_asr_error _ = False"

text \<open>The outcome converges on the SDK error model: a value, or an \<^verbatim>\<open>ASRError\<close>.\<close>

definition sdk_outcome :: "'a result \<Rightarrow> bool" where
  "sdk_outcome m = (case m of Inl e \<Rightarrow> is_asr_error e | Inr _ \<Rightarrow> True)"

definition no_undefined :: "'a result \<Rightarrow> bool" where
  "no_undefined m = (case m of Inl (Undefined _) \<Rightarrow> False | _ \<Rightarrow> True)"

definition invalid_param :: "string \<Rightarrow> exn" where
  "invalid_param msg = ASRError kErrInvalidParam msg"

lemma rethrow_as_simps [simp, err_simps]:
  "rethrow_as code pre (Inr x) = Inr x"
  "rethrow_as code pre (Inl (ASRError c m)) = Inl (ASRError code (pre @ asr_what c m))"
  "rethrow_as code pre (Inl (StdException w)) = Inl (ASRError code (pre @ w))"
  "rethrow_as code pre (Inl (Undefined w)) = Inl (Undefined w)"
  by (simp_all add: rethrow_as_def)

lemma rethrow_asr_as_simps [simp, err_simps]:
  "rethrow_asr_as code pre (Inr x) = Inr x"
  "rethrow_asr_as code pre (Inl (ASRError c m)) = Inl (ASRError code (pre @ m))"
  "rethrow_asr_as code pre (Inl (StdException w)) = Inl (StdException w)"
  "rethrow_asr_as code pre (Inl (Undefined w)) = Inl (Undefined w)"
  by (simp_all add: rethrow_asr_as_def)

lemma rethrow_as_Inr_iff [simp]: "rethrow_as code pre m = Inr x \<longleftrightarrow> m = Inr x"
  by (cases m) (auto simp: rethrow_as_def split: exn.splits)

lemma rethrow_asr_as_Inr_iff [simp]: "rethrow_asr_as code pre m = Inr x \<longleftrightarrow> m = Inr x"
  by (cases m) (auto simp: rethrow_asr_as_def split: exn.splits)

lemma sdk_outcome_simps [simp]:
  "sdk_outcome (Inr x)"
  "sdk_outcome (Inl e) \<longleftrightarrow> is_asr_error e"
  by (simp_all add: sdk_outcome_def)

lemma no_undefined_simps [simp]:
  "no_undefined (Inr x)"
  "no_undefined (Inl (ASRError c m))"
  "no_undefined (Inl (StdException w))"
  "\<not> no_undefined (Inl (Undefined w))"
  by (simp_all add: no_undefined_def)

lemma sdk_outcome_no_undefined: "sdk_outcome m \<Longrightarrow> no_undefined m"
proof (cases m)
  case (Inl e)
  then show "sdk_outcome m \<Longrightarrow> ?thesis" by (cases e) auto
qed simp

lemma sdk_outcome_rethrow: "no_undefined m \<Longrightarrow> sdk_outcome (rethrow_as code pre m)"
proof (cases m)
  case (Inl e)
  then show "no_undefined m \<Longrightarrow> ?thesis" by (cases e) auto
qed simp

lemma sdk_outcome_bindE:
  "sdk_outcome m \<Longrightarrow> (\<And>x. m = Inr x \<Longrightarrow> sdk_outcome (f x)) \<Longrightarrow> sdk_outcome (bindE m f)"
  by (cases m) auto

lemma no_undefined_bindE:
  assumes "no_undefined m" and "\<And>x. m = Inr x \<Longrightarrow> no_undefined (f x)"
  shows "no_undefined (bindE m f)"
proof (cases m)
  case (Inl e)
  with assms show ?thesis by (cases e) auto
qed (use assms in simp)

lemma no_undefined_mapE: "(\<And>x. x \<in> set xs \<Longrightarrow> no_undefined (f x)) \<Longrightarrow> no_undefined (mapE f xs)"
  by (induction xs) (auto intro!: no_undefined_bindE)

lemma is_asr_error_invalid_param [simp]: "is_asr_error (invalid_param msg)"
  by (simp add: invalid_param_def)

lemma sdk_outcome_throw_if [simp]: "sdk_outcome (throw_if c e) \<longleftrightarrow> c \<longrightarrow> is_asr_error e"
  by (cases c) simp_all

section \<open>Validators\<close>

text \<open>
  A validator checks a condition: it returns normally when the condition holds and throws
  an invalid-parameter error when it does not.
\<close>

definition checks :: "unit result \<Rightarrow> bool \<Rightarrow> bool" where
  "checks m P = (if P then m = Inr () else (\<exists>msg. m = Inl (ASRError kErrInvalidParam msg)))"

lemma checks_throw_if: "checks (throw_if c (invalid_param msg)) (\<not> c)"
  by (simp add: checks_def invalid_param_def)

lemma checks_return: "checks (Inr ()) True"
  by (simp add: checks_def)

lemma checks_bindE: "checks m P \<Longrightarrow> (P \<Longrightarrow> checks (f ()) Q) \<Longrightarrow> checks (bindE m f) (P \<and> Q)"
  by (auto simp: checks_def split: if_splits)

lemma checks_iff: "checks m P \<Longrightarrow> P = Q \<Longrightarrow> checks m Q"
  by simp

lemma checks_Inr: "checks m P \<Longrightarrow> m = Inr () \<longleftrightarrow> P"
  by (auto simp: checks_def split: if_splits)

lemma checks_Inr_unit: "checks m P \<Longrightarrow> m = Inr u \<longleftrightarrow> P"
  by (auto simp: checks_def split: if_splits)

lemma checks_fail: "checks m P \<Longrightarrow> \<not> P \<Longrightarrow> \<exists>msg. m = Inl (ASRError kErrInvalidParam msg)"
  by (auto simp: checks_def)

lemma checks_sdk_outcome: "checks m P \<Longrightarrow> sdk_outcome m"
  by (auto simp: checks_def split: if_splits)

end
