(* ===== verification/Base64.thy ===== *)
theory Base64
  imports Asr_Error
begin

text \<open>
  Base64 of \<^verbatim>\<open>src/usersig.cc\<close>: the standard codec (\<^verbatim>\<open>Base64Encode\<close>, \<^verbatim>\<open>Base64Decode\<close>) and
  the URL variant of UserSig (\<^verbatim>\<open>+\<close>, \<^verbatim>\<open>/\<close>, \<^verbatim>\<open>=\<close> written as \<^verbatim>\<open>*\<close>, \<^verbatim>\<open>-\<close>, \<^verbatim>\<open>_\<close>). The
  shifts are on 32-bit words as in the source; the decoder's accumulator is never reset
  and drops its high bits by wrap-around, which the round trip accounts for.
\<close>

section \<open>Definitions\<close>

definition kB64Alphabet :: string where
  "kB64Alphabet = ''ABCDEFGHIJKLMNOPQRSTUVWXYZabcdefghijklmnopqrstuvwxyz0123456789+/''"

definition B64Value :: "char \<Rightarrow> int" where
  "B64Value c =
     (if CHR ''A'' \<le> c \<and> c \<le> CHR ''Z'' then int (char_code c) - int (char_code (CHR ''A''))
      else if CHR ''a'' \<le> c \<and> c \<le> CHR ''z'' then int (char_code c) - int (char_code (CHR ''a'')) + 26
      else if CHR ''0'' \<le> c \<and> c \<le> CHR ''9'' then int (char_code c) - int (char_code (CHR ''0'')) + 52
      else if c = CHR ''+'' then 62
      else if c = CHR ''/'' then 63
      else -1)"

definition b64_char :: "u32 \<Rightarrow> char" where
  "b64_char v = kB64Alphabet ! unat (v AND 0x3F)"

text \<open>
  The loop \<^verbatim>\<open>for (i = 0; i < len; i += 3)\<close>; the three equations are the three cases of
  \<^verbatim>\<open>i + 1 < len\<close> and \<^verbatim>\<open>i + 2 < len\<close> for the bytes from position \<^verbatim>\<open>i\<close> on.
\<close>

fun Base64Encode :: "u8 list \<Rightarrow> string" where
  "Base64Encode [] = []"
| "Base64Encode [a] =
     (let v = push_bit 16 (ucast a :: u32)
      in [b64_char (drop_bit 18 v), b64_char (drop_bit 12 v), CHR ''='', CHR ''=''])"
| "Base64Encode [a, b] =
     (let v = push_bit 16 (ucast a :: u32) OR push_bit 8 (ucast b)
      in [b64_char (drop_bit 18 v), b64_char (drop_bit 12 v), b64_char (drop_bit 6 v), CHR ''=''])"
| "Base64Encode (a # b # c # rest) =
     (let v = push_bit 16 (ucast a :: u32) OR push_bit 8 (ucast b) OR ucast c
      in b64_char (drop_bit 18 v) # b64_char (drop_bit 12 v) # b64_char (drop_bit 6 v) #
         b64_char v # Base64Encode rest)"

text \<open>The decoding loop over \<^verbatim>\<open>acc\<close>, \<^verbatim>\<open>bits\<close> and \<^verbatim>\<open>out\<close>; \<^verbatim>\<open>=\<close> breaks, other characters throw.\<close>

fun b64_decode_loop :: "u32 \<Rightarrow> nat \<Rightarrow> u8 list \<Rightarrow> string \<Rightarrow> u8 list result" where
  "b64_decode_loop acc bits out [] = Inr out"
| "b64_decode_loop acc bits out (c # s) =
     (if c = CHR ''='' then Inr out
      else let v = B64Value c in
        if v < 0 then Inl (invalid_param ''base64 decode failed: invalid character'')
        else let acc' = push_bit 6 acc OR of_int v; bits' = bits + 6 in
          if 8 \<le> bits' then
            b64_decode_loop acc' (bits' - 8) (out @ [ucast (drop_bit (bits' - 8) acc' AND 0xFF)]) s
          else b64_decode_loop acc' bits' out s)"

definition Base64Decode :: "string \<Rightarrow> u8 list result" where
  "Base64Decode s = b64_decode_loop 0 0 [] s"

definition to_url_char :: "char \<Rightarrow> char" where
  "to_url_char c =
     (if c = CHR ''+'' then CHR ''*'' else if c = CHR ''/'' then CHR ''-''
      else if c = CHR ''='' then CHR ''_'' else c)"

definition from_url_char :: "char \<Rightarrow> char" where
  "from_url_char c =
     (if c = CHR ''_'' then CHR ''='' else if c = CHR ''-'' then CHR ''/''
      else if c = CHR ''*'' then CHR ''+'' else c)"

definition Base64UrlEncode :: "u8 list \<Rightarrow> string" where
  "Base64UrlEncode data = map to_url_char (Base64Encode data)"

definition Base64UrlDecode :: "string \<Rightarrow> u8 list result" where
  "Base64UrlDecode s = Base64Decode (map from_url_char s)"

section \<open>The alphabet\<close>

lemma length_alphabet [simp]: "length kB64Alphabet = 64"
  by (simp add: kB64Alphabet_def)

lemma alphabet_values:
  "list_all (\<lambda>i. B64Value (kB64Alphabet ! i) = int i \<and> kB64Alphabet ! i \<noteq> CHR ''='') [0..<64]"
  by code_simp

lemma B64Value_alphabet: "i < 64 \<Longrightarrow> B64Value (kB64Alphabet ! i) = int i"
  using alphabet_values by (simp add: list_all_iff)

lemma alphabet_not_pad: "i < 64 \<Longrightarrow> kB64Alphabet ! i \<noteq> CHR ''=''"
  using alphabet_values by (simp add: list_all_iff)

lemma unat_and_63: "unat (v AND 0x3F :: u32) < 64"
proof -
  have "unat (v AND 0x3F :: u32) \<le> unat (0x3F :: u32)"
    by (rule word_and_le1 [THEN word_le_nat_alt [THEN iffD1]])
  then show ?thesis by simp
qed

lemma B64Value_b64_char [simp]: "B64Value (b64_char v) = int (unat (v AND 0x3F))"
  by (simp add: b64_char_def B64Value_alphabet unat_and_63)

lemma of_int_B64Value [simp]: "(of_int (B64Value (b64_char v)) :: u32) = v AND 0x3F"
  by simp

lemma b64_char_not_pad [simp]: "b64_char v \<noteq> CHR ''=''"
  by (simp add: b64_char_def alphabet_not_pad unat_and_63)

lemma b64_char_in_alphabet: "b64_char v \<in> set kB64Alphabet"
  by (simp add: b64_char_def unat_and_63)

lemma and_63: "(v :: u32) AND 0x3F = take_bit 6 v"
  by (simp add: take_bit_eq_mask mask_numeral)
lemma and_FF: "(v :: u32) AND 0xFF = take_bit 8 v"
  by (simp add: take_bit_eq_mask mask_numeral)

lemmas b64_bits = and_63 and_FF bit_ucast_iff bit_take_bit_iff bit_drop_bit_eq bit_push_bit_iff bit_or_iff bit_u8_high

section \<open>Round trip\<close>

text \<open>What the accumulator holds after each of the four characters of a group.\<close>

definition acc_in :: "u32 \<Rightarrow> u32 \<Rightarrow> u32" where
  "acc_in acc v = push_bit 6 acc OR (v AND 0x3F)"

lemma decode_char:
  "b64_decode_loop acc bits out (b64_char v # s) =
     (if 2 \<le> bits then
        b64_decode_loop (acc_in acc v) (bits - 2) (out @ [ucast (drop_bit (bits - 2) (acc_in acc v) AND 0xFF)]) s
      else b64_decode_loop (acc_in acc v) (bits + 6) out s)"
  by (simp add: Let_def acc_in_def)

lemma decode_pad: "b64_decode_loop acc bits out (CHR ''='' # s) = Inr out"
  by simp

lemma group_byte0:
  "v = push_bit 16 (ucast (a :: u8)) OR w \<Longrightarrow> w = 0 \<or> w = push_bit 8 (ucast (b :: u8)) \<or>
     w = push_bit 8 (ucast b) OR ucast (c :: u8) \<Longrightarrow>
   (ucast (drop_bit 4 (acc_in (acc_in acc (drop_bit 18 v)) (drop_bit 12 v)) AND 0xFF) :: u8) = a"
  by (rule byte_eqI; auto simp: acc_in_def b64_bits)

lemma group_byte1:
  "v = push_bit 16 (ucast (a :: u8)) OR push_bit 8 (ucast (b :: u8)) OR w \<Longrightarrow> w = 0 \<or> w = ucast (c :: u8) \<Longrightarrow>
   (ucast (drop_bit 2 (acc_in (acc_in acc (drop_bit 12 v)) (drop_bit 6 v)) AND 0xFF) :: u8) = b"
  by (rule byte_eqI; auto simp: acc_in_def b64_bits)

lemma group_byte2:
  "v = push_bit 16 (ucast (a :: u8)) OR push_bit 8 (ucast (b :: u8)) OR ucast (c :: u8) \<Longrightarrow>
   (ucast (acc_in (acc_in acc (drop_bit 6 v)) v AND 0xFF) :: u8) = c"
  by (rule byte_eqI; auto simp: acc_in_def b64_bits)

lemma decode_encode_loop:
  "b64_decode_loop acc 0 out (Base64Encode bs) = Inr (out @ bs)"
proof (induction bs arbitrary: acc out rule: Base64Encode.induct)
  case 1
  show ?case by simp
next
  case (2 a)
  define v where "v = push_bit 16 (ucast a :: u32)"
  show ?case
    using group_byte0 [of v a 0]
    by (simp add: Let_def decode_char decode_pad v_def [symmetric] del: b64_decode_loop.simps)
next
  case (3 a b)
  define v where "v = push_bit 16 (ucast a :: u32) OR push_bit 8 (ucast b)"
  have "ucast (drop_bit 4 (acc_in (acc_in acc (drop_bit 18 v)) (drop_bit 12 v)) AND 0xFF) = a" for acc
    by (rule group_byte0 [OF v_def, of b]) simp
  moreover have "ucast (drop_bit 2 (acc_in (acc_in acc (drop_bit 12 v)) (drop_bit 6 v)) AND 0xFF) = b" for acc
    by (rule group_byte1 [of v a b 0]) (simp_all add: v_def)
  ultimately show ?case
    by (simp add: Let_def decode_char decode_pad v_def [symmetric] del: b64_decode_loop.simps)
next
  case (4 a b c rest)
  define v where "v = push_bit 16 (ucast a :: u32) OR push_bit 8 (ucast b) OR ucast c"
  have "ucast (drop_bit 4 (acc_in (acc_in acc (drop_bit 18 v)) (drop_bit 12 v)) AND 0xFF) = a" for acc
    by (rule group_byte0 [of v a "push_bit 8 (ucast b) OR ucast c" b c]) (simp_all add: v_def or.assoc)
  moreover have "ucast (drop_bit 2 (acc_in (acc_in acc (drop_bit 12 v)) (drop_bit 6 v)) AND 0xFF) = b" for acc
    by (rule group_byte1 [OF v_def, of c]) simp
  moreover have "ucast (acc_in (acc_in acc (drop_bit 6 v)) v AND 0xFF) = c" for acc
    by (rule group_byte2 [OF v_def])
  ultimately show ?case
    using "4" by (simp add: Let_def decode_char v_def [symmetric] del: b64_decode_loop.simps)
qed

lemma Base64Decode_Encode: "Base64Decode (Base64Encode bs) = Inr bs"
  by (simp add: Base64Decode_def decode_encode_loop)

lemma Base64Encode_chars: "c \<in> set (Base64Encode bs) \<Longrightarrow> c \<in> set kB64Alphabet \<or> c = CHR ''=''"
  by (induction bs rule: Base64Encode.induct) (auto simp: Let_def b64_char_in_alphabet)

lemma url_char_inverse:
  "list_all (\<lambda>c. from_url_char (to_url_char c) = c) (CHR ''='' # kB64Alphabet)"
  by code_simp

lemma from_to_url_char: "c \<in> set kB64Alphabet \<or> c = CHR ''='' \<Longrightarrow> from_url_char (to_url_char c) = c"
  using url_char_inverse by (auto simp: list_all_iff)

lemma from_to_url_encode: "map from_url_char (map to_url_char (Base64Encode bs)) = Base64Encode bs"
  by (simp add: comp_def map_idI Base64Encode_chars from_to_url_char)

lemma length_Base64Encode: "length (Base64Encode bs) = (length bs + 2) div 3 * 4"
proof (induction bs rule: Base64Encode.induct)
  case (4 a b c rest)
  have "(length rest + 5) div 3 = Suc ((length rest + 2) div 3)" by presburger
  with "4" show ?case by (simp add: Let_def add.commute)
qed (simp_all add: Let_def)

section \<open>What the decoder rejects\<close>

lemma B64Value_neg_all: "\<forall>c. B64Value c < 0 \<longleftrightarrow> c \<notin> set kB64Alphabet"
  by code_simp

lemma B64Value_neg_iff: "B64Value c < 0 \<longleftrightarrow> c \<notin> set kB64Alphabet"
  using B64Value_neg_all by blast

lemma b64_decode_loop_ok:
  "(\<exists>r. b64_decode_loop acc bits out s = Inr r) \<longleftrightarrow>
     set (takeWhile (\<lambda>c. c \<noteq> CHR ''='') s) \<subseteq> set kB64Alphabet"
proof (induction s arbitrary: acc bits out)
  case (Cons c s)
  then show ?case by (auto simp: Let_def B64Value_neg_iff)
qed simp

lemma b64_decode_loop_err:
  "b64_decode_loop acc bits out s = Inl e \<Longrightarrow>
     e = invalid_param ''base64 decode failed: invalid character''"
  by (induction s arbitrary: acc bits out) (auto simp: Let_def split: if_splits)

lemma b64_decode_loop_length:
  "b64_decode_loop acc bits out s = Inr r \<Longrightarrow> bits < 8 \<Longrightarrow>
     length r = length out + (bits + 6 * length (takeWhile (\<lambda>c. c \<noteq> CHR ''='') s)) div 8"
proof (induction s arbitrary: acc bits out)
  case (Cons c s)
  show ?case
  proof (cases "c = CHR ''='' \<or> B64Value c < 0")
    case True
    with Cons.prems show ?thesis by (auto simp: Let_def)
  next
    case False
    let ?n = "length (takeWhile (\<lambda>c. c \<noteq> CHR ''='') s)"
    show ?thesis
    proof (cases "8 \<le> bits + 6")
      case True
      have "bits + 6 * Suc ?n = 8 + (bits + 6 - 8 + 6 * ?n)" using True by simp
      then have "(bits + 6 * Suc ?n) div 8 = Suc ((bits + 6 - 8 + 6 * ?n) div 8)"
        by (simp only: div_add_self1)
      with Cons.IH [of _ "bits + 6 - 8"] Cons.prems False True show ?thesis
        by (simp add: Let_def)
    next
      case small: False
      with Cons.IH [of _ "bits + 6"] Cons.prems False show ?thesis
        by (simp add: Let_def algebra_simps)
    qed
  qed
qed simp

lemma Base64UrlDecode_Encode: "Base64UrlDecode (Base64UrlEncode bs) = Inr bs"
  using from_to_url_encode [of bs]
  by (simp add: Base64UrlDecode_def Base64UrlEncode_def Base64Decode_Encode)

definition url_alphabet :: string where
  "url_alphabet = ''ABCDEFGHIJKLMNOPQRSTUVWXYZabcdefghijklmnopqrstuvwxyz0123456789*-_''"

lemma to_url_char_alphabet:
  "list_all (\<lambda>c. to_url_char c \<in> set url_alphabet) (CHR ''='' # kB64Alphabet)"
  by code_simp

section \<open>Properties\<close>

text \<open>
  Claim C34. Both codecs are lossless: decoding an encoded byte string gives it back, for the
  standard alphabet and for the UserSig URL variant, whatever the 32-bit accumulator
  carries over from earlier groups.
\<close>

theorem Base64_roundtrip:
  "Base64Decode (Base64Encode bs) = Inr bs \<and> Base64UrlDecode (Base64UrlEncode bs) = Inr bs"
  by (simp add: Base64Decode_Encode Base64UrlDecode_Encode)

text \<open>
  The encoder writes four characters per started group of three bytes, which is
  what it reserves, and the URL variant uses letters, digits, \<^verbatim>\<open>*\<close>, \<^verbatim>\<open>-\<close> and \<^verbatim>\<open>_\<close> only.
\<close>

lemma Base64UrlEncode_shape:
  "length (Base64UrlEncode bs) = (length bs + 2) div 3 * 4 \<and>
   set (Base64UrlEncode bs) \<subseteq> set url_alphabet"
  using to_url_char_alphabet
  by (auto simp: Base64UrlEncode_def length_Base64Encode list_all_iff dest!: Base64Encode_chars)

text \<open>
  Claim C35. The decoder throws exactly when a character before the first \<^verbatim>\<open>=\<close> is outside
  the alphabet; otherwise it returns six bits per character, whole bytes only. Nothing
  after the first \<^verbatim>\<open>=\<close> is looked at and the number of characters is not checked.
\<close>

theorem Base64Decode_outcome:
  "let body = takeWhile (\<lambda>c. c \<noteq> CHR ''='') s in
   if set body \<subseteq> set kB64Alphabet
   then (\<exists>bs. Base64Decode s = Inr bs \<and> length bs = 6 * length body div 8)
   else Base64Decode s = Inl (invalid_param ''base64 decode failed: invalid character'')"
proof (cases "set (takeWhile (\<lambda>c. c \<noteq> CHR ''='') s) \<subseteq> set kB64Alphabet")
  case True
  with b64_decode_loop_ok [of 0 0 "[]" s] obtain r where "Base64Decode s = Inr r"
    by (auto simp: Base64Decode_def)
  with True b64_decode_loop_length [of 0 0 "[]" s r] show ?thesis
    by (simp add: Base64Decode_def Let_def)
next
  case False
  with b64_decode_loop_ok [of 0 0 "[]" s] obtain e where "Base64Decode s = Inl e"
    by (cases "Base64Decode s") (auto simp: Base64Decode_def)
  with False b64_decode_loop_err [of 0 0 "[]" s e] show ?thesis
    by (simp add: Base64Decode_def)
qed

end
