(* ===== verification/UserSig.thy ===== *)
theory UserSig
  imports Sha256 Base64
begin

text \<open>
  The UserSig ticket of \<^verbatim>\<open>src/usersig.cc\<close>: \<^verbatim>\<open>JsonEscape\<close>, \<^verbatim>\<open>ZlibCompress\<close>,
  \<^verbatim>\<open>GenUserSigAt\<close> and \<^verbatim>\<open>GenUserSig\<close>. zlib is not part of the repository: \<^verbatim>\<open>compress2\<close> is
  the parameter \<open>compress2\<close> that returns the status code and the bytes it wrote, and what
  the ticket relies on (its output decompresses to its input) is the locale
  \<open>zlib_codec\<close>. The reference side is a verifier as a server would write it: undo the
  encodings, read the document field by field and recompute the signature.
\<close>

type_synonym compressor = "u8 list \<Rightarrow> int \<times> u8 list"

definition kDefaultExpire :: int where
  "kDefaultExpire = 86400 * 180"

definition Z_OK :: int where
  "Z_OK = 0"

definition ZlibCompress :: "compressor \<Rightarrow> string \<Rightarrow> u8 list result" where
  "ZlibCompress compress2 data =
     (let (rc, out) = compress2 (bytes_of data)
      in bindE (throw_if (rc \<noteq> Z_OK) (invalid_param (''zlib compress failed: '' @ to_string rc)))
           (\<lambda>_. Inr out))"

text \<open>\<^verbatim>\<open>snprintf("\u%04x", c)\<close> for a control character: two zeros and two hex digits.\<close>

definition hex_digit :: "nat \<Rightarrow> char" where
  "hex_digit d = (if d < 10 then char_of (48 + d) else char_of (87 + d))"

definition escape_char :: "char \<Rightarrow> string" where
  "escape_char c =
     (if c = CHR 0x22 then [CHR 0x5C, CHR 0x22]
      else if c = CHR 0x5C then [CHR 0x5C, CHR 0x5C]
      else if c = CHR 0x0A then [CHR 0x5C, CHR ''n'']
      else if c = CHR 0x0D then [CHR 0x5C, CHR ''r'']
      else if c = CHR 0x09 then [CHR 0x5C, CHR ''t'']
      else if char_code c < 0x20
      then [CHR 0x5C, CHR ''u'', CHR ''0'', CHR ''0'', hex_digit (char_code c div 16),
            hex_digit (char_code c mod 16)]
      else [c])"

fun JsonEscape :: "string \<Rightarrow> string" where
  "JsonEscape [] = []"
| "JsonEscape (c # s) = escape_char c @ JsonEscape s"

definition sig_content :: "int \<Rightarrow> string \<Rightarrow> int \<Rightarrow> int \<Rightarrow> string" where
  "sig_content sdk_app_id user_id expire now =
     ''TLS.identifier:'' @ user_id @ [CHR 0x0A] @
     ''TLS.sdkappid:'' @ to_string sdk_app_id @ [CHR 0x0A] @
     ''TLS.time:'' @ to_string now @ [CHR 0x0A] @
     ''TLS.expire:'' @ to_string expire @ [CHR 0x0A]"

text \<open>A JSON key with its quotes and colon, as the source's literals spell it.\<close>

definition dq :: "string \<Rightarrow> string" where
  "dq s = [CHR 0x22] @ s @ [CHR 0x22]"

definition sig_doc :: "int \<Rightarrow> string \<Rightarrow> int \<Rightarrow> int \<Rightarrow> u8 list \<Rightarrow> string" where
  "sig_doc sdk_app_id user_id expire now sig =
     ''{'' @
     dq ''TLS.ver'' @ '':'' @ dq ''2.0'' @ '','' @
     dq ''TLS.identifier'' @ '':'' @ dq (JsonEscape user_id) @ '','' @
     dq ''TLS.sdkappid'' @ '':'' @ to_string sdk_app_id @ '','' @
     dq ''TLS.expire'' @ '':'' @ to_string expire @ '','' @
     dq ''TLS.time'' @ '':'' @ to_string now @ '','' @
     dq ''TLS.sig'' @ '':'' @ dq (Base64Encode sig) @
     ''}'' @ [CHR 0x0A]"

text \<open>\<open>junk\<close> is the content of the uninitialised buffer of the \<^verbatim>\<open>Sha256\<close> object.\<close>

definition GenUserSigAt ::
  "u8 list \<Rightarrow> compressor \<Rightarrow> int \<Rightarrow> string \<Rightarrow> string \<Rightarrow> int \<Rightarrow> int \<Rightarrow> string result" where
  "GenUserSigAt junk compress2 sdk_app_id key user_id expire now =
     bindE (throw_if (key = []) (invalid_param ''secret key is empty'')) (\<lambda>_.
     bindE (throw_if (user_id = []) (invalid_param ''user id is empty'')) (\<lambda>_.
     let content = sig_content sdk_app_id user_id expire now;
         sig = HmacSha256 junk (bytes_of key) (bytes_of content);
         doc = sig_doc sdk_app_id user_id expire now sig
     in bindE (ZlibCompress compress2 doc) (\<lambda>z. Inr (Base64UrlEncode z))))"

definition GenUserSig ::
  "u8 list \<Rightarrow> compressor \<Rightarrow> int \<Rightarrow> int \<Rightarrow> string \<Rightarrow> string \<Rightarrow> int \<Rightarrow> string result" where
  "GenUserSig junk compress2 now sdk_app_id key user_id expire =
     (let expire = (if expire \<le> 0 then kDefaultExpire else expire)
      in GenUserSigAt junk compress2 sdk_app_id key user_id expire now)"

section \<open>The verifier\<close>

text \<open>
  A JSON string reader (RFC 8259): the characters up to the closing quote, escapes
  undone, and the rest of the input.
\<close>

definition hex_value :: "char \<Rightarrow> nat option" where
  "hex_value c =
     (if is_digit c then Some (char_code c - 48)
      else if 97 \<le> char_code c \<and> char_code c \<le> 102 then Some (char_code c - 87)
      else None)"

definition simple_escape :: "char \<Rightarrow> char option" where
  "simple_escape e =
     (if e = CHR 0x22 \<or> e = CHR 0x5C \<or> e = CHR ''/'' then Some e
      else if e = CHR ''n'' then Some (CHR 0x0A)
      else if e = CHR ''r'' then Some (CHR 0x0D)
      else if e = CHR ''t'' then Some (CHR 0x09)
      else None)"

fun read_json_string :: "string \<Rightarrow> (string \<times> string) option" where
  "read_json_string [] = None"
| "read_json_string (c # s) =
     (if c = CHR 0x22 then Some ([], s)
      else if c = CHR 0x5C
      then (case s of
              [] \<Rightarrow> None
            | e # s' \<Rightarrow>
                (case simple_escape e of
                   Some d \<Rightarrow> map_option (apfst ((#) d)) (read_json_string s')
                 | None \<Rightarrow>
                     if e = CHR ''u'' \<and> 4 \<le> length s' \<and> take 2 s' = ''00''
                     then (case (hex_value (s' ! 2), hex_value (s' ! 3)) of
                             (Some h, Some l) \<Rightarrow>
                               map_option (apfst ((#) (char_of (16 * h + l))))
                                 (read_json_string (drop 4 s'))
                           | _ \<Rightarrow> None)
                     else None))
      else if char_code c < 0x20 then None
      else map_option (apfst ((#) c)) (read_json_string s))"

definition expect :: "string \<Rightarrow> string \<Rightarrow> string option" where
  "expect lit s = (if prefix lit s then Some (drop (length lit) s) else None)"

definition read_number :: "string \<Rightarrow> (int \<times> string) option" where
  "read_number s =
     (let d = takeWhile (\<lambda>c. is_digit c \<or> c = CHR ''-'') s
      in if d = [] then None else Some (int_of_string d, drop (length d) s))"

definition read_doc :: "string \<Rightarrow> (string \<times> int \<times> int \<times> int \<times> string) option" where
  "read_doc s =
     Option.bind (expect (''{'' @ dq ''TLS.ver'' @ '':'' @ dq ''2.0'' @ '','' @
       dq ''TLS.identifier'' @ '':'' @ [CHR 0x22]) s) (\<lambda>s.
     Option.bind (read_json_string s) (\<lambda>(ident, s).
     Option.bind (expect ('','' @ dq ''TLS.sdkappid'' @ '':'') s) (\<lambda>s.
     Option.bind (read_number s) (\<lambda>(appid, s).
     Option.bind (expect ('','' @ dq ''TLS.expire'' @ '':'') s) (\<lambda>s.
     Option.bind (read_number s) (\<lambda>(expire, s).
     Option.bind (expect ('','' @ dq ''TLS.time'' @ '':'') s) (\<lambda>s.
     Option.bind (read_number s) (\<lambda>(time, s).
     Option.bind (expect ('','' @ dq ''TLS.sig'' @ '':'' @ [CHR 0x22]) s) (\<lambda>s.
     Option.bind (read_json_string s) (\<lambda>(sig, s).
     if s = ''}'' @ [CHR 0x0A] then Some (ident, appid, expire, time, sig) else None))))))))))"

text \<open>Accepts a ticket and returns what it vouches for: identifier, application, expiry, time.\<close>

definition verify_usersig ::
  "(u8 list \<Rightarrow> u8 list option) \<Rightarrow> string \<Rightarrow> string \<Rightarrow> (string \<times> int \<times> int \<times> int) option" where
  "verify_usersig decompress key ticket =
     (case Base64UrlDecode ticket of
        Inl _ \<Rightarrow> None
      | Inr z \<Rightarrow>
          Option.bind (decompress z) (\<lambda>bs.
          Option.bind (read_doc (string_of bs)) (\<lambda>(ident, appid, expire, time, sig).
            if sig = Base64Encode (rfc2104_hmac fips_sha256 (bytes_of key)
                       (bytes_of (sig_content appid ident expire time)))
            then Some (ident, appid, expire, time) else None)))"

section \<open>Reading back what is written\<close>

lemma hex_value_hex_digit [simp]: "d < 16 \<Longrightarrow> hex_value (hex_digit d) = Some d"
  by (auto simp: hex_value_def hex_digit_def is_digit_def char_code_def of_char_of)

lemma char_of_char_code [simp]: "char_of (char_code c) = c"
  by (simp add: char_code_def)

lemma char_split_hex [simp]: "char_of (16 * (char_code c div 16) + char_code c mod 16) = c"
  by simp

text \<open>One escaped character is read back as the character it stands for.\<close>

lemma read_unicode_escape:
  "h < 16 \<Longrightarrow> l < 16 \<Longrightarrow>
   read_json_string (CHR 0x5C # CHR ''u'' # CHR ''0'' # CHR ''0'' # hex_digit h # hex_digit l # t) =
     map_option (apfst ((#) (char_of (16 * h + l)))) (read_json_string t)"
  by (subst read_json_string.simps) (simp add: simple_escape_def del: read_json_string.simps)

lemma read_simple_escape:
  "simple_escape e = Some d \<Longrightarrow>
   read_json_string (CHR 0x5C # e # t) = map_option (apfst ((#) d)) (read_json_string t)"
  by (subst read_json_string.simps) (simp del: read_json_string.simps)

lemma read_plain_char:
  "c \<noteq> CHR 0x22 \<Longrightarrow> c \<noteq> CHR 0x5C \<Longrightarrow> 0x20 \<le> char_code c \<Longrightarrow>
   read_json_string (c # t) = map_option (apfst ((#) c)) (read_json_string t)"
  by (subst read_json_string.simps) (simp del: read_json_string.simps)

lemma read_escape_char:
  "read_json_string (escape_char c @ t) = map_option (apfst ((#) c)) (read_json_string t)"
proof (cases "c \<in> {CHR 0x22, CHR 0x5C, CHR 0x0A, CHR 0x0D, CHR 0x09}")
  case True
  let ?e = "if c = CHR 0x0A then CHR ''n'' else if c = CHR 0x0D then CHR ''r''
            else if c = CHR 0x09 then CHR ''t'' else c"
  from True have "simple_escape ?e = Some c" and "escape_char c = [CHR 0x5C, ?e]"
    by (auto simp: simple_escape_def escape_char_def)
  then show ?thesis by (simp add: read_simple_escape del: read_json_string.simps)
next
  case plain: False
  show ?thesis
  proof (cases "char_code c < 0x20")
    case True
    then have "char_code c div 16 < 16" and "char_code c mod 16 < 16" by auto
    from read_unicode_escape [OF this, of t] plain True show ?thesis
      by (simp add: escape_char_def del: read_json_string.simps)
  next
    case False
    with plain show ?thesis by (simp add: escape_char_def read_plain_char del: read_json_string.simps)
  qed
qed

lemma read_JsonEscape: "read_json_string (JsonEscape s @ CHR 0x22 # t) = Some (s, t)"
  by (induction s) (simp_all add: read_escape_char del: read_json_string.simps(2), simp)

lemma JsonEscape_plain:
  "(\<And>c. c \<in> set s \<Longrightarrow> c \<noteq> CHR 0x22 \<and> c \<noteq> CHR 0x5C \<and> 0x20 \<le> char_code c) \<Longrightarrow> JsonEscape s = s"
proof (induction s)
  case (Cons c s)
  have c: "c \<noteq> CHR 0x22" "c \<noteq> CHR 0x5C" "0x20 \<le> char_code c" using Cons.prems [of c] by auto
  then have "escape_char c = [c]" by (auto simp: escape_char_def char_code_def)
  with Cons show ?case by auto
qed simp

lemma alphabet_plain:
  "list_all (\<lambda>c. c \<noteq> CHR 0x22 \<and> c \<noteq> CHR 0x5C \<and> 0x20 \<le> char_code c) (CHR ''='' # kB64Alphabet)"
  by code_simp

lemma JsonEscape_Base64 [simp]: "JsonEscape (Base64Encode bs) = Base64Encode bs"
proof (rule JsonEscape_plain)
  fix c assume "c \<in> set (Base64Encode bs)"
  with alphabet_plain Base64Encode_chars [of c bs]
  show "c \<noteq> CHR 0x22 \<and> c \<noteq> CHR 0x5C \<and> 0x20 \<le> char_code c"
    by (auto simp: list_all_iff)
qed

lemma read_Base64: "read_json_string (Base64Encode bs @ CHR 0x22 # t) = Some (Base64Encode bs, t)"
  using read_JsonEscape [of "Base64Encode bs" t] by simp

lemma expect_append [simp]: "expect lit (lit @ t) = Some t"
  by (simp add: expect_def)

lemma read_number_to_string:
  "t = [] \<or> \<not> is_digit (hd t) \<and> hd t \<noteq> CHR ''-'' \<Longrightarrow> read_number (to_string i @ t) = Some (i, t)"
proof -
  assume t: "t = [] \<or> \<not> is_digit (hd t) \<and> hd t \<noteq> CHR ''-''"
  then have "takeWhile (\<lambda>c. is_digit c \<or> c = CHR ''-'') (to_string i @ t) = to_string i"
    by (cases t) (auto simp: takeWhile_append dest: to_string_chars)
  then show ?thesis by (simp add: read_number_def Let_def)
qed

lemma comma_no_number: "\<not> is_digit (CHR '','')"
  by code_simp

lemma read_number_comma:
  "read_number (to_string i @ CHR '','' # t) = Some (i, CHR '','' # t)"
  by (rule read_number_to_string) (simp add: comma_no_number)

lemma read_doc_sig_doc:
  "read_doc (sig_doc appid ident expire time sig) = Some (ident, appid, expire, time, Base64Encode sig)"
  by (simp add: read_doc_def sig_doc_def dq_def expect_def read_JsonEscape read_Base64
      read_number_comma del: read_json_string.simps)

section \<open>The signed text\<close>

lemma last_separator_unique:
  assumes "x \<notin> set a" and "x \<notin> set b" and eq: "p @ x # a = q @ x # b"
  shows "p = q \<and> a = b"
  using assms by (auto simp: append_eq_append_conv2 Cons_eq_append_conv append_eq_Cons_conv)

lemma to_string_no_newline: "CHR 0x0A \<notin> set (to_string i)"
  by (auto dest!: to_string_chars simp: is_digit_def char_code_def)

text \<open>
  The signed text determines all four values, even for identifiers that contain line
  breaks or look like further fields: it is read from the end.
\<close>

lemma sig_content_inject:
  assumes "sig_content a u e t = sig_content a' u' e' t'"
  shows "a = a' \<and> u = u' \<and> e = e' \<and> t = t'"
proof -
  let ?f = "\<lambda>p l i. p @ CHR 0x0A # (l @ to_string i)"
  have shape: "sig_content a u e t =
      ''TLS.identifier:'' @ ?f (?f (?f u ''TLS.sdkappid:'' a) ''TLS.time:'' t) ''TLS.expire:'' e @ [CHR 0x0A]"
    for a u e t by (simp add: sig_content_def)
  have step: "?f p l i = ?f q l j \<Longrightarrow> CHR 0x0A \<notin> set l \<Longrightarrow> p = q \<and> i = j" for p q l i j
    using last_separator_unique [of "CHR 0x0A" "l @ to_string i" "l @ to_string j" p q]
    by (simp add: to_string_no_newline)
  have "?f (?f (?f u ''TLS.sdkappid:'' a) ''TLS.time:'' t) ''TLS.expire:'' e =
        ?f (?f (?f u' ''TLS.sdkappid:'' a') ''TLS.time:'' t') ''TLS.expire:'' e'"
    using assms unfolding shape by (simp only: append_same_eq same_append_eq)
  from step [OF this] have "e = e'" and
    2: "?f (?f u ''TLS.sdkappid:'' a) ''TLS.time:'' t = ?f (?f u' ''TLS.sdkappid:'' a') ''TLS.time:'' t'"
    by simp_all
  from step [OF 2] have "t = t'" and 3: "?f u ''TLS.sdkappid:'' a = ?f u' ''TLS.sdkappid:'' a'"
    by simp_all
  from step [OF 3] have "u = u' \<and> a = a'" by simp
  with \<open>e = e'\<close> \<open>t = t'\<close> show ?thesis by simp
qed

section \<open>What the ticket relies on in zlib\<close>

text \<open>
  The documented behaviour of \<^verbatim>\<open>compress2\<close> with a destination of \<^verbatim>\<open>compressBound\<close> bytes:
  it succeeds, and \<^verbatim>\<open>uncompress\<close> restores the input from its output.
\<close>

definition zlib_codec :: "compressor \<Rightarrow> (u8 list \<Rightarrow> u8 list option) \<Rightarrow> bool" where
  "zlib_codec compress2 decompress \<longleftrightarrow>
     (\<forall>d. fst (compress2 d) = Z_OK \<and> decompress (snd (compress2 d)) = Some d)"

lemma ZlibCompress_cases:
  "ZlibCompress compress2 s =
     (if fst (compress2 (bytes_of s)) = Z_OK then Inr (snd (compress2 (bytes_of s)))
      else Inl (invalid_param (''zlib compress failed: '' @ to_string (fst (compress2 (bytes_of s))))))"
  by (cases "compress2 (bytes_of s)") (simp add: ZlibCompress_def)

section \<open>Properties\<close>

text \<open>
  Claim C13. A ticket issued by \<^verbatim>\<open>GenUserSigAt\<close> is accepted by a verifier that holds the same
  key and vouches for exactly the identifier, application, expiry and time it was issued
  for, whatever characters the identifier contains, provided zlib restores what it
  compressed.
\<close>

theorem GenUserSigAt_verifies:
  assumes "length junk = 64" and "key \<noteq> []" and "user_id \<noteq> []"
    and "zlib_codec compress2 decompress"
  shows "\<exists>ticket. GenUserSigAt junk compress2 sdk_app_id key user_id expire now = Inr ticket \<and>
           verify_usersig decompress key ticket = Some (user_id, sdk_app_id, expire, now)"
proof -
  define doc where "doc = sig_doc sdk_app_id user_id expire now
    (HmacSha256 junk (bytes_of key) (bytes_of (sig_content sdk_app_id user_id expire now)))"
  let ?z = "snd (compress2 (bytes_of doc))"
  have "GenUserSigAt junk compress2 sdk_app_id key user_id expire now = Inr (Base64UrlEncode ?z)"
    using assms by (simp add: GenUserSigAt_def ZlibCompress_cases zlib_codec_def doc_def)
  moreover have "decompress ?z = Some (bytes_of doc)"
    using assms(4) by (simp add: zlib_codec_def)
  ultimately show ?thesis
    by (simp add: verify_usersig_def Base64UrlDecode_Encode doc_def read_doc_sig_doc
        HmacSha256_rfc2104 [OF assms(1)])
qed

text \<open>The hypotheses hold for a compressor that stores its input.\<close>

definition stored :: compressor where
  "stored d = (Z_OK, 0x78 # d)"

definition unstored :: "u8 list \<Rightarrow> u8 list option" where
  "unstored z = (case z of [] \<Rightarrow> None | h # d \<Rightarrow> if h = 0x78 then Some d else None)"

lemma stored_codec: "zlib_codec stored unstored"
  by (simp add: zlib_codec_def stored_def unstored_def)

theorem GenUserSigAt_verifies_witness:
  "zlib_codec stored unstored \<and>
   (\<exists>ticket. GenUserSigAt (replicate 64 0) stored 1400000000 ''k'' [CHR 0x22, CHR 0x0A] 86400 1700000000
       = Inr ticket \<and>
     verify_usersig unstored ''k'' ticket = Some ([CHR 0x22, CHR 0x0A], 1400000000, 86400, 1700000000))"
proof
  show "zlib_codec stored unstored" by (rule stored_codec)
  show "\<exists>ticket. GenUserSigAt (replicate 64 0) stored 1400000000 ''k'' [CHR 0x22, CHR 0x0A] 86400 1700000000
       = Inr ticket \<and>
     verify_usersig unstored ''k'' ticket = Some ([CHR 0x22, CHR 0x0A], 1400000000, 86400, 1700000000)"
    by (rule GenUserSigAt_verifies) (simp_all add: stored_codec)
qed

text \<open>
  Claim C36. The text that is signed is unambiguous: two tickets whose signed texts agree are
  for the same identifier, application, expiry and time, although identifiers may contain
  line breaks; and the escaped identifier in the document ends at its own closing quote,
  so an identifier cannot inject further fields.
\<close>

theorem sig_content_unambiguous:
  "(sig_content a u e t = sig_content a' u' e' t') = (a = a' \<and> u = u' \<and> e = e' \<and> t = t') \<and>
   read_json_string (JsonEscape u @ CHR 0x22 # rest) = Some (u, rest)"
  using sig_content_inject [of a u e t a' u' e' t'] read_JsonEscape [of u rest] by blast

text \<open>
  \<^verbatim>\<open>GenUserSig\<close> reports an empty key first, then an empty identifier, then a zlib
  failure with its status code, each as an invalid-parameter error and nothing else; a
  non-positive expiry stands for 180 days and any other expiry is used as given.
\<close>

lemma GenUserSig_outcome:
  "let expire' = (if expire \<le> 0 then 15552000 else expire);
       sig = HmacSha256 junk (bytes_of key) (bytes_of (sig_content sdk_app_id user_id expire' now));
       z = compress2 (bytes_of (sig_doc sdk_app_id user_id expire' now sig))
   in GenUserSig junk compress2 now sdk_app_id key user_id expire =
        (if key = [] then Inl (ASRError 1001 ''secret key is empty'')
         else if user_id = [] then Inl (ASRError 1001 ''user id is empty'')
         else if fst z \<noteq> 0
         then Inl (ASRError 1001 (''zlib compress failed: '' @ to_string (fst z)))
         else Inr (Base64UrlEncode (snd z)))"
  by (simp add: GenUserSig_def GenUserSigAt_def kDefaultExpire_def ZlibCompress_cases
      invalid_param_def kErrInvalidParam_def Z_OK_def Let_def)

end
