(* ===== verification/Double.thy ===== *)
theory Double
  imports Asr_Error Complex_Main
begin

text \<open>
  \<^verbatim>\<open>double\<close> values as the SDK uses them: comparison with constants, conversion from and to
  integers, and the two \<^verbatim>\<open>printf\<close> conversions \<^verbatim>\<open>%.3f\<close> and \<^verbatim>\<open>%g\<close>. A finite value is a
  sign and an exact rational magnitude, so that \<^verbatim>\<open>-0.0\<close> is a value of its own; every
  \<^verbatim>\<open>double\<close> is one of these.
\<close>

datatype dbl = NaN bool | Inf bool | Fin bool rat

abbreviation dbl_zero :: dbl where
  "dbl_zero \<equiv> Fin False 0"

definition dbl_val :: "bool \<Rightarrow> rat \<Rightarrow> rat" where
  "dbl_val neg r = (if neg then - r else r)"

text \<open>\<^verbatim>\<open>v >= lo && v <= hi\<close> for finite bounds: false for NaN and the infinities.\<close>

fun dbl_between :: "rat \<Rightarrow> rat \<Rightarrow> dbl \<Rightarrow> bool" where
  "dbl_between lo hi (NaN _) = False"
| "dbl_between lo hi (Inf _) = False"
| "dbl_between lo hi (Fin neg r) \<longleftrightarrow> lo \<le> dbl_val neg r \<and> dbl_val neg r \<le> hi"

definition round_half_even :: "rat \<Rightarrow> int" where
  "round_half_even x =
     (let f = \<lfloor>x\<rfloor>; d = x - of_int f
      in if d < 1 / 2 then f else if 1 / 2 < d then f + 1 else if even f then f else f + 1)"

text \<open>
  \<^verbatim>\<open>static_cast<double>\<close> of an integer: rounded to 53 significant bits, ties to even.
\<close>

fun bit_length :: "nat \<Rightarrow> nat" where
  "bit_length n = (if n = 0 then 0 else Suc (bit_length (n div 2)))"

declare bit_length.simps [simp del]

definition dbl_of_int :: "int \<Rightarrow> dbl" where
  "dbl_of_int i =
     (let n = nat \<bar>i\<bar>; k = bit_length n - 53
      in Fin (i < 0) (of_int (round_half_even (of_nat n / 2 ^ k)) * 2 ^ k))"

text \<open>
  \<^verbatim>\<open>static_cast<intN_t>\<close> of a \<^verbatim>\<open>double\<close>: truncation towards zero; undefined behaviour when
  the truncated value does not fit.
\<close>

definition int_of_dbl :: "nat \<Rightarrow> dbl \<Rightarrow> int result" where
  "int_of_dbl w d =
     (case d of
        Fin neg r \<Rightarrow>
          (let i = (if neg then - \<lfloor>r\<rfloor> else \<lfloor>r\<rfloor>)
           in if - (2 ^ (w - 1)) \<le> i \<and> i < 2 ^ (w - 1) then Inr i
              else Inl (Undefined ''float-cast-overflow''))
      | _ \<Rightarrow> Inl (Undefined ''float-cast-overflow''))"

section \<open>printf\<close>

fun zero_pad :: "nat \<Rightarrow> string \<Rightarrow> string" where
  "zero_pad w s = replicate (w - length s) (CHR ''0'') @ s"

definition sign_text :: "bool \<Rightarrow> string" where
  "sign_text neg = (if neg then ''-'' else [])"

text \<open>A scaled integer \<open>n\<close> printed with \<open>k\<close> digits after the point.\<close>

definition fixed_text :: "nat \<Rightarrow> nat \<Rightarrow> string" where
  "fixed_text k n =
     to_string_nat (n div 10 ^ k) @ (if k = 0 then [] else ''.'' @ zero_pad k (to_string_nat (n mod 10 ^ k)))"

fun fmt_f :: "nat \<Rightarrow> dbl \<Rightarrow> string" where
  "fmt_f k (NaN neg) = sign_text neg @ ''nan''"
| "fmt_f k (Inf neg) = sign_text neg @ ''inf''"
| "fmt_f k (Fin neg r) = sign_text neg @ fixed_text k (nat (round_half_even (r * 10 ^ k)))"

text \<open>
  \<^verbatim>\<open>%g\<close>: six significant digits, in positional notation when the decimal exponent of the
  rounded value is between -4 and 5 and in scientific notation otherwise, without
  trailing zeros. \<open>dec_exp\<close> is the decimal exponent of a positive magnitude, read off the
  number of digits of its integer part, or of its reciprocal for magnitudes below one.
\<close>

definition pow10 :: "int \<Rightarrow> rat" where
  "pow10 e = (if 0 \<le> e then 10 ^ nat e else 1 / 10 ^ nat (- e))"

definition dec_exp :: "rat \<Rightarrow> int" where
  "dec_exp r =
     (if 1 \<le> r then int (length (to_string_nat (nat \<lfloor>r\<rfloor>))) - 1
      else - int (length (to_string_nat (nat (\<lceil>1 / r\<rceil> - 1)))))"

definition sig_digits :: "rat \<Rightarrow> int \<times> nat" where
  "sig_digits r =
     (let e = dec_exp r; n = nat (round_half_even (r * pow10 (5 - e)))
      in if n = 1000000 then (e + 1, 100000) else (e, n))"

fun strip_zeros :: "string \<Rightarrow> string" where
  "strip_zeros s =
     (let t = rev (dropWhile (\<lambda>c. c = CHR ''0'') (rev s))
      in if t \<noteq> [] \<and> last t = CHR ''.'' then butlast t else t)"

definition exp_text :: "int \<Rightarrow> string" where
  "exp_text e = ''e'' @ (if e < 0 then ''-'' else ''+'') @ zero_pad 2 (to_string_nat (nat \<bar>e\<bar>))"

fun fmt_g :: "dbl \<Rightarrow> string" where
  "fmt_g (NaN neg) = sign_text neg @ ''nan''"
| "fmt_g (Inf neg) = sign_text neg @ ''inf''"
| "fmt_g (Fin neg r) =
     sign_text neg @
     (if r = 0 then ''0''
      else let (e, n) = sig_digits r
           in if - 4 \<le> e \<and> e < 6
              then (if e = 5 then to_string_nat n
                    else strip_zeros (fixed_text (nat (5 - e)) n))
              else strip_zeros (fixed_text 5 n) @ exp_text e)"

section \<open>Facts\<close>

lemma int_of_dbl_range:
  "int_of_dbl w d = Inr i \<Longrightarrow> - (2 ^ (w - 1)) \<le> i \<and> i < 2 ^ (w - 1)"
  by (auto simp: int_of_dbl_def Let_def split: dbl.splits if_splits)

lemma bit_length_le: "n < 2 ^ k \<Longrightarrow> bit_length n \<le> k"
proof (induction n arbitrary: k rule: bit_length.induct)
  case (1 n)
  show ?case
  proof (cases "n = 0")
    case True
    then show ?thesis by (simp add: bit_length.simps)
  next
    case False
    with "1.prems" obtain k' where k: "k = Suc k'" by (cases k) auto
    with "1.prems" have "n div 2 < 2 ^ k'" by auto
    with "1.IH" [OF False, of k'] False k show ?thesis by (simp add: bit_length.simps [of n])
  qed
qed

text \<open>Integers of up to 53 bits convert exactly.\<close>

lemma dbl_of_int_exact: "\<bar>i\<bar> < 2 ^ 53 \<Longrightarrow> dbl_of_int i = Fin (i < 0) (of_int \<bar>i\<bar>)"
proof -
  assume "\<bar>i\<bar> < 2 ^ 53"
  then have "nat \<bar>i\<bar> < 2 ^ 53" by simp
  then have "bit_length (nat \<bar>i\<bar>) - 53 = 0" using bit_length_le [of "nat \<bar>i\<bar>" 53] by simp
  moreover have "round_half_even (of_nat (nat \<bar>i\<bar>)) = \<bar>i\<bar>"
  proof -
    have "(of_nat (nat \<bar>i\<bar>) :: rat) = of_int \<bar>i\<bar>" by simp
    then show ?thesis by (simp only: round_half_even_def floor_of_int Let_def) simp
  qed
  ultimately show ?thesis by (simp add: dbl_of_int_def Let_def)
qed

text \<open>Rounding is within one half, so a printed decimal is within half a unit of its last digit.\<close>

lemma round_half_even_near: "\<bar>of_int (round_half_even x) - x\<bar> \<le> 1 / 2"
proof -
  define f where "f = \<lfloor>x\<rfloor>"
  have "of_int f \<le> x" and "x < of_int f + 1" using floor_correct [of x] by (auto simp: f_def)
  then show ?thesis unfolding round_half_even_def Let_def f_def [symmetric]
    by (auto simp: abs_if)
qed

end
