(* ===== verification/Json.thy ===== *)
theory Json
  imports Double
begin

text \<open>
  The part of the vendored \<^verbatim>\<open>nlohmann::json\<close> the SDK calls: values, \<^verbatim>\<open>type_name\<close>,
  \<^verbatim>\<open>contains\<close>, \<^verbatim>\<open>find\<close>, the conversions \<^verbatim>\<open>get<T>\<close> and \<^verbatim>\<open>value(key, default)\<close> with their
  exceptions, and the SDK's own helpers of \<^verbatim>\<open>src/json_helper.h\<close>. Objects are sorted maps,
  as \<^verbatim>\<open>nlohmann::json\<close> keeps them. The text format itself (\<^verbatim>\<open>parse\<close>, \<^verbatim>\<open>dump\<close>) is a
  parameter, the record \<open>json_lib\<close>; what is assumed of it is \<open>json_lib_ok\<close>.
\<close>

datatype json =
    JNull
  | JBool bool
  | JInt int
  | JFloat dbl
  | JStr string
  | JArr "json list"
  | JObj "(string \<times> json) list"

fun type_name :: "json \<Rightarrow> string" where
  "type_name JNull = ''null''"
| "type_name (JBool _) = ''boolean''"
| "type_name (JInt _) = ''number''"
| "type_name (JFloat _) = ''number''"
| "type_name (JStr _) = ''string''"
| "type_name (JArr _) = ''array''"
| "type_name (JObj _) = ''object''"

definition type_error :: "int \<Rightarrow> string \<Rightarrow> exn" where
  "type_error eid what_arg =
     StdException (''[json.exception.type_error.'' @ to_string eid @ ''] '' @ what_arg)"

fun is_object :: "json \<Rightarrow> bool" where
  "is_object (JObj _) = True"
| "is_object _ = False"

fun is_array :: "json \<Rightarrow> bool" where
  "is_array (JArr _) = True"
| "is_array _ = False"

fun is_string :: "json \<Rightarrow> bool" where
  "is_string (JStr _) = True"
| "is_string _ = False"

fun is_number :: "json \<Rightarrow> bool" where
  "is_number (JInt _) = True"
| "is_number (JFloat _) = True"
| "is_number _ = False"

text \<open>\<^verbatim>\<open>find(key)\<close>, \<^verbatim>\<open>end()\<close> as None; a value that is not an object has no keys.\<close>

fun jfind :: "json \<Rightarrow> string \<Rightarrow> json option" where
  "jfind (JObj m) k = mget m k"
| "jfind _ k = None"

definition jcontains :: "json \<Rightarrow> string \<Rightarrow> bool" where
  "jcontains j k \<longleftrightarrow> jfind j k \<noteq> None"

text \<open>\<^verbatim>\<open>if (j.contains(k) && j[k].is_x()) { ... j[k] ... }\<close>: the guarded member.\<close>

definition jmember :: "(json \<Rightarrow> bool) \<Rightarrow> json \<Rightarrow> string \<Rightarrow> json option" where
  "jmember is_x j k = (case jfind j k of Some v \<Rightarrow> if is_x v then Some v else None | None \<Rightarrow> None)"

text \<open>The elements a range-for visits.\<close>

fun elements :: "json \<Rightarrow> json list" where
  "elements (JArr xs) = xs"
| "elements _ = []"

section \<open>Conversions\<close>

fun get_str :: "json \<Rightarrow> string result" where
  "get_str (JStr s) = Inr s"
| "get_str j = Inl (type_error 302 (''type must be string, but is '' @ type_name j))"

text \<open>
  \<^verbatim>\<open>get<int>\<close> goes through the overload for other arithmetic types: booleans are accepted
  and 64-bit integers are narrowed. \<^verbatim>\<open>get<int64_t>\<close> and \<^verbatim>\<open>get<double>\<close> are the library's own
  number types and reject booleans.
\<close>

fun get_i32 :: "json \<Rightarrow> int result" where
  "get_i32 (JInt i) = Inr (signed_take_bit 31 i)"
| "get_i32 (JFloat d) = int_of_dbl 32 d"
| "get_i32 (JBool b) = Inr (of_bool b)"
| "get_i32 j = Inl (type_error 302 (''type must be number, but is '' @ type_name j))"

fun get_i64 :: "json \<Rightarrow> int result" where
  "get_i64 (JInt i) = Inr (signed_take_bit 63 i)"
| "get_i64 (JFloat d) = int_of_dbl 64 d"
| "get_i64 j = Inl (type_error 302 (''type must be number, but is '' @ type_name j))"

fun get_f64 :: "json \<Rightarrow> dbl result" where
  "get_f64 (JInt i) = Inr (dbl_of_int i)"
| "get_f64 (JFloat d) = Inr d"
| "get_f64 j = Inl (type_error 302 (''type must be number, but is '' @ type_name j))"

definition jvalue :: "(json \<Rightarrow> 'a result) \<Rightarrow> json \<Rightarrow> string \<Rightarrow> 'a \<Rightarrow> 'a result" where
  "jvalue get j k d =
     (if is_object j then (case jfind j k of Some v \<Rightarrow> get v | None \<Rightarrow> Inr d)
      else Inl (type_error 306 (''cannot use value() with '' @ type_name j)))"

abbreviation value_str :: "json \<Rightarrow> string \<Rightarrow> string result" where
  "value_str j k \<equiv> jvalue get_str j k []"

abbreviation value_i32 :: "json \<Rightarrow> string \<Rightarrow> int result" where
  "value_i32 j k \<equiv> jvalue get_i32 j k 0"

abbreviation value_i64 :: "json \<Rightarrow> string \<Rightarrow> int result" where
  "value_i64 j k \<equiv> jvalue get_i64 j k 0"

abbreviation value_f64 :: "json \<Rightarrow> string \<Rightarrow> dbl result" where
  "value_f64 j k \<equiv> jvalue get_f64 j k dbl_zero"

text \<open>\<^verbatim>\<open>if (j.contains(k) && j[k].is_number()) out = j[k].get<int>();\<close>\<close>

definition opt_i32 :: "json \<Rightarrow> string \<Rightarrow> int option result" where
  "opt_i32 j k =
     (case jmember is_number j k of None \<Rightarrow> Inr None | Some v \<Rightarrow> bindE (get_i32 v) (\<lambda>i. Inr (Some i)))"

definition StringFieldOrEmpty :: "json \<Rightarrow> string \<Rightarrow> string" where
  "StringFieldOrEmpty obj key =
     (case jfind obj key of None \<Rightarrow> [] | Some (JStr s) \<Rightarrow> s | Some _ \<Rightarrow> [])"

section \<open>The text format\<close>

record json_lib =
  jl_parse :: "string \<Rightarrow> json result"
  jl_dump :: "json \<Rightarrow> string result"

fun json_wf :: "json \<Rightarrow> bool" where
  "json_wf (JArr xs) = list_all json_wf xs"
| "json_wf (JObj m) = (mwf m \<and> list_all (\<lambda>p. json_wf (snd p)) m)"
| "json_wf (JFloat d) = (case d of Fin _ _ \<Rightarrow> True | _ \<Rightarrow> False)"
| "json_wf _ = True"

text \<open>
  Documented behaviour of the library: \<^verbatim>\<open>parse\<close> and \<^verbatim>\<open>dump\<close> throw exceptions derived from
  \<^verbatim>\<open>std::exception\<close> only (a parse error, or invalid UTF-8 in a string to be printed), and
  parsing what \<^verbatim>\<open>dump\<close> printed gives the value back when it has no NaN or infinity.
\<close>

definition json_lib_ok :: "json_lib \<Rightarrow> bool" where
  "json_lib_ok jl \<longleftrightarrow>
     (\<forall>s e. jl_parse jl s = Inl e \<longrightarrow> (\<exists>w. e = StdException w)) \<and>
     (\<forall>j e. jl_dump jl j = Inl e \<longrightarrow> (\<exists>w. e = StdException w)) \<and>
     (\<forall>j s. json_wf j \<longrightarrow> jl_dump jl j = Inr s \<longrightarrow> jl_parse jl s = Inr j)"

section \<open>Lemmas\<close>

lemma jvalue_obj [simp, wire_defs]:
  "jvalue get (JObj m) k d = (case mget m k of Some v \<Rightarrow> get v | None \<Rightarrow> Inr d)"
  by (simp add: jvalue_def)

lemma jmember_obj [simp, wire_defs]:
  "jmember P (JObj m) k = (case mget m k of Some v \<Rightarrow> if P v then Some v else None | None \<Rightarrow> None)"
  by (simp add: jmember_def)

definition in_i32 :: "int \<Rightarrow> bool" where
  "in_i32 i \<longleftrightarrow> - (2 ^ 31) \<le> i \<and> i < 2 ^ 31"

definition in_i64 :: "int \<Rightarrow> bool" where
  "in_i64 i \<longleftrightarrow> - (2 ^ 63) \<le> i \<and> i < 2 ^ 63"

lemma signed_take_bit_in_i32 [simp]: "in_i32 i \<Longrightarrow> signed_take_bit 31 i = i"
  by (rule signed_take_bit_int_eq_self) (auto simp: in_i32_def)

lemma signed_take_bit_in_i64 [simp]: "in_i64 i \<Longrightarrow> signed_take_bit 63 i = i"
  by (rule signed_take_bit_int_eq_self) (auto simp: in_i64_def)

lemma get_i32_bounds: "get_i32 j = Inr i \<Longrightarrow> in_i32 i"
proof (cases j)
  case (JFloat d)
  then show "get_i32 j = Inr i \<Longrightarrow> ?thesis"
    using int_of_dbl_range [of 32 d i] by (simp add: in_i32_def)
next
  case (JBool b)
  then show "get_i32 j = Inr i \<Longrightarrow> ?thesis" by (cases b) (auto simp: in_i32_def)
qed (auto simp: in_i32_def signed_take_bit_int_less_exp signed_take_bit_int_greater_eq_minus_exp
      simp flip: power_numeral)

text \<open>
  The only conversion with undefined behaviour is from a floating-point number that does
  not fit. A value is safe for the 32-bit readers when no number in it is of that kind.
\<close>

definition dbl_fits :: "dbl \<Rightarrow> bool" where
  "dbl_fits d = (case int_of_dbl 32 d of Inr _ \<Rightarrow> True | Inl _ \<Rightarrow> False)"

fun json_safe :: "json \<Rightarrow> bool" where
  "json_safe (JFloat d) = dbl_fits d"
| "json_safe (JArr xs) = list_all json_safe xs"
| "json_safe (JObj m) = list_all (\<lambda>p. json_safe (snd p)) m"
| "json_safe _ = True"

lemma dbl_fits_i32 [simp]: "dbl_fits d \<Longrightarrow> \<exists>i. int_of_dbl 32 d = Inr i"
  by (auto simp: dbl_fits_def split: sum.splits)

lemma dbl_fits_i64: "dbl_fits d \<Longrightarrow> \<exists>i. int_of_dbl 64 d = Inr i"
  by (auto simp: dbl_fits_def int_of_dbl_def Let_def split: sum.splits dbl.splits if_splits)

lemma get_str_defined [simp]: "no_undefined (get_str j)"
  by (cases j) (simp_all add: type_error_def)

lemma get_f64_defined [simp]: "no_undefined (get_f64 j)"
  by (cases j) (simp_all add: type_error_def)

lemma get_i32_defined: "json_safe j \<Longrightarrow> no_undefined (get_i32 j)"
  by (cases j) (auto simp: type_error_def dest!: dbl_fits_i32)

lemma get_i64_defined: "json_safe j \<Longrightarrow> no_undefined (get_i64 j)"
  by (cases j) (auto simp: type_error_def dest!: dbl_fits_i64)

lemma json_safe_jfind: "json_safe j \<Longrightarrow> jfind j k = Some v \<Longrightarrow> json_safe v"
  by (cases j) (auto simp: list_all_iff dest!: map_of_SomeD)

lemma json_safe_jmember: "json_safe j \<Longrightarrow> jmember P j k = Some v \<Longrightarrow> json_safe v"
  by (auto simp: jmember_def dest: json_safe_jfind split: option.splits if_splits)

lemma json_safe_elements: "json_safe j \<Longrightarrow> x \<in> set (elements j) \<Longrightarrow> json_safe x"
  by (cases j) (auto simp: list_all_iff)

lemma jvalue_defined:
  assumes "\<And>v. json_safe v \<Longrightarrow> no_undefined (get v)" and "json_safe j"
  shows "no_undefined (jvalue get j k d)"
  using assms json_safe_jfind [of j k] by (auto simp: jvalue_def type_error_def split: option.split)

lemma opt_i32_defined: "json_safe j \<Longrightarrow> no_undefined (opt_i32 j k)"
  unfolding opt_i32_def
  by (auto split: option.split intro!: no_undefined_bindE get_i32_defined dest: json_safe_jmember)

lemmas values_defined = jvalue_defined [OF get_i32_defined] jvalue_defined [OF get_i64_defined]
  jvalue_defined [OF get_str_defined] jvalue_defined [OF get_f64_defined] opt_i32_defined

lemma StringFieldOrEmpty_cases:
  "StringFieldOrEmpty j k = (case jmember is_string j k of Some v \<Rightarrow> projr (get_str v) | None \<Rightarrow> [])"
  by (auto simp: StringFieldOrEmpty_def jmember_def split: option.split json.split)

end
