(* ===== verification/Responses.thy ===== *)
theory Responses
  imports Json
begin

text \<open>
  Messages of the realtime protocol: the structs of \<^verbatim>\<open>include/trtc_asr/types.h\<close> and the
  reader of \<^verbatim>\<open>src/types.cc\<close>. The writer \<open>response_json\<close> is the protocol's side, one
  member per field; it states what the reader has to recover.
\<close>

record WordInfo =
  wi_word :: string
  wi_start_time :: int
  wi_end_time :: int
  wi_stable_flag :: int
  wi_speaker_id :: int
  wi_speaker_name :: string

record SpeakerSegment =
  ss_speaker_id :: int
  ss_speaker_name :: string
  ss_start_time :: int
  ss_end_time :: int
  ss_text :: string
  ss_word_start :: "int option"
  ss_word_end :: "int option"
  ss_stable_flag :: int

record RecognitionResult =
  rr_slice_type :: int
  rr_index :: int
  rr_start_time :: int
  rr_end_time :: int
  rr_voice_text_str :: string
  rr_word_size :: int
  rr_word_list :: "WordInfo list"
  rr_language :: string
  rr_speaker_segments :: "SpeakerSegment list"
  rr_speaker_id :: "int option"
  rr_finish_silence_ms :: int
  rr_last_token_runtime_ms :: int

record SpeakerContinue =
  sc_continue_status :: string
  sc_speaker_context_id :: string

record SpeechRecognitionResponse =
  sr_code :: int
  sr_message :: string
  sr_voice_id :: string
  sr_message_id :: string
  sr_final_flag :: int
  sr_result :: RecognitionResult
  sr_has_result :: bool
  sr_speaker_continue :: "SpeakerContinue option"

text \<open>A default-constructed result.\<close>

definition RecognitionResult_default :: RecognitionResult where
  "RecognitionResult_default =
     \<lparr> rr_slice_type = 0, rr_index = 0, rr_start_time = 0, rr_end_time = 0, rr_voice_text_str = [],
       rr_word_size = 0, rr_word_list = [], rr_language = [], rr_speaker_segments = [],
       rr_speaker_id = None, rr_finish_silence_ms = 0, rr_last_token_runtime_ms = 0 \<rparr>"

section \<open>The reader\<close>

definition ParseWordInfo :: "json \<Rightarrow> WordInfo result" where
  "ParseWordInfo j =
     bindE (value_str j ''word'') (\<lambda>word.
     bindE (value_i64 j ''start_time'') (\<lambda>start_time.
     bindE (value_i64 j ''end_time'') (\<lambda>end_time.
     bindE (value_i32 j ''stable_flag'') (\<lambda>stable_flag.
     bindE (value_i32 j ''speaker_id'') (\<lambda>speaker_id.
     bindE (value_str j ''speaker_name'') (\<lambda>speaker_name.
     Inr \<lparr> wi_word = word, wi_start_time = start_time, wi_end_time = end_time,
           wi_stable_flag = stable_flag, wi_speaker_id = speaker_id,
           wi_speaker_name = speaker_name \<rparr>))))))"

definition ParseSpeakerSegment :: "json \<Rightarrow> SpeakerSegment result" where
  "ParseSpeakerSegment j =
     bindE (value_i32 j ''speaker_id'') (\<lambda>speaker_id.
     bindE (value_str j ''speaker_name'') (\<lambda>speaker_name.
     bindE (value_i64 j ''start_time'') (\<lambda>start_time.
     bindE (value_i64 j ''end_time'') (\<lambda>end_time.
     bindE (value_str j ''text'') (\<lambda>text.
     bindE (opt_i32 j ''word_start'') (\<lambda>word_start.
     bindE (opt_i32 j ''word_end'') (\<lambda>word_end.
     bindE (value_i32 j ''stable_flag'') (\<lambda>stable_flag.
     Inr \<lparr> ss_speaker_id = speaker_id, ss_speaker_name = speaker_name,
           ss_start_time = start_time, ss_end_time = end_time, ss_text = text,
           ss_word_start = word_start, ss_word_end = word_end,
           ss_stable_flag = stable_flag \<rparr>))))))))"

text \<open>The optional \<^verbatim>\<open>speaker_continue\<close> object.\<close>

definition ParseSpeakerContinue :: "json \<Rightarrow> SpeakerContinue option result" where
  "ParseSpeakerContinue j =
     (case jmember is_object j ''speaker_continue'' of
        None \<Rightarrow> Inr None
      | Some sc \<Rightarrow>
          bindE (value_str sc ''continue_status'') (\<lambda>status.
          bindE (value_str sc ''speaker_context_id'') (\<lambda>cid.
          Inr (Some \<lparr> sc_continue_status = status, sc_speaker_context_id = cid \<rparr>))))"

text \<open>The body of \<^verbatim>\<open>if (j.contains("result") && j["result"].is_object())\<close>.\<close>

definition ParseResultObject :: "json \<Rightarrow> RecognitionResult result" where
  "ParseResultObject r =
     bindE (value_i32 r ''slice_type'') (\<lambda>slice_type.
     bindE (value_i32 r ''index'') (\<lambda>index.
     bindE (value_i64 r ''start_time'') (\<lambda>start_time.
     bindE (value_i64 r ''end_time'') (\<lambda>end_time.
     bindE (value_str r ''voice_text_str'') (\<lambda>voice_text_str.
     bindE (value_i32 r ''word_size'') (\<lambda>word_size.
     bindE (value_str r ''language'') (\<lambda>language.
     bindE (value_i64 r ''finish_silence_ms'') (\<lambda>finish_silence_ms.
     bindE (value_i64 r ''last_token_runtime_ms'') (\<lambda>last_token_runtime_ms.
     bindE (opt_i32 r ''speaker_id'') (\<lambda>speaker_id.
     bindE (case jmember is_array r ''word_list'' of
              None \<Rightarrow> Inr [] | Some a \<Rightarrow> mapE ParseWordInfo (elements a)) (\<lambda>word_list.
     bindE (case jmember is_array r ''speaker_segments'' of
              None \<Rightarrow> Inr [] | Some a \<Rightarrow> mapE ParseSpeakerSegment (elements a)) (\<lambda>segments.
     Inr \<lparr> rr_slice_type = slice_type, rr_index = index, rr_start_time = start_time,
           rr_end_time = end_time, rr_voice_text_str = voice_text_str, rr_word_size = word_size,
           rr_word_list = word_list, rr_language = language, rr_speaker_segments = segments,
           rr_speaker_id = speaker_id, rr_finish_silence_ms = finish_silence_ms,
           rr_last_token_runtime_ms = last_token_runtime_ms \<rparr>))))))))))))"

definition ParseSpeechResponseInner :: "json \<Rightarrow> SpeechRecognitionResponse result" where
  "ParseSpeechResponseInner j =
     bindE (value_i32 j ''code'') (\<lambda>code.
     bindE (value_str j ''message'') (\<lambda>message.
     bindE (value_str j ''voice_id'') (\<lambda>voice_id.
     bindE (value_str j ''message_id'') (\<lambda>message_id.
     bindE (value_i32 j ''final'') (\<lambda>final_flag.
     bindE (ParseSpeakerContinue j) (\<lambda>speaker_continue.
     bindE (case jmember is_object j ''result'' of
              None \<Rightarrow> Inr (False, RecognitionResult_default)
            | Some r \<Rightarrow> bindE (ParseResultObject r) (\<lambda>res. Inr (True, res))) (\<lambda>(has_result, res).
     Inr \<lparr> sr_code = code, sr_message = message, sr_voice_id = voice_id,
           sr_message_id = message_id, sr_final_flag = final_flag, sr_result = res,
           sr_has_result = has_result, sr_speaker_continue = speaker_continue \<rparr>)))))))"

definition ParseSpeechResponse :: "json_lib \<Rightarrow> string \<Rightarrow> SpeechRecognitionResponse result" where
  "ParseSpeechResponse jl text =
     bindE (rethrow_as kErrReadFailed ''unmarshal response failed: '' (jl_parse jl text)) (\<lambda>j.
     rethrow_as kErrReadFailed ''unmarshal response failed: '' (ParseSpeechResponseInner j))"

section \<open>The writer of the protocol\<close>

definition opt_member :: "string \<Rightarrow> ('a \<Rightarrow> json) \<Rightarrow> 'a option \<Rightarrow> (string \<times> json) list" where
  "opt_member k f v = (case v of None \<Rightarrow> [] | Some x \<Rightarrow> [(k, f x)])"

definition word_json :: "WordInfo \<Rightarrow> json" where
  "word_json w = JObj [
     (''end_time'', JInt (wi_end_time w)), (''speaker_id'', JInt (wi_speaker_id w)),
     (''speaker_name'', JStr (wi_speaker_name w)), (''stable_flag'', JInt (wi_stable_flag w)),
     (''start_time'', JInt (wi_start_time w)), (''word'', JStr (wi_word w))]"

definition segment_json :: "SpeakerSegment \<Rightarrow> json" where
  "segment_json s = JObj ([
     (''end_time'', JInt (ss_end_time s)), (''speaker_id'', JInt (ss_speaker_id s)),
     (''speaker_name'', JStr (ss_speaker_name s)), (''stable_flag'', JInt (ss_stable_flag s)),
     (''start_time'', JInt (ss_start_time s)), (''text'', JStr (ss_text s))] @
     opt_member ''word_end'' JInt (ss_word_end s) @ opt_member ''word_start'' JInt (ss_word_start s))"

definition result_json :: "RecognitionResult \<Rightarrow> json" where
  "result_json r = JObj ([
     (''end_time'', JInt (rr_end_time r)), (''finish_silence_ms'', JInt (rr_finish_silence_ms r)),
     (''index'', JInt (rr_index r)), (''language'', JStr (rr_language r)),
     (''last_token_runtime_ms'', JInt (rr_last_token_runtime_ms r)),
     (''slice_type'', JInt (rr_slice_type r))] @
     opt_member ''speaker_id'' JInt (rr_speaker_id r) @
     [(''speaker_segments'', JArr (map segment_json (rr_speaker_segments r))),
      (''start_time'', JInt (rr_start_time r)), (''voice_text_str'', JStr (rr_voice_text_str r)),
      (''word_list'', JArr (map word_json (rr_word_list r))),
      (''word_size'', JInt (rr_word_size r))])"

definition continue_json :: "SpeakerContinue \<Rightarrow> json" where
  "continue_json c = JObj [(''continue_status'', JStr (sc_continue_status c)),
     (''speaker_context_id'', JStr (sc_speaker_context_id c))]"

definition response_json :: "SpeechRecognitionResponse \<Rightarrow> json" where
  "response_json r = JObj ([
     (''code'', JInt (sr_code r)), (''final'', JInt (sr_final_flag r)),
     (''message'', JStr (sr_message r)), (''message_id'', JStr (sr_message_id r))] @
     (if sr_has_result r then [(''result'', result_json (sr_result r))] else []) @
     opt_member ''speaker_continue'' continue_json (sr_speaker_continue r) @
     [(''voice_id'', JStr (sr_voice_id r))])"

text \<open>Every integer of a response fits the field of the C++ struct it is read into.\<close>

definition word_ok :: "WordInfo \<Rightarrow> bool" where
  "word_ok w \<longleftrightarrow> in_i64 (wi_start_time w) \<and> in_i64 (wi_end_time w) \<and>
     in_i32 (wi_stable_flag w) \<and> in_i32 (wi_speaker_id w)"

definition segment_ok :: "SpeakerSegment \<Rightarrow> bool" where
  "segment_ok s \<longleftrightarrow> in_i32 (ss_speaker_id s) \<and> in_i64 (ss_start_time s) \<and> in_i64 (ss_end_time s) \<and>
     in_i32 (ss_stable_flag s) \<and> pred_option in_i32 (ss_word_start s) \<and>
     pred_option in_i32 (ss_word_end s)"

definition result_ok :: "RecognitionResult \<Rightarrow> bool" where
  "result_ok r \<longleftrightarrow> in_i32 (rr_slice_type r) \<and> in_i32 (rr_index r) \<and> in_i64 (rr_start_time r) \<and>
     in_i64 (rr_end_time r) \<and> in_i32 (rr_word_size r) \<and> pred_option in_i32 (rr_speaker_id r) \<and>
     in_i64 (rr_finish_silence_ms r) \<and> in_i64 (rr_last_token_runtime_ms r) \<and>
     list_all word_ok (rr_word_list r) \<and> list_all segment_ok (rr_speaker_segments r)"

definition response_ok :: "SpeechRecognitionResponse \<Rightarrow> bool" where
  "response_ok r \<longleftrightarrow> in_i32 (sr_code r) \<and> in_i32 (sr_final_flag r) \<and>
     (if sr_has_result r then result_ok (sr_result r) else sr_result r = RecognitionResult_default)"

section \<open>The reader inverts the writer\<close>

lemma mapE_inverse: "(\<And>x. x \<in> set xs \<Longrightarrow> f (g x) = Inr x) \<Longrightarrow> mapE f (map g xs) = Inr xs"
  by (induction xs) auto

lemma ParseWordInfo_word_json: "word_ok w \<Longrightarrow> ParseWordInfo (word_json w) = Inr w"
  by (cases w) (simp add: ParseWordInfo_def word_json_def word_ok_def)

lemma ParseSpeakerSegment_segment_json: "segment_ok s \<Longrightarrow> ParseSpeakerSegment (segment_json s) = Inr s"
  by (cases s)
    (auto simp: ParseSpeakerSegment_def segment_json_def segment_ok_def opt_member_def opt_i32_def
      split: option.split)

lemma ParseResultObject_result_json:
  assumes "result_ok r"
  shows "ParseResultObject (result_json r) = Inr r"
proof -
  have "mapE ParseWordInfo (map word_json (rr_word_list r)) = Inr (rr_word_list r)"
    using assms by (intro mapE_inverse ParseWordInfo_word_json) (auto simp: result_ok_def list_all_iff)
  moreover have "mapE ParseSpeakerSegment (map segment_json (rr_speaker_segments r)) =
      Inr (rr_speaker_segments r)"
    using assms
    by (intro mapE_inverse ParseSpeakerSegment_segment_json) (auto simp: result_ok_def list_all_iff)
  ultimately show ?thesis
    using assms
    by (cases r)
      (auto simp: ParseResultObject_def result_json_def result_ok_def opt_member_def opt_i32_def
        split: option.split)
qed

lemma is_object_result_json [simp]: "is_object (result_json r)" "is_object (continue_json c)"
  by (simp_all add: result_json_def continue_json_def)

lemma ParseSpeechResponseInner_response_json:
  assumes "response_ok r"
  shows "ParseSpeechResponseInner (response_json r) = Inr r"
proof -
  have "ParseSpeakerContinue (response_json r) = Inr (sr_speaker_continue r)"
    by (cases "sr_speaker_continue r")
      (simp_all add: ParseSpeakerContinue_def response_json_def opt_member_def continue_json_def)
  moreover have "sr_has_result r \<Longrightarrow> ParseResultObject (result_json (sr_result r)) = Inr (sr_result r)"
    using assms by (intro ParseResultObject_result_json) (simp add: response_ok_def)
  ultimately show ?thesis
    using assms
    by (cases "sr_speaker_continue r"; cases r)
      (auto simp: ParseSpeechResponseInner_def response_ok_def response_json_def opt_member_def
        split: if_splits)
qed

section \<open>The reader is defined on safe input\<close>

lemma ParseWordInfo_defined: "json_safe j \<Longrightarrow> no_undefined (ParseWordInfo j)"
  unfolding ParseWordInfo_def by (intro no_undefined_bindE values_defined) auto

lemma ParseSpeakerSegment_defined: "json_safe j \<Longrightarrow> no_undefined (ParseSpeakerSegment j)"
  unfolding ParseSpeakerSegment_def by (intro no_undefined_bindE values_defined) auto

lemma ParseSpeakerContinue_defined: "json_safe j \<Longrightarrow> no_undefined (ParseSpeakerContinue j)"
  unfolding ParseSpeakerContinue_def
  by (auto split: option.split intro!: no_undefined_bindE values_defined dest: json_safe_jmember)

lemma array_member_defined:
  assumes "json_safe j" and "\<And>x. json_safe x \<Longrightarrow> no_undefined (f x)"
  shows "no_undefined (case jmember is_array j k of None \<Rightarrow> Inr [] | Some a \<Rightarrow> mapE f (elements a))"
  using assms
  by (auto split: option.split intro!: no_undefined_mapE dest: json_safe_jmember json_safe_elements)

lemma ParseResultObject_defined: "json_safe j \<Longrightarrow> no_undefined (ParseResultObject j)"
  unfolding ParseResultObject_def
  by (intro no_undefined_bindE values_defined array_member_defined ParseWordInfo_defined
      ParseSpeakerSegment_defined) auto

lemma ParseSpeechResponseInner_defined:
  assumes "json_safe j"
  shows "no_undefined (ParseSpeechResponseInner j)"
proof -
  have "no_undefined (case jmember is_object j ''result'' of
      None \<Rightarrow> Inr (False, RecognitionResult_default)
    | Some r \<Rightarrow> bindE (ParseResultObject r) (\<lambda>res. Inr (True, res)))"
    using assms
    by (auto split: option.split intro!: no_undefined_bindE ParseResultObject_defined
        dest: json_safe_jmember)
  with assms show ?thesis
    unfolding ParseSpeechResponseInner_def
    by (intro no_undefined_bindE values_defined ParseSpeakerContinue_defined) auto
qed

section \<open>Properties\<close>

lemma word_json_wf: "json_wf (word_json w)"
  by (simp add: word_json_def mwf_def)

lemma segment_json_wf: "json_wf (segment_json s)"
  by (cases "ss_word_start s"; cases "ss_word_end s")
    (simp_all add: segment_json_def opt_member_def mwf_def)

lemma result_json_wf: "json_wf (result_json r)"
  by (cases "rr_speaker_id r")
    (simp_all add: result_json_def opt_member_def mwf_def list_all_iff word_json_wf segment_json_wf)

lemma response_json_wf: "json_wf (response_json r)"
  by (cases "sr_speaker_continue r"; cases "sr_has_result r")
    (simp_all add: response_json_def opt_member_def mwf_def continue_json_def result_json_wf)

text \<open>
  Claim C24. Any response the service sends is recovered field by field: reading the text of
  a response gives that response back, with absent optional members (\<^verbatim>\<open>result\<close>,
  \<^verbatim>\<open>speaker_continue\<close>, \<^verbatim>\<open>speaker_id\<close>, the word range) read as absent, for all integers that
  fit the fields.
\<close>

theorem ParseSpeechResponse_roundtrip:
  assumes "json_lib_ok jl" and "response_ok r" and "jl_dump jl (response_json r) = Inr text"
  shows "ParseSpeechResponse jl text = Inr r"
proof -
  have "jl_parse jl text = Inr (response_json r)"
    using assms(1,3) response_json_wf [of r] by (auto simp: json_lib_ok_def)
  with ParseSpeechResponseInner_response_json [OF assms(2)] show ?thesis
    by (simp add: ParseSpeechResponse_def)
qed

text \<open>A library that knows one document, enough to meet the hypotheses.\<close>

definition one_doc :: "json \<Rightarrow> string \<Rightarrow> json_lib" where
  "one_doc j0 text0 =
     \<lparr> jl_parse = (\<lambda>s. if s = text0 then Inr j0 else Inl (StdException ''parse error'')),
       jl_dump = (\<lambda>j. if j = j0 then Inr text0 else Inl (StdException ''invalid UTF-8'')) \<rparr>"

lemma one_doc_ok: "json_lib_ok (one_doc j0 text0)"
  by (simp add: json_lib_ok_def one_doc_def)

definition sample_response :: SpeechRecognitionResponse where
  "sample_response =
     \<lparr> sr_code = 0, sr_message = ''success'', sr_voice_id = ''v'', sr_message_id = ''m'',
       sr_final_flag = 0,
       sr_result = RecognitionResult_default \<lparr> rr_slice_type := 2, rr_speaker_id := Some (- 1) \<rparr>,
       sr_has_result = True, sr_speaker_continue = None \<rparr>"

lemma sample_response_ok: "response_ok sample_response"
  by (simp add: response_ok_def sample_response_def result_ok_def RecognitionResult_default_def
      in_i32_def in_i64_def)

theorem ParseSpeechResponse_roundtrip_witness:
  "response_ok sample_response \<and>
   ParseSpeechResponse (one_doc (response_json sample_response) ''{...}'') ''{...}'' = Inr sample_response"
proof
  show "response_ok sample_response" by (rule sample_response_ok)
  show "ParseSpeechResponse (one_doc (response_json sample_response) ''{...}'') ''{...}''
      = Inr sample_response"
    by (rule ParseSpeechResponse_roundtrip [OF one_doc_ok sample_response_ok])
      (simp add: one_doc_def)
qed



end
