(* ===== verification/Credential.thy ===== *)
theory Credential
  imports Asr_Error
begin

text \<open>
  \<^verbatim>\<open>include/trtc_asr/credential.h\<close>: the two clusters of the service, the endpoint a
  recognizer derives from its site or its override, and the class \<^verbatim>\<open>Credential\<close> with its
  setters.
\<close>

definition kSiteCN :: string where "kSiteCN = ''cn''"
definition kSiteIntl :: string where "kSiteIntl = ''intl''"
definition kHostCN :: string where "kHostCN = ''asr.cloud-rtc.com''"
definition kHostIntl :: string where "kHostIntl = ''asr-intl.cloud-rtc.com''"

text \<open>\<^verbatim>\<open>std::tolower\<close> in the C locale.\<close>

definition tolower :: "char \<Rightarrow> char" where
  "tolower c = (if 65 \<le> char_code c \<and> char_code c \<le> 90 then char_of (char_code c + 32) else c)"

definition HostForSite :: "string \<Rightarrow> string result" where
  "HostForSite original =
     (let site = map tolower (trim original)
      in if site = [] \<or> site = kSiteCN then Inr kHostCN
         else if site = kSiteIntl then Inr kHostIntl
         else Inl (invalid_param
           (''unsupported site '' @ [CHR 0x22] @ original @ [CHR 0x22] @ '', want '' @ [CHR 0x22] @
            kSiteCN @ [CHR 0x22] @ '' or '' @ [CHR 0x22] @ kSiteIntl @ [CHR 0x22])))"

definition WSEndpointForSite :: "string \<Rightarrow> string result" where
  "WSEndpointForSite site = bindE (HostForSite site) (\<lambda>h. Inr (''wss://'' @ h))"

definition HTTPEndpointForSite :: "string \<Rightarrow> string result" where
  "HTTPEndpointForSite site = bindE (HostForSite site) (\<lambda>h. Inr (''https://'' @ h))"

definition ResolveWSEndpoint :: "string \<Rightarrow> string \<Rightarrow> string result" where
  "ResolveWSEndpoint override_ep site =
     (if override_ep \<noteq> [] then Inr override_ep else WSEndpointForSite site)"

definition ResolveHTTPEndpoint :: "string \<Rightarrow> string \<Rightarrow> string result" where
  "ResolveHTTPEndpoint override_ep site =
     (if override_ep \<noteq> [] then Inr override_ep else HTTPEndpointForSite site)"

record Credential =
  cr_app_id :: int
  cr_sdk_app_id :: int
  cr_secret_key :: string
  cr_user_sig :: string
  cr_site :: string

definition new_Credential :: "int \<Rightarrow> int \<Rightarrow> string \<Rightarrow> Credential" where
  "new_Credential app_id sdk_app_id secret_key =
     \<lparr> cr_app_id = app_id, cr_sdk_app_id = sdk_app_id, cr_secret_key = secret_key,
       cr_user_sig = [], cr_site = [] \<rparr>"

definition set_user_sig :: "string \<Rightarrow> Credential \<Rightarrow> Credential" where
  "set_user_sig user_sig c = c \<lparr> cr_user_sig := user_sig \<rparr>"

definition set_site :: "string \<Rightarrow> Credential \<Rightarrow> Credential" where
  "set_site site c = c \<lparr> cr_site := site \<rparr>"

definition app_id_str :: "Credential \<Rightarrow> string" where
  "app_id_str c = to_string (cr_app_id c)"

section \<open>Sites are compared without padding and case\<close>

lemma trim_padding:
  assumes "\<And>c. c \<in> set pre \<Longrightarrow> isspace c" and "\<And>c. c \<in> set post \<Longrightarrow> isspace c"
  shows "trim (pre @ s @ post) = trim s"
proof -
  have front: "dropWhile isspace (pre @ t) = dropWhile isspace t" for t
    using assms(1) by (simp add: dropWhile_append1 dropWhile_append)
  have bck: "rev (dropWhile isspace (rev post @ t)) = rev (dropWhile isspace t)" for t
    using assms(2) by (simp add: dropWhile_append)
  show ?thesis
  proof (cases "dropWhile isspace s = []")
    case True
    then have "\<forall>c\<in>set s. isspace c" by (simp add: dropWhile_eq_Nil_conv)
    with assms have all: "dropWhile isspace (pre @ s @ post) = []"
      by (auto simp: dropWhile_eq_Nil_conv)
    show ?thesis unfolding trim_def trim_front_dropWhile all True ..
  next
    case False
    then have "dropWhile isspace (s @ post) = dropWhile isspace s @ post"
      by (auto simp: dropWhile_append dropWhile_eq_Nil_conv)
    then show ?thesis
      by (simp add: trim_def trim_front_dropWhile front trim_back_dropWhile bck)
  qed
qed

lemma isspace_tolower [simp]: "isspace (tolower c) = isspace c"
  by (auto simp: isspace_def tolower_def char_code_def of_char_of)

lemma map_tolower_dropWhile: "map tolower (dropWhile isspace s) = dropWhile isspace (map tolower s)"
  by (induction s) auto

lemma map_tolower_trim: "map tolower (trim s) = trim (map tolower s)"
  by (simp add: trim_def trim_front_dropWhile trim_back_dropWhile map_tolower_dropWhile flip: rev_map)

lemma HostForSite_Inr_iff:
  "HostForSite s = Inr h \<longleftrightarrow>
     (map tolower (trim s) \<in> {[], kSiteCN} \<and> h = kHostCN) \<or>
     (map tolower (trim s) = kSiteIntl \<and> h = kHostIntl)"
  by (auto simp: HostForSite_def Let_def kSiteCN_def kSiteIntl_def)

section \<open>Properties\<close>

lemma Resolve_endpoints:
  "HostForSite t = Inr h \<Longrightarrow>
     ResolveWSEndpoint ep t = Inr (if ep = [] then ''wss://'' @ h else ep) \<and>
     ResolveHTTPEndpoint ep t = Inr (if ep = [] then ''https://'' @ h else ep)"
  by (simp add: ResolveWSEndpoint_def ResolveHTTPEndpoint_def WSEndpointForSite_def
      HTTPEndpointForSite_def)

text \<open>
  The cluster is chosen from the site without regard to surrounding white space and
  letter case: two spellings of a site that differ in these only select the same host, or
  are both rejected; the host is one of the two published names, and without an override
  the realtime and the HTTPS origin are on the same host.
\<close>

lemma HostForSite_normalises:
  assumes "\<And>c. c \<in> set (pre @ post) \<Longrightarrow> isspace c" and "map tolower s = map tolower t"
  shows "(HostForSite (pre @ s @ post) = Inr h \<longleftrightarrow> HostForSite t = Inr h) \<and>
         (HostForSite t = Inr h \<longrightarrow>
            h \<in> {''asr.cloud-rtc.com'', ''asr-intl.cloud-rtc.com''} \<and>
            ResolveWSEndpoint [] (pre @ s @ post) = Inr (''wss://'' @ h) \<and>
            ResolveHTTPEndpoint [] (pre @ s @ post) = Inr (''https://'' @ h))"
proof -
  have "map tolower (trim (pre @ s @ post)) = map tolower (trim t)"
    using trim_padding [of pre post s] assms by (simp add: map_tolower_trim)
  then have same: "HostForSite (pre @ s @ post) = Inr h \<longleftrightarrow> HostForSite t = Inr h"
    by (simp add: HostForSite_Inr_iff)
  moreover have "HostForSite t = Inr h \<longrightarrow> h \<in> {''asr.cloud-rtc.com'', ''asr-intl.cloud-rtc.com''}"
    by (auto simp: HostForSite_Inr_iff kHostCN_def kHostIntl_def)
  ultimately show ?thesis using Resolve_endpoints [of "pre @ s @ post" h "[]"] by simp
qed

lemma HostForSite_normalises_witness:
  "HostForSite ('' '' @ ''Intl'' @ [CHR 0x0A]) = Inr ''asr-intl.cloud-rtc.com'' \<and>
   ResolveWSEndpoint [] ('' '' @ ''Intl'' @ [CHR 0x0A]) = Inr ''wss://asr-intl.cloud-rtc.com''"
proof -
  have "\<And>c. c \<in> set ('' '' @ [CHR 0x0A]) \<Longrightarrow> isspace c" by (auto simp: isspace_def char_code_def)
  moreover have "map tolower ''Intl'' = map tolower ''intl''" by code_simp
  moreover have "HostForSite ''intl'' = Inr ''asr-intl.cloud-rtc.com''" by code_simp
  ultimately show ?thesis
    using HostForSite_normalises [of "'' ''" "[CHR 0x0A]" "''Intl''" "''intl''" "''asr-intl.cloud-rtc.com''"]
    by simp
qed

end
