(* ===== verification/Query.thy ===== *)
theory Query
  imports Json
begin

text \<open>
  The query string of a request: SDK self-identification (\<^verbatim>\<open>src/sdkinfo.cc\<close>), percent
  encoding (\<^verbatim>\<open>QueryEscape\<close> of \<^verbatim>\<open>src/signature_params.cc\<close>) and the loop that joins the
  entries of a map. What a server needs of the encoding is the locale \<open>query_codec\<close>; that
  the joined text splits back into the entries is proved inside it.
\<close>

section \<open>SDK self-identification\<close>

text \<open>The preprocessor symbols of the target the library is built for.\<close>

record build_target =
  def_WIN32 :: bool
  def_ANDROID :: bool
  def_APPLE :: bool
  TARGET_OS_IPHONE :: bool
  def_linux :: bool

definition SdkPlatform :: "build_target \<Rightarrow> string" where
  "SdkPlatform b =
     (if def_WIN32 b then ''windows''
      else if def_ANDROID b then ''android''
      else if def_APPLE b then (if TARGET_OS_IPHONE b then ''ios'' else ''mac'')
      else if def_linux b then ''linux''
      else ''unknown'')"

definition kSdkVersion :: string where "kSdkVersion = ''2.0.0''"
definition kSdkLanguage :: string where "kSdkLanguage = ''cpp''"
definition kSdkType :: string where "kSdkType = ''server''"

definition SdkReportParams :: "build_target \<Rightarrow> string smap" where
  "SdkReportParams b =
     [(''platform'', SdkPlatform b), (''sdk_lang'', kSdkLanguage), (''sdk_type'', kSdkType),
      (''version'', kSdkVersion)]"

section \<open>Percent encoding\<close>

definition kHex :: string where
  "kHex = ''0123456789ABCDEF''"

definition unreserved :: "char \<Rightarrow> bool" where
  "unreserved c \<longleftrightarrow>
     (65 \<le> char_code c \<and> char_code c \<le> 90) \<or> (97 \<le> char_code c \<and> char_code c \<le> 122) \<or>
     (48 \<le> char_code c \<and> char_code c \<le> 57) \<or>
     c = CHR ''-'' \<or> c = CHR ''_'' \<or> c = CHR ''.'' \<or> c = CHR ''~''"

definition escape_query_char :: "char \<Rightarrow> string" where
  "escape_query_char c =
     (if unreserved c then [c]
      else if c = CHR '' '' then ''+''
      else [CHR ''%'', kHex ! (char_code c div 16), kHex ! (char_code c mod 16)])"

fun QueryEscape :: "string \<Rightarrow> string" where
  "QueryEscape [] = []"
| "QueryEscape (c # s) = escape_query_char c @ QueryEscape s"

text \<open>The loop over a map: \<^verbatim>\<open>if (!out.empty()) out += '&'; out += k; out += '='; out += QueryEscape(v);\<close>\<close>

definition append_entry :: "string \<Rightarrow> string \<times> string \<Rightarrow> string" where
  "append_entry out kv =
     (if out \<noteq> [] then out @ ''&'' else out) @ fst kv @ ''='' @ QueryEscape (snd kv)"

definition join_query :: "string smap \<Rightarrow> string" where
  "join_query m = foldl append_entry [] m"

definition SdkReportQuery :: "build_target \<Rightarrow> string" where
  "SdkReportQuery b = join_query (SdkReportParams b)"

section \<open>Reading a query string\<close>

text \<open>Splitting at every occurrence of a character; at the first occurrence.\<close>

fun split_all :: "char \<Rightarrow> string \<Rightarrow> string list" where
  "split_all x [] = [[]]"
| "split_all x (c # s) =
     (if c = x then [] # split_all x s
      else (case split_all x s of [] \<Rightarrow> [[c]] | f # fs \<Rightarrow> (c # f) # fs))"

definition split_first :: "char \<Rightarrow> string \<Rightarrow> (string \<times> string) option" where
  "split_first x s =
     (case find_first ((=) x) s of None \<Rightarrow> None | Some i \<Rightarrow> Some (take i s, drop (Suc i) s))"

definition upper_hex :: "char \<Rightarrow> nat option" where
  "upper_hex c =
     (if is_digit c then Some (char_code c - 48)
      else if 65 \<le> char_code c \<and> char_code c \<le> 70 then Some (char_code c - 55) else None)"

fun QueryUnescape :: "string \<Rightarrow> string option" where
  "QueryUnescape [] = Some []"
| "QueryUnescape (c # s) =
     (if c = CHR ''+'' then map_option ((#) (CHR '' '')) (QueryUnescape s)
      else if c = CHR ''%''
      then (case s of
              h # l # s' \<Rightarrow>
                (case (upper_hex h, upper_hex l) of
                   (Some a, Some b) \<Rightarrow> map_option ((#) (char_of (16 * a + b))) (QueryUnescape s')
                 | _ \<Rightarrow> None)
            | _ \<Rightarrow> None)
      else map_option ((#) c) (QueryUnescape s))"

section \<open>The contract of the encoding\<close>

locale query_codec =
  fixes enc :: "string \<Rightarrow> string" and dec :: "string \<Rightarrow> string option"
  assumes dec_enc: "dec (enc s) = Some s"
    and enc_no_amp: "CHR ''&'' \<notin> set (enc s)"
begin

definition read_field :: "string \<Rightarrow> (string \<times> string) option" where
  "read_field f =
     (case split_first (CHR ''='') f of
        None \<Rightarrow> None
      | Some (k, v) \<Rightarrow> map_option (Pair k) (dec v))"

definition read_query :: "string \<Rightarrow> (string \<times> string) option list" where
  "read_query s = map read_field (split_all (CHR ''&'') s)"

end

lemma find_first_append:
  "\<forall>c\<in>set k. \<not> P c \<Longrightarrow> P x \<Longrightarrow> find_first P (k @ x # v) = Some (length k)"
  by (induction k) auto

lemma split_first_append: "x \<notin> set k \<Longrightarrow> split_first x (k @ x # v) = Some (k, v)"
proof -
  assume "x \<notin> set k"
  then have "\<forall>c\<in>set k. \<not> x = c" by auto
  from find_first_append [of k "(=) x" x v, OF this] show ?thesis by (simp add: split_first_def)
qed

lemma split_all_no_sep: "x \<notin> set f \<Longrightarrow> split_all x f = [f]"
  by (induction f) auto

lemma split_all_append: "x \<notin> set f \<Longrightarrow> split_all x (f @ x # s) = f # split_all x s"
  by (induction f) auto

text \<open>The joined text as a recursive function of the entries.\<close>

fun join_with :: "(string \<Rightarrow> string) \<Rightarrow> (string \<times> string) list \<Rightarrow> string" where
  "join_with e [] = []"
| "join_with e [(k, v)] = k @ ''='' @ e v"
| "join_with e ((k, v) # kv # m) = k @ ''='' @ e v @ ''&'' @ join_with e (kv # m)"

context query_codec
begin

lemma read_field_entry: "CHR ''='' \<notin> set k \<Longrightarrow> read_field (k @ CHR ''='' # enc v) = Some (k, v)"
  by (simp add: read_field_def split_first_append dec_enc)

lemma read_query_join:
  "m \<noteq> [] \<Longrightarrow> (\<And>k. k \<in> fst ` set m \<Longrightarrow> CHR ''='' \<notin> set k \<and> CHR ''&'' \<notin> set k) \<Longrightarrow>
     read_query (join_with enc m) = map Some m"
proof (induction m rule: induct_list012)
  case (2 kv)
  obtain k v where [simp]: "kv = (k, v)" by force
  from 2 have "CHR ''&'' \<notin> set (k @ CHR ''='' # enc v)" by (simp add: enc_no_amp)
  with 2 show ?case
    by (simp add: read_query_def split_all_no_sep read_field_entry del: set_append)
next
  case (3 kv0 kv m)
  obtain k v where [simp]: "kv0 = (k, v)" by force
  from 3 have f: "CHR ''&'' \<notin> set (k @ CHR ''='' # enc v)" by (simp add: enc_no_amp)
  have "split_all (CHR ''&'') (join_with enc ((k, v) # kv # m)) =
      (k @ CHR ''='' # enc v) # split_all (CHR ''&'') (join_with enc (kv # m))"
    using split_all_append [OF f, of "join_with enc (kv # m)"] by simp
  with 3 show ?case by (simp add: read_query_def read_field_entry)
qed simp

end

section \<open>QueryEscape meets the contract\<close>

lemma kHex_upper_hex: "d < 16 \<Longrightarrow> upper_hex (kHex ! d) = Some d"
proof -
  have "\<forall>d\<in>set [0..<16]. upper_hex (kHex ! d) = Some d" by code_simp
  then show "d < 16 \<Longrightarrow> ?thesis" by simp
qed

lemma kHex_not_amp: "d < 16 \<Longrightarrow> kHex ! d \<noteq> CHR ''&''"
proof -
  have "CHR ''&'' \<notin> set kHex" and "length kHex = 16" by (simp_all add: kHex_def)
  then show "d < 16 \<Longrightarrow> ?thesis" by (metis nth_mem)
qed

lemma unreserved_plain: "unreserved c \<Longrightarrow> c \<noteq> CHR ''+'' \<and> c \<noteq> CHR ''%'' \<and> c \<noteq> CHR ''&''"
  by (auto simp: unreserved_def char_code_def)

lemma QueryUnescape_percent:
  "h < 16 \<Longrightarrow> l < 16 \<Longrightarrow>
   QueryUnescape (CHR ''%'' # kHex ! h # kHex ! l # s) =
     map_option ((#) (char_of (16 * h + l))) (QueryUnescape s)"
  by (subst QueryUnescape.simps) (simp add: kHex_upper_hex del: QueryUnescape.simps)

lemma char_code_split: "char_of (16 * (char_code c div 16) + char_code c mod 16) = c"
  by (simp add: char_code_def)

lemma char_code_nibbles: "char_code c div 16 < 16" "char_code c mod 16 < 16"
  using less_mult_imp_div_less [of "char_code c" 16 16] by auto

lemma QueryUnescape_char:
  "QueryUnescape (escape_query_char c @ s) = map_option ((#) c) (QueryUnescape s)"
proof (cases "unreserved c")
  case True
  with unreserved_plain [OF True] show ?thesis by (simp add: escape_query_char_def)
next
  case False
  show ?thesis
  proof (cases "c = CHR '' ''")
    case True
    with False show ?thesis by (simp add: escape_query_char_def)
  next
    case sp: False
    with False QueryUnescape_percent [OF char_code_nibbles, of c c s] show ?thesis
      by (simp only: escape_query_char_def char_code_split if_False append.simps)
  qed
qed

lemma QueryUnescape_Escape: "QueryUnescape (QueryEscape s) = Some s"
  by (induction s) (simp_all add: QueryUnescape_char del: QueryUnescape.simps(2))

lemma escape_query_char_no_amp: "CHR ''&'' \<notin> set (escape_query_char c)"
  using kHex_not_amp [OF char_code_nibbles(1), of c] kHex_not_amp [OF char_code_nibbles(2), of c]
    unreserved_plain [of c]
  by (auto simp: escape_query_char_def)

interpretation query: query_codec QueryEscape QueryUnescape
proof
  show "QueryUnescape (QueryEscape s) = Some s" for s by (rule QueryUnescape_Escape)
  show "CHR ''&'' \<notin> set (QueryEscape s)" for s
    by (induction s) (simp_all add: escape_query_char_no_amp)
qed

text \<open>The accumulating loop computes the recursive form.\<close>

lemma append_entry_simps:
  "out \<noteq> [] \<Longrightarrow> append_entry out (k, v) = out @ ''&'' @ k @ ''='' @ QueryEscape v"
  "append_entry [] (k, v) = k @ ''='' @ QueryEscape v"
  by (simp_all add: append_entry_def)

lemma append_entry_nonempty [simp]: "append_entry out kv \<noteq> []"
  by (simp add: append_entry_def)

lemma foldl_append_entry:
  "out \<noteq> [] \<Longrightarrow> m \<noteq> [] \<Longrightarrow> foldl append_entry out m = out @ ''&'' @ join_with QueryEscape m"
proof (induction m arbitrary: out rule: induct_list012)
  case (2 kv)
  then show ?case by (cases kv) (simp add: append_entry_simps)
next
  case (3 kv kv' m)
  then have "foldl append_entry (append_entry out kv) (kv' # m) =
      append_entry out kv @ ''&'' @ join_with QueryEscape (kv' # m)"
    by simp
  with 3 show ?case by (cases kv) (simp add: append_entry_simps)
qed simp

lemma join_query_eq: "join_query m = join_with QueryEscape m"
proof (cases m)
  case (Cons kv m')
  then show ?thesis
    using foldl_append_entry [of "append_entry [] kv" m']
    by (cases kv; cases m') (simp_all add: join_query_def append_entry_simps)
qed (simp add: join_query_def)

lemma SdkReportParams_wf [simp]: "mwf (SdkReportParams b)"
  by (simp add: SdkReportParams_def mwf_def)

end
