(* ===== verification/Speaker.thy ===== *)
theory Speaker
  imports Json
begin

text \<open>
  Speaker options shared by the request types (\<^verbatim>\<open>include/trtc_asr/signature_params.h\<close>,
  \<^verbatim>\<open>src/json_helper.h\<close>): the diarization and speaker-context modes, enrolment roles and
  their JSON form.
\<close>

definition kSpeakerDiarizationOff :: int where "kSpeakerDiarizationOff = 0"
definition kSpeakerDiarizationCluster :: int where "kSpeakerDiarizationCluster = 1"
definition kSpeakerDiarizationVoiceprint :: int where "kSpeakerDiarizationVoiceprint = 3"
definition kSpeakerContextOff :: int where "kSpeakerContextOff = 0"
definition kSpeakerContextSync :: int where "kSpeakerContextSync = 1"
definition kSpeakerContextAsync :: int where "kSpeakerContextAsync = 2"

lemmas speaker_modes = kSpeakerDiarizationOff_def kSpeakerDiarizationCluster_def
  kSpeakerDiarizationVoiceprint_def kSpeakerContextOff_def kSpeakerContextSync_def
  kSpeakerContextAsync_def

record SpeakerRole =
  role_name :: string
  audio_url :: string

definition role_json :: "SpeakerRole \<Rightarrow> json" where
  "role_json role =
     JObj (mput ''AudioUrl'' (JStr (audio_url role)) (mput ''RoleName'' (JStr (role_name role)) []))"

definition SerializeSpeakerRoles :: "json_lib \<Rightarrow> SpeakerRole list \<Rightarrow> string result" where
  "SerializeSpeakerRoles jl roles = jl_dump jl (JArr (map role_json roles))"

definition SerializeStringArray :: "json_lib \<Rightarrow> string list \<Rightarrow> string result" where
  "SerializeStringArray jl values = jl_dump jl (JArr (map JStr values))"

lemma role_json_wf: "json_wf (role_json r)"
  by (simp add: role_json_def mwf_def)

end
