(* ===== verification/SignatureParams.thy ===== *)
theory SignatureParams
  imports Query Speaker
begin

text \<open>
  \<^verbatim>\<open>include/trtc_asr/signature_params.h\<close> and \<^verbatim>\<open>src/signature_params.cc\<close>: the parameters of
  a realtime connection, their default values, and the query string they are sent as. The
  clock and the random generator are arguments of the constructor's model; the build
  target and the JSON library are parameters.
\<close>

record SignatureParams =
  sp_app_id :: int
  sp_timestamp :: int
  sp_expired :: int
  sp_nonce :: int
  sp_engine_model_type :: string
  sp_voice_id :: string
  sp_voice_format :: int
  sp_need_vad :: int
  sp_sdk_app_id :: int
  sp_hotword_id :: string
  sp_hotword_list :: string
  sp_customization_id :: string
  sp_replace_text_id :: string
  sp_filter_dirty :: int
  sp_filter_modal :: int
  sp_filter_punc :: int
  sp_convert_num_mode :: int
  sp_word_info :: int
  sp_vad_silence_time :: int
  sp_max_speak_time :: int
  sp_input_sample_rate :: int
  sp_language :: string
  sp_filter_empty_result :: "int option"
  sp_vad_level :: "int option"
  sp_noise_threshold :: "dbl option"
  sp_speaker_diarization :: int
  sp_enable_speaker_context :: int
  sp_speaker_context_id :: string
  sp_speaker_number :: int
  sp_speaker_roles :: "SpeakerRole list"
  sp_voiceprint_ids :: "string list"

text \<open>\<open>now\<close> is the clock in seconds, \<open>rnd\<close> the 32-bit value drawn from the generator.\<close>

definition new_SignatureParams :: "int \<Rightarrow> u32 \<Rightarrow> int \<Rightarrow> string \<Rightarrow> string \<Rightarrow> SignatureParams" where
  "new_SignatureParams now rnd app_id engine_model_type voice_id =
     \<lparr> sp_app_id = app_id, sp_timestamp = now, sp_expired = now + 86400,
       sp_nonce = int (unat rnd mod 9999999) + 1,
       sp_engine_model_type = engine_model_type, sp_voice_id = voice_id,
       sp_voice_format = 1, sp_need_vad = 1, sp_sdk_app_id = 0, sp_hotword_id = [],
       sp_hotword_list = [], sp_customization_id = [], sp_replace_text_id = [],
       sp_filter_dirty = 0, sp_filter_modal = 0, sp_filter_punc = 0, sp_convert_num_mode = 1,
       sp_word_info = 0, sp_vad_silence_time = 0, sp_max_speak_time = 0,
       sp_input_sample_rate = 0, sp_language = [], sp_filter_empty_result = None,
       sp_vad_level = None, sp_noise_threshold = None, sp_speaker_diarization = 0,
       sp_enable_speaker_context = 0, sp_speaker_context_id = [], sp_speaker_number = 0,
       sp_speaker_roles = [], sp_voiceprint_ids = [] \<rparr>"

section \<open>Conditional assignments\<close>

text \<open>\<^verbatim>\<open>if (c) m[k] = f();\<close> where \<^verbatim>\<open>f\<close> may throw.\<close>

definition put_ifE :: "bool \<Rightarrow> string \<Rightarrow> string result \<Rightarrow> string smap \<Rightarrow> string smap result" where
  "put_ifE c k v m = (if c then bindE v (\<lambda>x. Inr (mput k x m)) else Inr m)"

text \<open>\<^verbatim>\<open>snprintf(buf, 32, "%.3f", v)\<close> keeps at most 31 characters.\<close>

definition noise_text :: "dbl \<Rightarrow> string" where
  "noise_text v = take 31 (fmt_f 3 v)"

section \<open>ToMap and the query strings\<close>

text \<open>
  The assignments of \<^verbatim>\<open>ToMap\<close> in the order of the source: the required parameters, the SDK
  identification, the options that are sent when set, and the speaker parameters.
\<close>

definition required_params :: "SignatureParams \<Rightarrow> string smap" where
  "required_params p =
     mput ''needvad'' (to_string (sp_need_vad p)) (
     mput ''voice_format'' (to_string (sp_voice_format p)) (
     mput ''voice_id'' (sp_voice_id p) (
     mput ''engine_model_type'' (sp_engine_model_type p) (
     mput ''nonce'' (to_string (sp_nonce p)) (
     mput ''expired'' (to_string (sp_expired p)) (
     mput ''timestamp'' (to_string (sp_timestamp p)) (
     mput ''secretid'' (to_string (sp_app_id p)) [])))))))"

definition put_int :: "string \<Rightarrow> int \<Rightarrow> string smap \<Rightarrow> string smap" where
  "put_int k i m = put_if (i \<noteq> 0) k (to_string i) m"

definition put_str :: "string \<Rightarrow> string \<Rightarrow> string smap \<Rightarrow> string smap" where
  "put_str k s m = put_if (s \<noteq> []) k s m"

definition option_params :: "SignatureParams \<Rightarrow> string smap \<Rightarrow> string smap" where
  "option_params p m =
     put_opt ''noise_threshold'' (map_option noise_text (sp_noise_threshold p)) (
     put_opt ''vad_level'' (map_option to_string (sp_vad_level p)) (
     put_int ''input_sample_rate'' (sp_input_sample_rate p) (
     put_int ''max_speak_time'' (sp_max_speak_time p) (
     put_int ''vad_silence_time'' (sp_vad_silence_time p) (
     put_int ''word_info'' (sp_word_info p) (
     put_int ''convert_num_mode'' (sp_convert_num_mode p) (
     put_opt ''filter_empty_result'' (map_option to_string (sp_filter_empty_result p)) (
     put_int ''filter_punc'' (sp_filter_punc p) (
     put_int ''filter_modal'' (sp_filter_modal p) (
     put_int ''filter_dirty'' (sp_filter_dirty p) (
     put_str ''replace_text_id'' (sp_replace_text_id p) (
     put_str ''customization_id'' (sp_customization_id p) (
     put_str ''hotword_list'' (sp_hotword_list p) (
     put_str ''hotword_id'' (sp_hotword_id p) (
     put_if (sp_sdk_app_id p > 0) ''sdkappid'' (to_string (sp_sdk_app_id p)) m)))))))))))))))"

definition context_params :: "SignatureParams \<Rightarrow> string smap \<Rightarrow> string smap" where
  "context_params p m =
     (if sp_enable_speaker_context p \<noteq> 0
      then put_str ''speaker_context_id'' (sp_speaker_context_id p)
             (mput ''enable_speaker_context'' (to_string (sp_enable_speaker_context p)) m)
      else m)"

definition diarization_params :: "SignatureParams \<Rightarrow> string smap \<Rightarrow> string smap" where
  "diarization_params p m =
     (if sp_speaker_diarization p \<noteq> 0
      then put_int ''speaker_number'' (sp_speaker_number p)
             (mput ''speaker_diarization'' (to_string (sp_speaker_diarization p)) m)
      else m)"

definition ToMap :: "build_target \<Rightarrow> json_lib \<Rightarrow> SignatureParams \<Rightarrow> string smap result" where
  "ToMap b jl p =
     (let m = required_params p;
          m = foldl (\<lambda>m (k, v). mput k v m) m (SdkReportParams b);
          m = option_params p m;
          m = context_params p m;
          m = diarization_params p m;
          voiceprint = (sp_speaker_diarization p = kSpeakerDiarizationVoiceprint)
      in bindE (put_ifE (voiceprint \<and> sp_speaker_roles p \<noteq> []) ''speaker_roles''
                  (SerializeSpeakerRoles jl (sp_speaker_roles p)) m) (\<lambda>m.
         bindE (put_ifE (voiceprint \<and> sp_voiceprint_ids p \<noteq> []) ''voiceprintids''
                  (SerializeStringArray jl (sp_voiceprint_ids p)) m) (\<lambda>m.
         Inr (put_str ''language'' (sp_language p) m))))"

definition BuildQueryString :: "build_target \<Rightarrow> json_lib \<Rightarrow> SignatureParams \<Rightarrow> string result" where
  "BuildQueryString b jl p = bindE (ToMap b jl p) (\<lambda>params. Inr (join_query params))"

definition BuildQueryStringWithSignature ::
  "build_target \<Rightarrow> json_lib \<Rightarrow> SignatureParams \<Rightarrow> string \<Rightarrow> string result" where
  "BuildQueryStringWithSignature b jl p user_sig =
     bindE (ToMap b jl p) (\<lambda>params.
     Inr (join_query (mput ''usersig'' user_sig (mput ''signature'' user_sig params))))"

section \<open>Keys\<close>

definition query_keys :: "string list" where
  "query_keys =
     [''secretid'', ''timestamp'', ''expired'', ''nonce'', ''engine_model_type'', ''voice_id'',
      ''voice_format'', ''needvad'', ''platform'', ''sdk_lang'', ''sdk_type'', ''version'',
      ''sdkappid'', ''hotword_id'', ''hotword_list'', ''customization_id'', ''replace_text_id'',
      ''filter_dirty'', ''filter_modal'', ''filter_punc'', ''filter_empty_result'',
      ''convert_num_mode'', ''word_info'', ''vad_silence_time'', ''max_speak_time'',
      ''input_sample_rate'', ''vad_level'', ''noise_threshold'', ''enable_speaker_context'',
      ''speaker_context_id'', ''speaker_diarization'', ''speaker_number'', ''speaker_roles'',
      ''voiceprintids'', ''language'']"

definition keys_in :: "string smap \<Rightarrow> bool" where
  "keys_in m \<longleftrightarrow> mwf m \<and> fst ` set m \<subseteq> set query_keys"

lemma keys_in_mput: "keys_in m \<Longrightarrow> k \<in> set query_keys \<Longrightarrow> keys_in (mput k v m)"
  by (simp add: keys_in_def)

lemma keys_in_put_if: "keys_in m \<Longrightarrow> k \<in> set query_keys \<Longrightarrow> keys_in (put_if c k v m)"
  by (simp add: put_if_def keys_in_mput)

lemma keys_in_put_opt: "keys_in m \<Longrightarrow> k \<in> set query_keys \<Longrightarrow> keys_in (put_opt k v m)"
  by (simp add: put_opt_def keys_in_mput split: option.split)

lemma keys_in_put_int: "keys_in m \<Longrightarrow> k \<in> set query_keys \<Longrightarrow> keys_in (put_int k i m)"
  by (simp add: put_int_def keys_in_put_if)

lemma keys_in_put_str: "keys_in m \<Longrightarrow> k \<in> set query_keys \<Longrightarrow> keys_in (put_str k s m)"
  by (simp add: put_str_def keys_in_put_if)

lemma keys_in_put_ifE:
  "keys_in m \<Longrightarrow> k \<in> set query_keys \<Longrightarrow> put_ifE c k v m = Inr m' \<Longrightarrow> keys_in m'"
  by (auto simp: put_ifE_def bindE_Inr_iff keys_in_mput split: if_splits)

lemma keys_in_Nil: "keys_in []"
  by (simp add: keys_in_def)

lemmas keys_in_intros = keys_in_mput keys_in_put_if keys_in_put_opt keys_in_put_int keys_in_put_str
  keys_in_Nil

lemma keys_in_required: "keys_in (required_params p)"
  unfolding required_params_def by (intro keys_in_intros) (simp_all add: query_keys_def)

lemma keys_in_sdk: "keys_in m \<Longrightarrow> keys_in (foldl (\<lambda>m (k, v). mput k v m) m (SdkReportParams b))"
  unfolding SdkReportParams_def by (simp add: keys_in_mput query_keys_def)

lemma keys_in_options: "keys_in m \<Longrightarrow> keys_in (option_params p m)"
  unfolding option_params_def by (intro keys_in_intros) (simp_all add: query_keys_def)

lemma keys_in_context: "keys_in m \<Longrightarrow> keys_in (context_params p m)"
  unfolding context_params_def by (auto intro!: keys_in_intros simp: query_keys_def)

lemma keys_in_diarization: "keys_in m \<Longrightarrow> keys_in (diarization_params p m)"
  unfolding diarization_params_def by (auto intro!: keys_in_intros simp: query_keys_def)

lemma ToMap_keys: "ToMap b jl p = Inr m \<Longrightarrow> keys_in m"
proof -
  assume m: "ToMap b jl p = Inr m"
  let ?m = "diarization_params p (context_params p (option_params p
    (foldl (\<lambda>m (k, v). mput k v m) (required_params p) (SdkReportParams b))))"
  have base: "keys_in ?m"
    by (intro keys_in_diarization keys_in_context keys_in_options keys_in_sdk keys_in_required)
  have known: "''speaker_roles'' \<in> set query_keys" "''voiceprintids'' \<in> set query_keys"
    "''language'' \<in> set query_keys" by (simp_all add: query_keys_def)
  from m show ?thesis
    unfolding ToMap_def Let_def bindE_Inr_iff
    by (auto intro!: keys_in_put_str known dest!: keys_in_put_ifE [OF _ known(2), rotated]
        keys_in_put_ifE [OF base known(1)])
qed

section \<open>Values\<close>

lemma mget_put_int [simp]:
  "mget (put_int k i m) k' = (if k' = k \<and> i \<noteq> 0 then Some (to_string i) else mget m k')"
  by (simp add: put_int_def)

lemma mget_put_str [simp]:
  "mget (put_str k s m) k' = (if k' = k \<and> s \<noteq> [] then Some s else mget m k')"
  by (simp add: put_str_def)

lemma mget_put_ifE:
  "put_ifE c k v m = Inr m' \<Longrightarrow>
     mget m' k' = (if c \<and> k' = k then Some (projr v) else mget m k') \<and> (c \<longrightarrow> v = Inr (projr v))"
  by (auto simp: put_ifE_def bindE_Inr_iff split: if_splits)

text \<open>What \<^verbatim>\<open>ToMap\<close> has assigned before the two serialised arrays.\<close>

definition scalar_params :: "build_target \<Rightarrow> SignatureParams \<Rightarrow> string smap" where
  "scalar_params b p =
     diarization_params p (context_params p (option_params p
       (foldl (\<lambda>m (k, v). mput k v m) (required_params p) (SdkReportParams b))))"

lemma ToMap_lookup:
  assumes "ToMap b jl p = Inr m"
  shows "mget m k =
    (if k = ''language'' \<and> sp_language p \<noteq> [] then Some (sp_language p)
     else if k = ''voiceprintids'' \<and> sp_speaker_diarization p = 3 \<and> sp_voiceprint_ids p \<noteq> []
     then Some (projr (SerializeStringArray jl (sp_voiceprint_ids p)))
     else if k = ''speaker_roles'' \<and> sp_speaker_diarization p = 3 \<and> sp_speaker_roles p \<noteq> []
     then Some (projr (SerializeSpeakerRoles jl (sp_speaker_roles p)))
     else mget (scalar_params b p) k)"
proof -
  let ?c1 = "sp_speaker_diarization p = 3 \<and> sp_speaker_roles p \<noteq> []"
  let ?c2 = "sp_speaker_diarization p = 3 \<and> sp_voiceprint_ids p \<noteq> []"
  from assms obtain m1 m2 where
    1: "put_ifE ?c1 ''speaker_roles'' (SerializeSpeakerRoles jl (sp_speaker_roles p)) (scalar_params b p) = Inr m1" and
    2: "put_ifE ?c2 ''voiceprintids'' (SerializeStringArray jl (sp_voiceprint_ids p)) m1 = Inr m2" and
    3: "m = put_str ''language'' (sp_language p) m2"
    unfolding ToMap_def Let_def bindE_Inr_iff scalar_params_def speaker_modes by auto
  from 3 mget_put_ifE [OF 1, of k] mget_put_ifE [OF 2, of k] show ?thesis by auto
qed

lemmas param_defs = scalar_params_def diarization_params_def context_params_def option_params_def
  required_params_def SdkReportParams_def

section \<open>Properties\<close>

text \<open>
  A server that splits the query string at the separators and undoes the percent
  encoding reads exactly the parameters, in ascending order of their names, each once, with
  \<^verbatim>\<open>signature\<close> and \<^verbatim>\<open>usersig\<close> both set to the ticket, whatever bytes the values contain.
\<close>

lemma BuildQueryStringWithSignature_roundtrip:
  assumes "BuildQueryStringWithSignature b jl p user_sig = Inr q"
  shows "\<exists>m. ToMap b jl p = Inr m \<and>
           query.read_query q =
             map Some (mput ''usersig'' user_sig (mput ''signature'' user_sig m)) \<and>
           mwf (mput ''usersig'' user_sig (mput ''signature'' user_sig m))"
proof -
  from assms obtain m where m: "ToMap b jl p = Inr m"
    and q: "q = join_query (mput ''usersig'' user_sig (mput ''signature'' user_sig m))"
    by (auto simp: BuildQueryStringWithSignature_def bindE_Inr_iff)
  let ?m = "mput ''usersig'' user_sig (mput ''signature'' user_sig m)"
  have plain: "\<forall>k\<in>set (''usersig'' # ''signature'' # query_keys). CHR ''='' \<notin> set k \<and> CHR ''&'' \<notin> set k"
    by (simp add: query_keys_def)
  have keys: "fst ` set ?m \<subseteq> set (''usersig'' # ''signature'' # query_keys)" and wf: "mwf ?m"
    using ToMap_keys [OF m] by (auto simp: keys_in_def)
  have "?m \<noteq> []" by simp
  moreover have "CHR ''='' \<notin> set k \<and> CHR ''&'' \<notin> set k" if "k \<in> fst ` set ?m" for k
    using plain keys that by blast
  ultimately have "query.read_query (join_with QueryEscape ?m) = map Some ?m"
    by (rule query.read_query_join)
  with m q wf show ?thesis by (simp add: join_query_eq)
qed

text \<open>A target and a parameter set for evaluation; no array is serialised.\<close>

definition linux_target :: build_target where
  "linux_target = \<lparr> def_WIN32 = False, def_ANDROID = False, def_APPLE = False,
     TARGET_OS_IPHONE = False, def_linux = True \<rparr>"

definition no_json :: json_lib where
  "no_json = \<lparr> jl_parse = (\<lambda>_. Inl (StdException ''parse error'')),
     jl_dump = (\<lambda>_. Inl (StdException ''invalid UTF-8'')) \<rparr>"

definition sample_params :: SignatureParams where
  "sample_params = (new_SignatureParams 1700000000 41 1300000000 ''16k_zh'' ''a b&c'')
     \<lparr> sp_vad_level := Some 0 \<rparr>"

lemma sample_query_ok:
  "\<exists>q. BuildQueryStringWithSignature linux_target no_json sample_params ''sig'' = Inr q"
  by (simp add: BuildQueryStringWithSignature_def ToMap_def sample_params_def new_SignatureParams_def
      put_ifE_def speaker_modes)

text \<open>
  The optional parameters mean what their type says: the tri-state options are sent
  exactly when set, an explicit 0 included; the speaker context only when enabled; the
  speaker number only with diarization; enrolment data only in voiceprint mode; the SDK
  identification and the required parameters always, whatever the options are.
\<close>

theorem ToMap_options:
  assumes "ToMap b jl p = Inr m"
  shows "mget m ''vad_level'' = map_option to_string (sp_vad_level p) \<and>
    mget m ''filter_empty_result'' = map_option to_string (sp_filter_empty_result p) \<and>
    mget m ''noise_threshold'' = map_option noise_text (sp_noise_threshold p) \<and>
    mget m ''speaker_context_id'' =
      (if sp_enable_speaker_context p \<noteq> 0 \<and> sp_speaker_context_id p \<noteq> []
       then Some (sp_speaker_context_id p) else None) \<and>
    mget m ''speaker_number'' =
      (if sp_speaker_diarization p \<noteq> 0 \<and> sp_speaker_number p \<noteq> 0
       then Some (to_string (sp_speaker_number p)) else None) \<and>
    (mget m ''speaker_roles'' \<noteq> None) = (sp_speaker_diarization p = 3 \<and> sp_speaker_roles p \<noteq> []) \<and>
    (mget m ''voiceprintids'' \<noteq> None) = (sp_speaker_diarization p = 3 \<and> sp_voiceprint_ids p \<noteq> []) \<and>
    mget m ''secretid'' = Some (to_string (sp_app_id p)) \<and>
    mget m ''voice_id'' = Some (sp_voice_id p) \<and>
    mget m ''platform'' = Some (SdkPlatform b) \<and> mget m ''version'' = Some ''2.0.0''"
proof -
  have "mget (scalar_params b p) ''vad_level'' = map_option to_string (sp_vad_level p)"
    "mget (scalar_params b p) ''filter_empty_result'' = map_option to_string (sp_filter_empty_result p)"
    "mget (scalar_params b p) ''noise_threshold'' = map_option noise_text (sp_noise_threshold p)"
    by (simp_all add: param_defs)
  moreover have "mget (scalar_params b p) ''speaker_context_id'' =
      (if sp_enable_speaker_context p \<noteq> 0 \<and> sp_speaker_context_id p \<noteq> []
       then Some (sp_speaker_context_id p) else None)"
    "mget (scalar_params b p) ''speaker_number'' =
      (if sp_speaker_diarization p \<noteq> 0 \<and> sp_speaker_number p \<noteq> 0
       then Some (to_string (sp_speaker_number p)) else None)"
    "mget (scalar_params b p) ''speaker_roles'' = None" "mget (scalar_params b p) ''voiceprintids'' = None"
    by (simp_all add: param_defs)
  moreover have "mget (scalar_params b p) ''secretid'' = Some (to_string (sp_app_id p))"
    "mget (scalar_params b p) ''voice_id'' = Some (sp_voice_id p)"
    "mget (scalar_params b p) ''platform'' = Some (SdkPlatform b)"
    "mget (scalar_params b p) ''version'' = Some ''2.0.0''"
    by (simp_all add: param_defs kSdkVersion_def)
  ultimately show ?thesis
    using ToMap_lookup [OF assms, of "''vad_level''"] ToMap_lookup [OF assms, of "''filter_empty_result''"]
      ToMap_lookup [OF assms, of "''noise_threshold''"] ToMap_lookup [OF assms, of "''speaker_context_id''"]
      ToMap_lookup [OF assms, of "''speaker_number''"] ToMap_lookup [OF assms, of "''speaker_roles''"]
      ToMap_lookup [OF assms, of "''voiceprintids''"] ToMap_lookup [OF assms, of "''secretid''"]
      ToMap_lookup [OF assms, of "''voice_id''"] ToMap_lookup [OF assms, of "''platform''"]
      ToMap_lookup [OF assms, of "''version''"]
    by simp
qed

lemma sample_map_ok: "\<exists>m. ToMap linux_target no_json sample_params = Inr m"
  by (simp add: ToMap_def sample_params_def new_SignatureParams_def put_ifE_def speaker_modes)

theorem ToMap_options_witness:
  "\<exists>m. ToMap linux_target no_json sample_params = Inr m \<and> mget m ''vad_level'' = Some ''0'' \<and>
       mget m ''platform'' = Some ''linux''"
proof -
  obtain m where m: "ToMap linux_target no_json sample_params = Inr m" using sample_map_ok by blast
  have "sp_vad_level sample_params = Some 0" by (simp add: sample_params_def)
  with ToMap_options [OF m] m show ?thesis
    by (auto simp: SdkPlatform_def linux_target_def str_simps)
qed

text \<open>
  The constructor's random nonce is between 1 and 9999999, so it is never the 0 that
  would read as unset, for every draw of the 32-bit generator; the parameters expire one
  day after they are made; and the defaults are mono PCM with VAD and number conversion.
\<close>

lemma new_SignatureParams_bounds:
  "let p = new_SignatureParams now rnd app_id engine voice_id
   in 1 \<le> sp_nonce p \<and> sp_nonce p \<le> 9999999 \<and> sp_expired p - sp_timestamp p = 86400 \<and>
      sp_voice_format p = 1 \<and> sp_need_vad p = 1 \<and> sp_convert_num_mode p = 1"
proof -
  have "unat rnd mod 9999999 < 9999999" by (rule mod_less_divisor) simp
  then show ?thesis by (simp add: new_SignatureParams_def Let_def)
qed

end
