(* ===== verification/Params.thy ===== *)
theory Params
  imports Speaker
begin

text \<open>
  The shared validators of \<^verbatim>\<open>src/params.cc\<close>: enrolment URLs, speaker diarization, voice
  activity detection and enumerated options. Each is characterised by the inputs it
  accepts; every rejection is an invalid-parameter error.
\<close>

definition kMinNoiseThreshold :: rat where "kMinNoiseThreshold = 0"
definition kMaxNoiseThreshold :: rat where "kMaxNoiseThreshold = 4"

definition role_field :: "nat \<Rightarrow> string \<Rightarrow> string" where
  "role_field i field = ''SpeakerRoles['' @ to_string_nat i @ '']'' @ field"

definition ValidateEnrollmentURL :: "nat \<Rightarrow> string \<Rightarrow> unit result" where
  "ValidateEnrollmentURL index raw_url =
     (let fail = (\<lambda>what. invalid_param (role_field index ''.AudioUrl '' @ what)) in
      bindE (throw_if (list_all (\<lambda>c. c \<in> {CHR '' '', CHR 0x09, CHR 0x0D, CHR 0x0A}) raw_url)
               (fail ''is empty'')) (\<lambda>_.
      bindE (throw_if (list_ex (\<lambda>c. char_code c < 0x20 \<or> char_code c = 0x7F) raw_url)
               (fail ''is not a valid URL: contains control character'')) (\<lambda>_.
      bindE (throw_if (find_first ((=) (CHR '' '')) raw_url \<noteq> None)
               (fail ''is not a valid URL: contains space'')) (\<lambda>_.
      case find_str ''://'' raw_url of
        None \<Rightarrow> Inl (fail ''is not a valid URL: missing scheme'')
      | Some scheme_end \<Rightarrow>
          bindE (throw_if (scheme_end = 0) (fail ''is not a valid URL: missing scheme'')) (\<lambda>_.
          let scheme = take scheme_end raw_url in
          bindE (throw_if (scheme \<noteq> ''http'' \<and> scheme \<noteq> ''https'')
                   (fail (''must use http or https, got '' @ [CHR 0x22] @ scheme @ [CHR 0x22]))) (\<lambda>_.
          let rest = drop (scheme_end + 3) raw_url;
              auth_end = find_first (\<lambda>c. c \<in> {CHR ''/'', CHR ''?'', CHR ''#''}) rest;
              authority = substr_upto rest auth_end
          in throw_if (authority = []) (fail ''has no host'')))))))"

fun validate_roles :: "nat \<Rightarrow> SpeakerRole list \<Rightarrow> unit result" where
  "validate_roles i [] = Inr ()"
| "validate_roles i (r # rs) =
     bindE (throw_if (role_name r = []) (invalid_param (role_field i ''.RoleName is empty''))) (\<lambda>_.
     bindE (ValidateEnrollmentURL i (audio_url r)) (\<lambda>_.
     validate_roles (Suc i) rs))"

fun validate_voiceprints :: "nat \<Rightarrow> string list \<Rightarrow> unit result" where
  "validate_voiceprints i [] = Inr ()"
| "validate_voiceprints i (v # vs) =
     bindE (throw_if (v = [])
              (invalid_param (''VoiceprintIds['' @ to_string_nat i @ ''] is empty''))) (\<lambda>_.
     validate_voiceprints (Suc i) vs)"

definition ValidateSpeakerDiarization ::
  "int \<Rightarrow> int \<Rightarrow> SpeakerRole list \<Rightarrow> string list \<Rightarrow> unit result" where
  "ValidateSpeakerDiarization mode speaker_number roles voiceprint_ids =
     bindE (throw_if (mode \<noteq> kSpeakerDiarizationOff \<and> mode \<noteq> kSpeakerDiarizationCluster \<and>
                      mode \<noteq> kSpeakerDiarizationVoiceprint)
              (invalid_param (''SpeakerDiarization must be 0 (off), 1 (cluster) or 3 (voiceprint), got '' @
                 to_string mode))) (\<lambda>_.
     bindE (throw_if (speaker_number < 0)
              (invalid_param (''SpeakerNumber must be >= 0 (0 = auto detection), got '' @
                 to_string speaker_number))) (\<lambda>_.
     bindE (throw_if (mode \<noteq> kSpeakerDiarizationVoiceprint \<and> (roles \<noteq> [] \<or> voiceprint_ids \<noteq> []))
              (invalid_param ''SpeakerRoles/VoiceprintIds require SpeakerDiarization=3'')) (\<lambda>_.
     bindE (validate_roles 0 roles) (\<lambda>_.
     validate_voiceprints 0 voiceprint_ids))))"

definition ValidateVadTuning :: "int option \<Rightarrow> dbl option \<Rightarrow> unit result" where
  "ValidateVadTuning vad_level noise_threshold =
     bindE (case vad_level of
              None \<Rightarrow> Inr ()
            | Some l \<Rightarrow> throw_if (l \<noteq> 0 \<and> l \<noteq> 1)
                (invalid_param (''VadLevel must be 0 (high recall) or 1 (far-field filtering), got '' @
                   to_string l))) (\<lambda>_.
     case noise_threshold of
       None \<Rightarrow> Inr ()
     | Some v \<Rightarrow>
         throw_if (\<not> dbl_between kMinNoiseThreshold kMaxNoiseThreshold v)
           (invalid_param (take 95 (''NoiseThreshold must be between '' @
              fmt_f 1 (Fin False kMinNoiseThreshold) @ '' and '' @
              fmt_f 1 (Fin False kMaxNoiseThreshold) @ '', got '' @ fmt_g v))))"

fun join_ints :: "int list \<Rightarrow> string" where
  "join_ints [] = []"
| "join_ints [i] = to_string i"
| "join_ints (i # is) = to_string i @ '', '' @ join_ints is"

definition ValidateEnumOption :: "string \<Rightarrow> int \<Rightarrow> int list \<Rightarrow> unit result" where
  "ValidateEnumOption name value allowed =
     (if value \<in> set allowed then Inr ()
      else Inl (invalid_param (name @ '' must be one of ['' @ join_ints allowed @ ''], got '' @
                  to_string value)))"

section \<open>What is accepted\<close>

lemma find_str_Some:
  "find_str pat s = Some n \<Longrightarrow> s = take n s @ pat @ drop (n + length pat) s"
proof (induction s arbitrary: n)
  case Nil
  then show ?case by (simp split: if_splits)
next
  case (Cons c s)
  show ?case
  proof (cases "prefix pat (c # s)")
    case True
    with Cons.prems have "n = 0" by simp
    with True show ?thesis by (auto simp: prefix_def)
  next
    case False
    with Cons.prems obtain k where "find_str pat s = Some k" and n: "n = Suc k" by auto
    from Cons.IH [OF this(1)] n show ?thesis by simp
  qed
qed

lemma find_first_None [simp]: "find_first P s = None \<longleftrightarrow> (\<forall>c\<in>set s. \<not> P c)"
  by (induction s) auto

lemma find_first_0: "find_first P s = Some 0 \<longleftrightarrow> s \<noteq> [] \<and> P (hd s)"
  by (cases s) auto

lemma authority_empty:
  "substr_upto rest (find_first P rest) = [] \<longleftrightarrow> rest = [] \<or> P (hd rest)"
proof (cases rest)
  case (Cons c r)
  then show ?thesis
    by (cases "find_first P r") (auto simp: substr_upto_def simp del: find_first_None)
qed (simp add: substr_upto_def)

text \<open>An absolute HTTP URL with a host and without white space or control characters.\<close>

definition http_url :: "string \<Rightarrow> bool" where
  "http_url u \<longleftrightarrow>
     (\<forall>c\<in>set u. 0x20 < char_code c \<and> char_code c \<noteq> 0x7F) \<and>
     (\<exists>rest. (u = ''http://'' @ rest \<or> u = ''https://'' @ rest) \<and> rest \<noteq> [] \<and>
             hd rest \<notin> {CHR ''/'', CHR ''?'', CHR ''#''})"

lemma scheme_split:
  "(\<exists>n. find_str ''://'' u = Some n \<and> n \<noteq> 0 \<and> take n u \<in> {''http'', ''https''} \<and> R (drop (n + 3) u)) \<longleftrightarrow>
   (\<exists>rest. (u = ''http://'' @ rest \<or> u = ''https://'' @ rest) \<and> R rest)" (is "?l \<longleftrightarrow> ?r")
proof
  assume ?l
  then obtain n where n: "find_str ''://'' u = Some n" "take n u \<in> {''http'', ''https''}"
    "R (drop (n + 3) u)" by auto
  from find_str_Some [OF n(1)] have "u = take n u @ ''://'' @ drop (n + 3) u" by (simp add: numeral_3_eq_3)
  with n(2,3) show ?r by (metis append_Cons append_Nil insertE singletonD)
next
  assume ?r
  then obtain rest where "u = ''http://'' @ rest \<or> u = ''https://'' @ rest" "R rest" by auto
  then show ?l by auto
qed

lemma char_space_code: "c = CHR '' '' \<longleftrightarrow> char_code c = 0x20"
  using char_code_eq_iff [of c "CHR '' ''"] by (simp add: char_code_def)

lemma space_in_set: "CHR '' '' \<in> set u \<longleftrightarrow> (\<exists>c\<in>set u. char_code c = 0x20)"
  by (metis char_space_code)

lemma checks_ValidateEnrollmentURL: "checks (ValidateEnrollmentURL i u) (http_url u)"
proof -
  let ?stop = "\<lambda>c. c \<in> {CHR ''/'', CHR ''?'', CHR ''#''}"
  let ?ctl = "\<lambda>c. char_code c < 0x20 \<or> char_code c = 0x7F"
  let ?blank = "\<lambda>c. c \<in> {CHR '' '', CHR 0x09, CHR 0x0D, CHR 0x0A}"
  let ?R = "\<lambda>rest. rest \<noteq> [] \<and> \<not> ?stop (hd rest)"
  let ?split = "\<exists>n. find_str ''://'' u = Some n \<and> n \<noteq> 0 \<and> take n u \<in> {''http'', ''https''} \<and>
    ?R (drop (n + 3) u)"
  let ?rest = "\<exists>rest. (u = ''http://'' @ rest \<or> u = ''https://'' @ rest) \<and> ?R rest"
  have "checks (ValidateEnrollmentURL i u)
      (\<not> list_all ?blank u \<and> \<not> list_ex ?ctl u \<and> CHR '' '' \<notin> set u \<and> ?split)"
    unfolding ValidateEnrollmentURL_def Let_def
    by (cases "find_str ''://'' u")
      (auto simp: checks_def throw_if_def invalid_param_def authority_empty)
  moreover have "?split \<longleftrightarrow> ?rest" by (rule scheme_split)
  moreover have "?rest \<Longrightarrow> \<not> list_all ?blank u" by auto
  moreover have "\<not> list_ex ?ctl u \<and> CHR '' '' \<notin> set u \<longleftrightarrow>
      (\<forall>c\<in>set u. 0x20 < char_code c \<and> char_code c \<noteq> 0x7F)"
    unfolding space_in_set list_ex_iff by (auto simp: not_less le_less)
  ultimately show ?thesis unfolding http_url_def by (elim checks_iff) blast
qed

definition role_ok :: "SpeakerRole \<Rightarrow> bool" where
  "role_ok r \<longleftrightarrow> role_name r \<noteq> [] \<and> http_url (audio_url r)"

lemma checks_validate_roles: "checks (validate_roles i roles) (list_all role_ok roles)"
proof (induction roles arbitrary: i)
  case (Cons r roles)
  have "checks (validate_roles i (r # roles))
      (\<not> role_name r = [] \<and> http_url (audio_url r) \<and> list_all role_ok roles)"
    unfolding validate_roles.simps
    by (intro checks_bindE checks_throw_if checks_ValidateEnrollmentURL Cons.IH)
  then show ?case by (simp only: list.pred_inject role_ok_def [of r] conj_assoc)
qed (simp add: checks_return)

lemma checks_validate_voiceprints:
  "checks (validate_voiceprints i ids) (list_all (\<lambda>v. v \<noteq> []) ids)"
proof (induction ids arbitrary: i)
  case (Cons v ids)
  have "checks (validate_voiceprints i (v # ids)) (\<not> v = [] \<and> list_all (\<lambda>v. v \<noteq> []) ids)"
    unfolding validate_voiceprints.simps by (intro checks_bindE checks_throw_if Cons.IH)
  then show ?case by simp
qed (simp add: checks_return)

definition diarization_ok :: "int \<Rightarrow> int \<Rightarrow> SpeakerRole list \<Rightarrow> string list \<Rightarrow> bool" where
  "diarization_ok mode n roles ids \<longleftrightarrow>
     mode \<in> {0, 1, 3} \<and> 0 \<le> n \<and> (mode = 3 \<or> roles = [] \<and> ids = []) \<and>
     list_all role_ok roles \<and> list_all (\<lambda>v. v \<noteq> []) ids"

lemma checks_ValidateSpeakerDiarization:
  "checks (ValidateSpeakerDiarization mode n roles ids) (diarization_ok mode n roles ids)"
proof -
  have "checks (ValidateSpeakerDiarization mode n roles ids)
      (\<not> (mode \<noteq> kSpeakerDiarizationOff \<and> mode \<noteq> kSpeakerDiarizationCluster \<and>
          mode \<noteq> kSpeakerDiarizationVoiceprint) \<and>
       \<not> n < 0 \<and>
       \<not> (mode \<noteq> kSpeakerDiarizationVoiceprint \<and> (roles \<noteq> [] \<or> ids \<noteq> [])) \<and>
       list_all role_ok roles \<and> list_all (\<lambda>v. v \<noteq> []) ids)"
    unfolding ValidateSpeakerDiarization_def
    by (intro checks_bindE checks_throw_if checks_validate_roles checks_validate_voiceprints)
  then show ?thesis by (rule checks_iff) (auto simp: diarization_ok_def speaker_modes)
qed

definition vad_ok :: "int option \<Rightarrow> dbl option \<Rightarrow> bool" where
  "vad_ok level noise \<longleftrightarrow>
     pred_option (\<lambda>l. l = 0 \<or> l = 1) level \<and> pred_option (dbl_between 0 4) noise"

lemma checks_ValidateVadTuning: "checks (ValidateVadTuning level noise) (vad_ok level noise)"
proof -
  have "checks (case level of None \<Rightarrow> Inr () | Some l \<Rightarrow> throw_if (l \<noteq> 0 \<and> l \<noteq> 1) (invalid_param (f l)))
      (pred_option (\<lambda>l. l = 0 \<or> l = 1) level)" for f
    by (cases level) (auto simp: checks_def invalid_param_def throw_if_def)
  moreover have "checks (case noise of None \<Rightarrow> Inr ()
      | Some v \<Rightarrow> throw_if (\<not> dbl_between kMinNoiseThreshold kMaxNoiseThreshold v) (invalid_param (g v)))
      (pred_option (dbl_between 0 4) noise)" for g
    by (cases noise)
      (auto simp: checks_def invalid_param_def throw_if_def kMinNoiseThreshold_def kMaxNoiseThreshold_def)
  ultimately show ?thesis
    unfolding ValidateVadTuning_def vad_ok_def by (intro checks_bindE)
qed

lemma checks_ValidateEnumOption: "checks (ValidateEnumOption name value allowed) (value \<in> set allowed)"
  by (simp add: ValidateEnumOption_def checks_def invalid_param_def)

section \<open>Properties\<close>

text \<open>
  \<^verbatim>\<open>ValidateSpeakerDiarization\<close> accepts exactly: a mode of 0, 1 or 3, a
  non-negative speaker number, enrolment data in mode 3 only, every role with a name and
  an absolute http(s) URL that has a host and no white space or control characters, and no
  empty voiceprint id. Everything else is rejected with the invalid-parameter code.
\<close>

lemma ValidateSpeakerDiarization_decides:
  "if diarization_ok mode n roles ids
   then ValidateSpeakerDiarization mode n roles ids = Inr ()
   else \<exists>msg. ValidateSpeakerDiarization mode n roles ids = Inl (ASRError 1001 msg)"
  using checks_ValidateSpeakerDiarization [of mode n roles ids]
  unfolding checks_def kErrInvalidParam_def .

text \<open>
  \<^verbatim>\<open>ValidateVadTuning\<close> accepts a VAD level of 0 or 1 and a noise threshold between
  0.0 and 4.0 inclusive, negative zero included, and rejects NaN and the infinities;
  unset options are accepted.
\<close>

lemma ValidateVadTuning_decides:
  "(if pred_option (\<lambda>l. l = 0 \<or> l = 1) level \<and> pred_option (dbl_between 0 4) noise
    then ValidateVadTuning level noise = Inr ()
    else \<exists>msg. ValidateVadTuning level noise = Inl (ASRError 1001 msg)) \<and>
   ValidateVadTuning None (Some (Fin True 0)) = Inr () \<and>
   ValidateVadTuning None (Some (NaN s)) =
     Inl (ASRError 1001 (''NoiseThreshold must be between 0.0 and 4.0, got '' @ sign_text s @ ''nan''))"
proof -
  have "fmt_f 1 (Fin False 0) = ''0.0''" and "fmt_f 1 (Fin False 4) = ''4.0''"
    by code_simp+
  moreover have "length (sign_text s) \<le> 1" by (simp add: sign_text_def)
  ultimately have "ValidateVadTuning None (Some (Fin True 0)) = Inr () \<and>
   ValidateVadTuning None (Some (NaN s)) =
     Inl (ASRError 1001 (''NoiseThreshold must be between 0.0 and 4.0, got '' @ sign_text s @ ''nan''))"
    by (simp add: kErrInvalidParam_def ValidateVadTuning_def kMinNoiseThreshold_def
        kMaxNoiseThreshold_def dbl_val_def invalid_param_def del: fmt_f.simps)
  then show ?thesis
    using checks_ValidateVadTuning [of level noise]
    unfolding checks_def vad_ok_def kErrInvalidParam_def by blast
qed

end
