(* ===== verification/WsFrame.thy ===== *)
theory WsFrame
  imports Asr_Error
begin

text \<open>
  The pure part of \<^verbatim>\<open>src/ws_client.cc\<close>: URL splitting, the RFC 6455 frame encoder and
  \<^verbatim>\<open>GenerateUuid\<close>. The masking key and the random words are arguments. The decoder
  \<open>decode_frame\<close> is the reference a peer implements; the client's own reader is in the
  theory on transport operations and is compared with it there.
\<close>

section \<open>URLs\<close>

record UrlParts =
  up_secure :: bool
  up_host :: string
  up_port :: int
  up_target :: string

text \<open>
  \<^verbatim>\<open>std::stoi\<close>: leading white space, an optional sign and digits; None when it throws
  (no digits, or a value outside \<^verbatim>\<open>int\<close>). What follows the digits is ignored.
\<close>

definition stoi :: "string \<Rightarrow> int option" where
  "stoi s =
     (let t = dropWhile isspace s;
          neg = (t \<noteq> [] \<and> hd t = CHR ''-'');
          u = (if t \<noteq> [] \<and> (hd t = CHR ''-'' \<or> hd t = CHR ''+'') then tl t else t);
          d = takeWhile is_digit u;
          v = (if neg then - int (nat_of_digits d) else int (nat_of_digits d))
      in if d = [] \<or> v < - (2 ^ 31) \<or> 2 ^ 31 \<le> v then None else Some v)"

definition split_authority :: "bool \<Rightarrow> int \<Rightarrow> string \<Rightarrow> string + UrlParts" where
  "split_authority secure port rest =
     (let slash = find_first ((=) (CHR ''/'')) rest;
          authority = substr_upto rest slash;
          target = (case slash of None \<Rightarrow> ''/'' | Some i \<Rightarrow> drop i rest)
      in if authority = [] then Inl ''url has no host''
         else (case rfind_char (CHR '':'') authority of
                 Some colon \<Rightarrow>
                   if find_first ((=) (CHR '']'')) authority = None
                   then (case stoi (drop (colon + 1) authority) of
                           None \<Rightarrow> Inl ''invalid port''
                         | Some p \<Rightarrow> Inr \<lparr> up_secure = secure, up_host = take colon authority,
                                           up_port = p, up_target = target \<rparr>)
                   else Inr \<lparr> up_secure = secure, up_host = authority, up_port = port,
                              up_target = target \<rparr>
               | None \<Rightarrow> Inr \<lparr> up_secure = secure, up_host = authority, up_port = port,
                              up_target = target \<rparr>))"

definition ParseWsUrl :: "string \<Rightarrow> string + UrlParts" where
  "ParseWsUrl url =
     (if prefix ''wss://'' url then split_authority True 443 (drop 6 url)
      else if prefix ''ws://'' url then split_authority False 80 (drop 5 url)
      else Inl ''unsupported scheme, want ws or wss'')"

section \<open>Frames\<close>

record WsFrame =
  wf_opcode :: u8
  wf_payload :: "u8 list"
  wf_fin :: bool

text \<open>The payload with byte \<open>i\<close> combined with byte \<open>i mod 4\<close> of the key.\<close>

definition apply_mask :: "u8 list \<Rightarrow> u8 list \<Rightarrow> u8 list" where
  "apply_mask key payload = map (\<lambda>(i, b). b XOR key ! (i mod 4)) (enumerate 0 payload)"

text \<open>Bytes \<open>(len >> (8 * i)) & 0xFF\<close> for \<open>i\<close> from \<open>k - 1\<close> down to 0.\<close>

definition be_bytes :: "nat \<Rightarrow> nat \<Rightarrow> u8 list" where
  "be_bytes k len = map (\<lambda>i. word_of_nat (drop_bit (8 * i) len)) (rev [0..<k])"

definition length_field :: "u8 \<Rightarrow> nat \<Rightarrow> u8 list" where
  "length_field mask_bit len =
     (if len < 126 then [mask_bit OR word_of_nat len]
      else if len \<le> 0xFFFF then (mask_bit OR 126) # be_bytes 2 len
      else (mask_bit OR 127) # be_bytes 8 len)"

definition EncodeWsFrame :: "u8 \<Rightarrow> u8 list \<Rightarrow> bool \<Rightarrow> u8 list \<Rightarrow> u8 list" where
  "EncodeWsFrame opcode payload masked key =
     [0x80 OR opcode] @
     length_field (if masked then 0x80 else 0) (length payload) @
     (if masked then key @ apply_mask key payload else payload)"

section \<open>The peer's decoder\<close>

text \<open>\<^verbatim>\<open>len = (len << 8) | ext[i]\<close> over the bytes of an extended length.\<close>

definition be_value :: "u8 list \<Rightarrow> u64" where
  "be_value bs = foldl (\<lambda>l b. push_bit 8 l OR ucast b) 0 bs"

text \<open>The declared payload length and the number of header bytes after the first two.\<close>

definition ext_size :: "u8 \<Rightarrow> nat" where
  "ext_size h1 = (if h1 AND 0x7F = 126 then 2 else if h1 AND 0x7F = 127 then 8 else 0)"

definition frame_len :: "u8 \<Rightarrow> u8 list \<Rightarrow> nat" where
  "frame_len h1 ext = (if ext_size h1 = 0 then unat (h1 AND 0x7F) else unat (be_value ext))"

definition frame_masked :: "u8 \<Rightarrow> bool" where
  "frame_masked h1 \<longleftrightarrow> h1 AND 0x80 \<noteq> 0"

definition mk_frame :: "u8 \<Rightarrow> u8 \<Rightarrow> u8 list \<Rightarrow> u8 list \<Rightarrow> WsFrame" where
  "mk_frame h0 h1 key payload =
     \<lparr> wf_opcode = h0 AND 0x0F,
       wf_payload = (if frame_masked h1 then apply_mask key payload else payload),
       wf_fin = (h0 AND 0x80 \<noteq> 0) \<rparr>"

fun decode_frame :: "u8 list \<Rightarrow> (WsFrame \<times> u8 list) option" where
  "decode_frame (h0 # h1 # s) =
     (let ext = take (ext_size h1) s;
          s1 = drop (ext_size h1) s;
          len = frame_len h1 ext;
          keylen = (if frame_masked h1 then 4 else 0);
          key = take keylen s1;
          s2 = drop keylen s1
      in if length s < ext_size h1 \<or> length s1 < keylen \<or> length s2 < len then None
         else Some (mk_frame h0 h1 key (take len s2), drop len s2))"
| "decode_frame _ = None"

section \<open>UUIDs\<close>

definition hex2 :: "u8 \<Rightarrow> string" where
  "hex2 b = [''0123456789abcdef'' ! (unat b div 16), ''0123456789abcdef'' ! (unat b mod 16)]"

text \<open>\<open>r0\<close> and \<open>r1\<close> are the two 64-bit draws; \<^verbatim>\<open>memcpy\<close> on a little-endian host.\<close>

definition le_bytes :: "u64 \<Rightarrow> u8 list" where
  "le_bytes v = map (\<lambda>i. ucast (drop_bit (8 * i) v)) [0..<8]"

definition uuid_bytes :: "u64 \<Rightarrow> u64 \<Rightarrow> u8 list" where
  "uuid_bytes r0 r1 =
     (let b = le_bytes r0 @ le_bytes r1;
          b = b[6 := (b ! 6 AND 0x0F) OR 0x40]
      in b[8 := (b ! 8 AND 0x3F) OR 0x80])"

definition GenerateUuid :: "u64 \<Rightarrow> u64 \<Rightarrow> string" where
  "GenerateUuid r0 r1 =
     (let h = map hex2 (uuid_bytes r0 r1)
      in concat (take 4 h) @ ''-'' @ concat (take 2 (drop 4 h)) @ ''-'' @ concat (take 2 (drop 6 h)) @
         ''-'' @ concat (take 2 (drop 8 h)) @ ''-'' @ concat (drop 10 h))"

section \<open>Masking\<close>

lemma length_apply_mask [simp]: "length (apply_mask key p) = length p"
  by (simp add: apply_mask_def)

lemma nth_apply_mask: "i < length p \<Longrightarrow> apply_mask key p ! i = p ! i XOR key ! (i mod 4)"
  by (simp add: apply_mask_def nth_enumerate_eq)

text \<open>Masking twice with the same key is the identity.\<close>

lemma apply_mask_involution [simp]: "apply_mask key (apply_mask key p) = p"
  by (rule nth_equalityI) (simp_all add: nth_apply_mask xor.assoc)

section \<open>Lengths\<close>

lemma length_be_bytes [simp]: "length (be_bytes k n) = k"
  by (simp add: be_bytes_def)

lemma be_bytes_Suc: "be_bytes (Suc k) n = be_bytes k (n div 256) @ [word_of_nat n]"
proof -
  have up: "[0..<Suc k] = 0 # map Suc [0..<k]"
    by (simp only: upt_conv_Cons zero_less_Suc if_True map_Suc_upt One_nat_def)
  have "drop_bit (8 * Suc i) n = drop_bit (8 * i) (n div 256)" for i
    by (simp add: drop_bit_eq_div power_add div_mult2_eq)
  then show ?thesis
    unfolding be_bytes_def up by (simp only: rev.simps rev_map map_append map_map comp_def list.map) simp
qed

lemma push_or_of_nat:
  assumes "b < 256"
  shows "(push_bit 8 (word_of_nat a) OR word_of_nat b :: 'a::len word) = word_of_nat (256 * a + b)"
proof -
  have "b = take_bit 8 b" using assms by (simp add: take_bit_nat_eq_self)
  then have "push_bit 8 a OR b = push_bit 8 a + b"
    by (metis bit_push_bit_iff bit_take_bit_iff disjunctive_add not_le)
  then have "push_bit 8 a OR b = 256 * a + b" by (simp add: push_bit_eq_mult)
  then show ?thesis by (metis of_nat_or_eq push_bit_of_nat)
qed

lemma be_value_snoc: "be_value (bs @ [b]) = push_bit 8 (be_value bs) OR ucast b"
  by (simp add: be_value_def)

lemma ucast_of_nat_u8: "(ucast (word_of_nat n :: u8) :: u64) = word_of_nat (n mod 256)"
  by (simp add: unsigned_of_nat take_bit_eq_mod)

lemma be_value_be_bytes: "be_value (be_bytes k n) = word_of_nat (n mod 256 ^ k)"
proof (induction k arbitrary: n)
  case 0
  then show ?case by (simp add: be_value_def be_bytes_def)
next
  case (Suc k)
  have "be_value (be_bytes (Suc k) n) =
      push_bit 8 (word_of_nat (n div 256 mod 256 ^ k)) OR word_of_nat (n mod 256)"
    by (simp add: be_bytes_Suc be_value_snoc Suc.IH ucast_of_nat_u8)
  also have "\<dots> = word_of_nat (256 * (n div 256 mod 256 ^ k) + n mod 256)"
    by (rule push_or_of_nat) simp
  finally show ?case by (simp add: mod_mult2_eq)
qed

lemma unat_be_value_2: "n \<le> 0xFFFF \<Longrightarrow> unat (be_value (be_bytes 2 n)) = n"
  by (simp add: be_value_be_bytes unat_of_nat)

lemma unat_be_value_8: "n < 2 ^ 64 \<Longrightarrow> unat (be_value (be_bytes 8 n)) = n"
  by (simp add: be_value_be_bytes unat_of_nat)

section \<open>The second header byte\<close>

definition mask_flag :: "bool \<Rightarrow> u8" where
  "mask_flag m = (if m then 0x80 else 0)"

lemma low7_word_of_nat: "n < 128 \<Longrightarrow> (word_of_nat n :: u8) AND 0x7F = word_of_nat n"
proof -
  assume "n < 128"
  then have "take_bit 7 n = n" by (simp add: take_bit_nat_eq_self)
  then have "take_bit 7 (word_of_nat n :: u8) = word_of_nat n" by (simp add: take_bit_of_nat)
  moreover have "(0x7F :: u8) = mask 7" by (simp add: mask_eq_exp_minus_1)
  ultimately show ?thesis by (simp add: take_bit_eq_mask)
qed

lemma low7_header: "n < 128 \<Longrightarrow> (mask_flag m OR word_of_nat n) AND 0x7F = word_of_nat n"
  by (simp add: mask_flag_def bit.conj_disj_distrib2 low7_word_of_nat)

lemma masked_header: "n < 128 \<Longrightarrow> frame_masked (mask_flag m OR word_of_nat n) = m"
proof -
  assume n: "n < 128"
  then have "(word_of_nat n :: u8) AND 0x80 = word_of_nat n AND (0x7F AND 0x80)"
    by (metis and.assoc low7_word_of_nat)
  then have "(word_of_nat n :: u8) AND 0x80 = 0" by simp
  then show ?thesis
    by (simp add: frame_masked_def mask_flag_def bit.conj_disj_distrib2)
qed

lemma header_simps:
  assumes "n < 126"
  shows "ext_size (mask_flag m OR word_of_nat n) = 0"
    and "frame_len (mask_flag m OR word_of_nat n) [] = n"
proof -
  have n: "unat (word_of_nat n :: u8) = n" using assms by (simp add: unat_of_nat)
  then have "(word_of_nat n :: u8) \<noteq> 126" "(word_of_nat n :: u8) \<noteq> 127"
    using assms by auto
  then show e: "ext_size (mask_flag m OR word_of_nat n) = 0"
    using assms by (simp add: ext_size_def low7_header)
  show "frame_len (mask_flag m OR word_of_nat n) [] = n"
    using assms n by (simp add: frame_len_def e low7_header)
qed

lemma header_126:
  "ext_size (mask_flag m OR 126) = 2" "frame_masked (mask_flag m OR 126) = m"
  using low7_header [of 126 m] masked_header [of 126 m] by (simp_all add: ext_size_def)

lemma header_127:
  "ext_size (mask_flag m OR 127) = 8" "frame_masked (mask_flag m OR 127) = m"
  using low7_header [of 127 m] masked_header [of 127 m] by (simp_all add: ext_size_def)

section \<open>A peer decodes what the client encodes\<close>

text \<open>The frame body after the length field.\<close>

definition frame_body :: "bool \<Rightarrow> u8 list \<Rightarrow> u8 list \<Rightarrow> u8 list" where
  "frame_body m key payload = (if m then key @ apply_mask key payload else payload)"

lemma decode_body:
  assumes "length key = 4" and "ext_size h1 = length ext" and "frame_masked h1 = m"
    and "frame_len h1 ext = length payload"
  shows "decode_frame (h0 # h1 # ext @ frame_body m key payload @ rest) =
     Some (\<lparr> wf_opcode = h0 AND 0x0F, wf_payload = payload, wf_fin = (h0 AND 0x80 \<noteq> 0) \<rparr>, rest)"
  using assms by (auto simp: frame_body_def mk_frame_def Let_def)

lemma first_byte:
  assumes "op AND 0x0F = op"
  shows "(0x80 OR op :: u8) AND 0x0F = op" and "(0x80 OR op :: u8) AND 0x80 \<noteq> 0"
proof -
  show "(0x80 OR op) AND 0x0F = op" using assms by (simp add: bit.conj_disj_distrib2)
  have "op AND 0x80 = op AND (0x0F AND 0x80)" by (metis assms and.assoc)
  then have "op AND 0x80 = 0" by simp
  then show "(0x80 OR op :: u8) AND 0x80 \<noteq> 0" by (simp add: bit.conj_disj_distrib2)
qed

lemma decode_EncodeWsFrame:
  assumes "op AND 0x0F = op" and "length key = 4" and "length payload < 2 ^ 64"
  shows "decode_frame (EncodeWsFrame op payload m key @ rest) =
     Some (\<lparr> wf_opcode = op, wf_payload = payload, wf_fin = True \<rparr>, rest)"
proof -
  have enc: "EncodeWsFrame op payload m key @ rest =
      (0x80 OR op) # length_field (mask_flag m) (length payload) @ frame_body m key payload @ rest"
    by (simp add: EncodeWsFrame_def mask_flag_def frame_body_def)
  note body = decode_body [OF assms(2), where ?h0.0 = "0x80 OR op" and m = m and payload = payload and rest = rest]
  consider "length payload < 126" | "126 \<le> length payload" "length payload \<le> 0xFFFF"
    | "0xFFFF < length payload" by linarith
  then show ?thesis
  proof cases
    case 1
    with body [of _ "[]"] masked_header [of "length payload" m] show ?thesis
      by (simp add: enc length_field_def header_simps first_byte [OF assms(1)] del: decode_frame.simps)
  next
    case 2
    with body [of _ "be_bytes 2 (length payload)"] show ?thesis
      by (simp add: enc length_field_def header_126 frame_len_def unat_be_value_2
          first_byte [OF assms(1)] del: decode_frame.simps)
  next
    case 3
    with assms(3) body [of _ "be_bytes 8 (length payload)"] show ?thesis
      by (simp add: enc length_field_def header_127 frame_len_def unat_be_value_8
          first_byte [OF assms(1)] del: decode_frame.simps)
  qed
qed

section \<open>URL splitting\<close>

lemma find_first_sep:
  "x \<notin> set k \<Longrightarrow> find_first ((=) x) (k @ x # v) = Some (length k)"
  by (induction k) auto

lemma find_first_absent: "x \<notin> set k \<Longrightarrow> find_first ((=) x) k = None"
  by (induction k) auto

lemma rfind_char_absent: "rfind_char x k = None \<longleftrightarrow> x \<notin> set k"
  by (induction k) (auto split: option.split)

lemma rfind_char_sep: "x \<notin> set v \<Longrightarrow> rfind_char x (k @ x # v) = Some (length k)"
proof (induction k)
  case Nil
  then have "rfind_char x v = None" by (simp add: rfind_char_absent)
  then show ?case by simp
qed simp

lemma digit_not_special: "is_digit c \<Longrightarrow> \<not> isspace c \<and> c \<noteq> CHR ''-'' \<and> c \<noteq> CHR ''+''"
  by (auto simp: is_digit_def isspace_def char_code_def)

lemma stoi_to_string: "0 \<le> p \<Longrightarrow> p < 2 ^ 31 \<Longrightarrow> stoi (to_string p) = Some p"
proof -
  assume p: "0 \<le> p" "p < 2 ^ 31"
  let ?s = "to_string_nat (nat p)"
  have s: "to_string p = ?s" using p by (simp add: to_string_def)
  have digits: "\<forall>c\<in>set ?s. is_digit c" by (auto dest: to_string_nat_digits)
  then have "is_digit (hd ?s)" by simp
  with digit_not_special have hd: "\<not> isspace (hd ?s)" "hd ?s \<noteq> CHR ''-''" "hd ?s \<noteq> CHR ''+''" by auto
  have skip: "dropWhile isspace ?s = ?s" using hd(1) by (intro dropWhile_id_hd) simp
  have "takeWhile is_digit ?s = ?s" using digits by simp
  then show ?thesis
    unfolding stoi_def s Let_def skip using hd p
    by (simp only: if_False simp_thms nat_of_digits_to_string_nat to_string_nat_nonempty) simp
qed

definition host_name :: "string \<Rightarrow> bool" where
  "host_name h \<longleftrightarrow> h \<noteq> [] \<and> CHR ''/'' \<notin> set h \<and> CHR '':'' \<notin> set h \<and> CHR '']'' \<notin> set h"

lemma split_authority_port:
  assumes "host_name h" and "0 \<le> p" and "p < 2 ^ 31"
  shows "split_authority secure dflt (h @ '':'' @ to_string p @ ''/'' @ path) =
    Inr \<lparr> up_secure = secure, up_host = h, up_port = p, up_target = CHR ''/'' # path \<rparr>"
proof -
  have plain: "x \<notin> set (to_string p)" if "\<not> is_digit x" "x \<noteq> CHR ''-''" for x
    using to_string_chars [of x p] that by auto
  have sp: "CHR ''/'' \<notin> set (to_string p)" "CHR '':'' \<notin> set (to_string p)" "CHR '']'' \<notin> set (to_string p)"
    by (rule plain; simp add: is_digit_def char_code_def)+
  let ?a = "h @ '':'' @ to_string p"
  have "find_first ((=) (CHR ''/'')) (?a @ CHR ''/'' # path) = Some (length ?a)"
    using assms(1) sp by (intro find_first_sep) (auto simp: host_name_def)
  moreover have "rfind_char (CHR '':'') ?a = Some (length h)"
    using rfind_char_sep [OF sp(2), of h] by simp
  moreover have "find_first ((=) (CHR '']'')) ?a = None"
    using assms(1) sp by (intro find_first_absent) (auto simp: host_name_def)
  ultimately show ?thesis
    using assms by (simp add: split_authority_def Let_def substr_upto_def stoi_to_string host_name_def)
qed

lemma split_authority_default:
  assumes "host_name h"
  shows "split_authority secure dflt (h @ ''/'' @ path) =
    Inr \<lparr> up_secure = secure, up_host = h, up_port = dflt, up_target = CHR ''/'' # path \<rparr>"
proof -
  have "find_first ((=) (CHR ''/'')) (h @ CHR ''/'' # path) = Some (length h)"
    using assms by (intro find_first_sep) (auto simp: host_name_def)
  moreover have "rfind_char (CHR '':'') h = None" using assms by (simp add: host_name_def rfind_char_absent)
  ultimately show ?thesis
    using assms by (simp add: split_authority_def Let_def substr_upto_def host_name_def)
qed

section \<open>Properties\<close>

text \<open>
  Claim C14. Every frame the client encodes, of any opcode, payload length up to the limit of
  the protocol and masking key, is decoded by the peer to the same opcode and payload as a
  final frame, and the bytes after it are left untouched, so that frames sent one after
  the other stay in step; the header adds at most 14 bytes, which the encoder reserves.
\<close>

theorem EncodeWsFrame_roundtrip:
  assumes "op AND 0x0F = op" and "length key = 4" and "length payload < 2 ^ 64"
  shows "decode_frame (EncodeWsFrame op payload m key @ rest) =
           Some (\<lparr> wf_opcode = op, wf_payload = payload, wf_fin = True \<rparr>, rest) \<and>
         length (EncodeWsFrame op payload m key) \<le> length payload + 14"
  using decode_EncodeWsFrame [OF assms] assms(2)
  by (simp add: EncodeWsFrame_def length_field_def)

theorem EncodeWsFrame_roundtrip_witness:
  "decode_frame (EncodeWsFrame 1 (replicate 300 7) True [1, 2, 3, 4] @ [9]) =
     Some (\<lparr> wf_opcode = 1, wf_payload = replicate 300 7, wf_fin = True \<rparr>, [9])"
  using EncodeWsFrame_roundtrip [of 1 "[1, 2, 3, 4]" "replicate 300 7" True "[9]"] by simp

text \<open>
  A realtime URL is split into its parts: scheme, host, port and request target,
  with 443 and 80 as default ports; a URL of another scheme is refused.
\<close>

lemma ParseWsUrl_components:
  assumes "host_name h" and "0 \<le> p" and "p < 2 ^ 31"
  shows "ParseWsUrl ((if secure then ''wss://'' else ''ws://'') @ h @ '':'' @ to_string p @ ''/'' @ path) =
           Inr \<lparr> up_secure = secure, up_host = h, up_port = p, up_target = CHR ''/'' # path \<rparr> \<and>
         ParseWsUrl ((if secure then ''wss://'' else ''ws://'') @ h @ ''/'' @ path) =
           Inr \<lparr> up_secure = secure, up_host = h, up_port = (if secure then 443 else 80),
                 up_target = CHR ''/'' # path \<rparr> \<and>
         ParseWsUrl (''https://'' @ path) = Inl ''unsupported scheme, want ws or wss''"
  using split_authority_port [OF assms] split_authority_default [OF assms(1)]
  by (simp add: ParseWsUrl_def)

lemma nth_uuid_bytes:
  "uuid_bytes r0 r1 ! 6 = (ucast (drop_bit 48 r0) AND 0x0F) OR 0x40"
  "uuid_bytes r0 r1 ! 8 = (ucast r1 AND 0x3F) OR 0x80"
  by (simp_all add: uuid_bytes_def le_bytes_def Let_def nth_append)

lemma length_uuid_bytes [simp]: "length (uuid_bytes r0 r1) = 16"
  by (simp add: uuid_bytes_def le_bytes_def Let_def)

lemma list_16: "length xs = 16 \<Longrightarrow> xs = map ((!) xs) [0,1,2,3,4,5,6,7,8,9,10,11,12,13,14,15]"
proof -
  have up: "[0..<16] = [0,1,2,3,4,5,6,7,8,9,10,11,12,13,14,15]" by code_simp
  assume "length xs = 16"
  with map_nth [of xs] show ?thesis by (simp only: up)
qed

lemma uuid_layout:
  "GenerateUuid r0 r1 =
     (let b = (\<lambda>i. hex2 (uuid_bytes r0 r1 ! i))
      in b 0 @ b 1 @ b 2 @ b 3 @ ''-'' @ b 4 @ b 5 @ ''-'' @ b 6 @ b 7 @ ''-'' @ b 8 @ b 9 @ ''-'' @
         b 10 @ b 11 @ b 12 @ b 13 @ b 14 @ b 15)"
  unfolding GenerateUuid_def Let_def
  by (subst (1 2 3 4 5) list_16 [OF length_uuid_bytes, of r0 r1]) simp

lemma unat_high_nibble: "unat (drop_bit 4 (w :: u8)) = unat w div 16"
  using unat_drop_bit_eq [of 4 w] drop_bit_eq_div [of 4 "unat w"] by simp

lemma version_nibble: "unat ((x AND 0x0F) OR 0x40 :: u8) div 16 = 4"
proof -
  have "drop_bit 4 ((x AND 0x0F) OR 0x40 :: u8) = 4"
    by (rule byte_eqI) (simp_all add: bit_simps bit_u8_high)
  then have "unat (drop_bit 4 ((x AND 0x0F) OR 0x40 :: u8)) = unat (4 :: u8)" by (simp only:)
  then show ?thesis by (simp only: unat_high_nibble) simp
qed

lemma variant_nibble: "unat ((x AND 0x3F) OR 0x80 :: u8) div 16 \<in> {8, 9, 10, 11}"
proof -
  let ?y = "take_bit 2 (drop_bit 4 x)"
  have d: "drop_bit 4 ((x AND 0x3F) OR 0x80 :: u8) = ?y OR 8"
    by (rule byte_eqI) (simp_all add: bit_simps bit_u8_high)
  have "unat ((x AND 0x3F) OR 0x80 :: u8) div 16 = unat ?y OR 8"
    unfolding unat_high_nibble [symmetric] d by (simp add: unsigned_or_eq)
  moreover have "unat ?y < 4"
    using take_bit_nat_less_exp [of 2 "unat (drop_bit 4 x)"] by (simp add: unsigned_take_bit_eq)
  then have "unat ?y = 0 \<or> unat ?y = 1 \<or> unat ?y = 2 \<or> unat ?y = 3" by linarith
  ultimately show ?thesis by auto
qed

lemma unat_u8_nibble: "unat (b :: u8) div 16 < 16"
proof -
  have "unat b < 16 * 16" using unsigned_less [of b, where ?'a = nat] by simp
  then show ?thesis by (rule less_mult_imp_div_less)
qed

lemma hex2_chars: "set (hex2 b) \<subseteq> set ''0123456789abcdef''"
proof -
  have l: "length ''0123456789abcdef'' = 16" by simp
  have "''0123456789abcdef'' ! (unat b div 16) \<in> set ''0123456789abcdef''"
    using unat_u8_nibble [of b] l by (intro nth_mem) simp
  moreover have "''0123456789abcdef'' ! (unat b mod 16) \<in> set ''0123456789abcdef''"
    using l by (intro nth_mem) simp
  ultimately show ?thesis unfolding hex2_def by simp
qed


end
