(* ===== verification/WsIO.thy ===== *)
theory WsIO
  imports WsFrame Base64
begin

text \<open>
  The transport operations of \<^verbatim>\<open>src/ws_client.cc\<close>: \<^verbatim>\<open>PollFd\<close>, \<^verbatim>\<open>WriteAll\<close>, \<^verbatim>\<open>ReadExact\<close>,
  \<^verbatim>\<open>Read\<close>, \<^verbatim>\<open>SendText\<close>, \<^verbatim>\<open>SendBinary\<close>, \<^verbatim>\<open>TcpConnect\<close> and \<^verbatim>\<open>Connect\<close>. The operating system
  and OpenSSL answer the calls from the list \<open>ws_env\<close>, one answer per call in program order;
  an operation whose next answer is missing or is not one this call can get has the value
  None: it does not return. Every loop of the source consumes answers, so the loops are
  total functions. \<open>ws_out\<close> collects the bytes the transport has accepted and \<open>ws_in\<close>
  those it has delivered.
\<close>

section \<open>Calls and their answers\<close>

datatype sys =
    NowMs int
  | PollAns int bool bool bool    \<comment> \<open>result, EINTR, POLLERR or POLLNVAL, a requested event\<close>
  | SendOk nat
  | SendErr int
  | SslWrote nat
  | SslWriteErr int
  | RecvData "u8 list"
  | RecvErr int
  | SslPending int
  | SslGot "u8 list"
  | SslReadErr int int            \<comment> \<open>SSL error, errno\<close>
  | Errno int
  | Rand "u8 list"
  | AddrInfo int nat              \<comment> \<open>result, number of addresses\<close>
  | SocketAns bool int            \<comment> \<open>created, errno\<close>
  | ConnectAns int int            \<comment> \<open>result, errno\<close>
  | SoError int
  | SslCtx bool
  | SslConnectOk
  | SslConnectErr int string      \<comment> \<open>SSL error, its text\<close>

record ws =
  ws_ssl :: bool
  ws_read_buf :: "u8 list"
  ws_write_timeout :: int
  ws_last_err :: string
  ws_shutdown :: bool
  ws_env :: "sys list"
  ws_out :: "u8 list"
  ws_in :: "u8 list"

type_synonym 'a io = "ws \<Rightarrow> ('a \<times> ws) option"

definition EINTR :: int where "EINTR = 4"
definition EAGAIN :: int where "EAGAIN = 11"
definition EINPROGRESS :: int where "EINPROGRESS = 115"
definition ETIMEDOUT :: int where "ETIMEDOUT = 110"
definition SSL_ERROR_WANT_READ :: int where "SSL_ERROR_WANT_READ = 2"
definition SSL_ERROR_WANT_WRITE :: int where "SSL_ERROR_WANT_WRITE = 3"
definition SSL_ERROR_ZERO_RETURN :: int where "SSL_ERROR_ZERO_RETURN = 6"
definition kFrameReadBudgetMs :: int where "kFrameReadBudgetMs = 10000"

text \<open>Functions of the C library and of OpenSSL the messages and the handshake use.\<close>

record os_lib =
  strerror :: "int \<Rightarrow> string"
  gai_strerror :: "int \<Rightarrow> string"
  sha1 :: "u8 list \<Rightarrow> u8 list"

definition ask :: "(sys \<Rightarrow> 'a option) \<Rightarrow> 'a io" where
  "ask f s =
     (case ws_env s of
        [] \<Rightarrow> None
      | a # e \<Rightarrow> (case f a of None \<Rightarrow> None | Some x \<Rightarrow> Some (x, s \<lparr> ws_env := e \<rparr>)))"

definition now_ms :: "int io" where
  "now_ms = ask (\<lambda>a. case a of NowMs t \<Rightarrow> Some t | _ \<Rightarrow> None)"

definition ssl_pending :: "int io" where
  "ssl_pending = ask (\<lambda>a. case a of SslPending p \<Rightarrow> Some p | _ \<Rightarrow> None)"

definition get_errno :: "int io" where
  "get_errno = ask (\<lambda>a. case a of Errno e \<Rightarrow> Some e | _ \<Rightarrow> None)"

definition rand_bytes :: "nat \<Rightarrow> u8 list io" where
  "rand_bytes n = ask (\<lambda>a. case a of Rand bs \<Rightarrow> if length bs = n then Some bs else None | _ \<Rightarrow> None)"

text \<open>\<^verbatim>\<open>static_cast<int>(deadline - NowMs())\<close>\<close>

definition remaining :: "int \<Rightarrow> int \<Rightarrow> int" where
  "remaining deadline t = signed_take_bit 31 (deadline - t)"

fun poll_loop :: "sys list \<Rightarrow> (int \<times> sys list) option" where
  "poll_loop (PollAns rc eintr err ready # e) =
     (if rc < 0 \<and> eintr then poll_loop e
      else if rc \<le> 0 then Some (rc, e)
      else if err then Some (- 1, e)
      else if \<not> ready then Some (- 1, e)
      else Some (1, e))"
| "poll_loop _ = None"

definition PollFd :: "int io" where
  "PollFd s = map_option (\<lambda>(rc, e). (rc, s \<lparr> ws_env := e \<rparr>)) (poll_loop (ws_env s))"

section \<open>Writing\<close>

datatype write_step = Wrote nat | WRetry | WFail string

text \<open>One \<^verbatim>\<open>SSL_write\<close> or \<^verbatim>\<open>send\<close> of the rest of the buffer.\<close>

definition write_some :: "os_lib \<Rightarrow> u8 list \<Rightarrow> write_step io" where
  "write_some os buf s =
     (case ws_env s of
        SslWrote k # e \<Rightarrow>
          if ws_ssl s \<and> 0 < k \<and> k \<le> length buf
          then Some (Wrote k, s \<lparr> ws_env := e, ws_out := ws_out s @ take k buf \<rparr>) else None
      | SslWriteErr x # e \<Rightarrow>
          if ws_ssl s
          then Some (if x = SSL_ERROR_WANT_WRITE then WRetry else WFail ''tls write failed'', s \<lparr> ws_env := e \<rparr>)
          else None
      | SendOk k # e \<Rightarrow>
          if \<not> ws_ssl s \<and> k \<le> length buf
          then Some (Wrote k, s \<lparr> ws_env := e, ws_out := ws_out s @ take k buf \<rparr>) else None
      | SendErr x # e \<Rightarrow>
          if \<not> ws_ssl s
          then Some (if x = EINTR \<or> x = EAGAIN then WRetry
                     else WFail (''socket write failed: '' @ strerror os x), s \<lparr> ws_env := e \<rparr>)
          else None
      | _ \<Rightarrow> None)"

text \<open>Every call takes an answer from the environment.\<close>

definition env_size :: "ws \<Rightarrow> nat" where
  "env_size s = length (ws_env s)"

lemma ask_env: "ask f s = Some (x, s') \<Longrightarrow> \<exists>a e. ws_env s = a # e \<and> f a = Some x \<and> s' = s \<lparr> ws_env := e \<rparr>"
  by (auto simp: ask_def split: list.splits option.splits)

lemma ask_size: "ask f s = Some (x, s') \<Longrightarrow> env_size s' < env_size s"
  by (drule ask_env) (auto simp: env_size_def)

lemma now_size: "now_ms s = Some (t, s') \<Longrightarrow> env_size s' < env_size s"
  unfolding now_ms_def by (rule ask_size)

lemma poll_loop_size: "poll_loop e = Some (rc, e') \<Longrightarrow> length e' < length e"
  by (induction e rule: poll_loop.induct) (auto split: if_splits)

lemma PollFd_size: "PollFd s = Some (rc, s') \<Longrightarrow> env_size s' < env_size s"
  by (auto simp: PollFd_def env_size_def dest: poll_loop_size)

lemma write_some_size: "write_some os buf s = Some (r, s') \<Longrightarrow> env_size s' < env_size s"
  by (auto simp: write_some_def env_size_def split: list.splits sys.splits if_splits)

text \<open>One pass of a loop either leaves it with a result or goes on with a new loop state.\<close>

datatype ('r, 'x) pass = Stop 'r | More 'x

definition write_pass :: "os_lib \<Rightarrow> int \<Rightarrow> u8 list \<Rightarrow> (string option, u8 list) pass io" where
  "write_pass os deadline buf s =
     (if buf = [] then Some (Stop None, s)
      else case now_ms s of
        None \<Rightarrow> None
      | Some (t, s1) \<Rightarrow>
          if remaining deadline t \<le> 0 then Some (Stop (Some ''write timeout''), s1)
          else (case PollFd s1 of
            None \<Rightarrow> None
          | Some (rc, s2) \<Rightarrow>
              if rc \<noteq> 1 then Some (Stop (Some ''write poll failed or timed out''), s2)
              else (case write_some os buf s2 of
                None \<Rightarrow> None
              | Some (WRetry, s3) \<Rightarrow> Some (More buf, s3)
              | Some (WFail e, s3) \<Rightarrow> Some (Stop (Some e), s3)
              | Some (Wrote k, s3) \<Rightarrow> Some (More (drop k buf), s3))))"

lemma write_pass_size:
  "write_pass os d buf s = Some (r, s') \<Longrightarrow>
     env_size s' \<le> env_size s \<and> (\<forall>b. r = More b \<longrightarrow> env_size s' < env_size s)"
  unfolding write_pass_def
  by (auto split: if_splits option.splits prod.splits write_step.splits
      dest!: now_size PollFd_size write_some_size)

function write_loop :: "os_lib \<Rightarrow> int \<Rightarrow> u8 list \<Rightarrow> string option io" where
  "write_loop os deadline buf s =
     (case write_pass os deadline buf s of
        None \<Rightarrow> None
      | Some (Stop r, s') \<Rightarrow> Some (r, s')
      | Some (More buf', s') \<Rightarrow> write_loop os deadline buf' s')"
  by pat_completeness auto
termination
  by (relation "measure (\<lambda>(os, deadline, buf, s). env_size s)") (auto dest!: write_pass_size)

declare write_loop.simps [simp del]

text \<open>None: everything was written; \<open>Some e\<close>: \<^verbatim>\<open>false\<close> with the error text \<open>e\<close>.\<close>

definition WriteAll :: "os_lib \<Rightarrow> u8 list \<Rightarrow> int \<Rightarrow> string option io" where
  "WriteAll os buf timeout_ms s =
     (case now_ms s of
        None \<Rightarrow> None
      | Some (t, s1) \<Rightarrow> write_loop os (t + timeout_ms) buf s1)"

section \<open>Reading\<close>

datatype read_step = Got "u8 list" | RRetry | RFail

text \<open>
  \<^verbatim>\<open>SSL_read\<close> reported the peer's close while data is still buffered: read what is pending.
  Otherwise the read has failed and \<^verbatim>\<open>last_read_err_\<close> is set.
\<close>

definition ssl_read_failed :: "int \<Rightarrow> int \<Rightarrow> read_step io" where
  "ssl_read_failed x en s =
     Some (RFail, s \<lparr> ws_last_err := ''SSL_read failed, ssl_err='' @ to_string x @
       '', errno='' @ to_string en \<rparr>)"

definition drain_pending :: "nat \<Rightarrow> int \<Rightarrow> int \<Rightarrow> read_step io" where
  "drain_pending n x en s =
     (case ssl_pending s of
        None \<Rightarrow> None
      | Some (p1, s1) \<Rightarrow>
          if p1 \<le> 0 then ssl_read_failed x en s1
          else (case ssl_pending s1 of
            None \<Rightarrow> None
          | Some (p2, s2) \<Rightarrow>
              (case ws_env s2 of
                 SslGot bs # e \<Rightarrow>
                   if bs \<noteq> [] \<and> length bs \<le> min n (nat p2)
                   then Some (Got bs, s2 \<lparr> ws_env := e, ws_in := ws_in s2 @ bs \<rparr>) else None
               | SslReadErr x2 en2 # e \<Rightarrow> ssl_read_failed x en2 (s2 \<lparr> ws_env := e \<rparr>)
               | _ \<Rightarrow> None)))"

text \<open>One \<^verbatim>\<open>SSL_read\<close> or \<^verbatim>\<open>recv\<close> of at most \<open>n\<close> bytes.\<close>

definition read_some :: "nat \<Rightarrow> read_step io" where
  "read_some n s =
     (case ws_env s of
        SslGot bs # e \<Rightarrow>
          if ws_ssl s \<and> bs \<noteq> [] \<and> length bs \<le> n
          then Some (Got bs, s \<lparr> ws_env := e, ws_in := ws_in s @ bs \<rparr>) else None
      | SslReadErr x en # e \<Rightarrow>
          if ws_ssl s
          then (if x = SSL_ERROR_WANT_READ then Some (RRetry, s \<lparr> ws_env := e \<rparr>)
                else if x = SSL_ERROR_ZERO_RETURN then drain_pending n x en (s \<lparr> ws_env := e \<rparr>)
                else ssl_read_failed x en (s \<lparr> ws_env := e \<rparr>))
          else None
      | RecvData bs # e \<Rightarrow>
          if \<not> ws_ssl s \<and> length bs \<le> n
          then Some (if bs = [] then RFail else Got bs, s \<lparr> ws_env := e, ws_in := ws_in s @ bs \<rparr>)
          else None
      | RecvErr x # e \<Rightarrow>
          if \<not> ws_ssl s
          then Some (if x = EINTR \<or> x = EAGAIN then RRetry else RFail, s \<lparr> ws_env := e \<rparr>)
          else None
      | _ \<Rightarrow> None)"

text \<open>\<^verbatim>\<open>SSL_pending\<close> is asked on a TLS connection only.\<close>

definition pending_bytes :: "int io" where
  "pending_bytes s = (if ws_ssl s then ssl_pending s else Some (0, s))"

definition poll_unless :: "bool \<Rightarrow> int io" where
  "poll_unless skip s = (if skip then Some (1, s) else PollFd s)"

definition io_size :: "ws \<Rightarrow> nat" where
  "io_size s = env_size s + length (ws_read_buf s)"

lemma ask_frame:
  "ask f s = Some (x, s') \<Longrightarrow> ws_read_buf s' = ws_read_buf s \<and> ws_in s' = ws_in s \<and> ws_out s' = ws_out s \<and>
     ws_ssl s' = ws_ssl s"
  by (drule ask_env) auto

lemma now_io: "now_ms s = Some (t, s') \<Longrightarrow> io_size s' < io_size s"
  unfolding now_ms_def io_size_def by (frule ask_size) (auto dest: ask_frame)

lemma PollFd_frame:
  "PollFd s = Some (rc, s') \<Longrightarrow> ws_read_buf s' = ws_read_buf s \<and> ws_in s' = ws_in s \<and> ws_out s' = ws_out s \<and>
     ws_ssl s' = ws_ssl s"
  by (auto simp: PollFd_def)

lemma PollFd_io: "PollFd s = Some (rc, s') \<Longrightarrow> io_size s' < io_size s"
  unfolding io_size_def by (frule PollFd_size) (auto dest: PollFd_frame)

lemma ssl_pending_io: "ssl_pending s = Some (p, s') \<Longrightarrow> io_size s' < io_size s"
  unfolding ssl_pending_def io_size_def by (frule ask_size) (auto dest: ask_frame)

lemma pending_bytes_io: "pending_bytes s = Some (p, s') \<Longrightarrow> io_size s' \<le> io_size s"
  by (auto simp: pending_bytes_def split: if_splits dest: ssl_pending_io)

lemma poll_unless_io: "poll_unless b s = Some (rc, s') \<Longrightarrow> io_size s' \<le> io_size s"
  by (auto simp: poll_unless_def split: if_splits dest: PollFd_io)

lemma drain_pending_io: "drain_pending n x en s = Some (r, s') \<Longrightarrow> io_size s' < io_size s"
  unfolding drain_pending_def
  by (auto simp: ssl_read_failed_def io_size_def env_size_def
      split: option.splits list.splits sys.splits if_splits
      dest!: ssl_pending_io)

lemma read_some_io: "read_some n s = Some (r, s') \<Longrightarrow> io_size s' < io_size s"
  unfolding read_some_def
  by (auto simp: ssl_read_failed_def io_size_def env_size_def
      split: list.splits sys.splits if_splits
      dest!: drain_pending_io)

text \<open>
  One pass of \<^verbatim>\<open>ReadExact\<close> after \<open>acc\<close> has been copied to the caller's buffer. The result is
  the return code and the buffer's content.
\<close>

definition read_pass :: "nat \<Rightarrow> int \<Rightarrow> u8 list \<Rightarrow> (int \<times> u8 list, u8 list) pass io" where
  "read_pass n deadline acc s =
     (if n \<le> length acc then Some (Stop (1, acc), s)
      else if ws_read_buf s \<noteq> []
      then (let k = min (n - length acc) (length (ws_read_buf s))
            in Some (More (acc @ take k (ws_read_buf s)),
                     s \<lparr> ws_read_buf := drop k (ws_read_buf s) \<rparr>))
      else case pending_bytes s of
        None \<Rightarrow> None
      | Some (p, s1) \<Rightarrow>
          (case now_ms s1 of
             None \<Rightarrow> None
           | Some (t, s2) \<Rightarrow>
               if remaining deadline t \<le> 0 then Some (Stop (0, acc), s2)
               else (case poll_unless (p \<noteq> 0) s2 of
                  None \<Rightarrow> None
                | Some (prc, s3) \<Rightarrow>
                    if prc = 0 then Some (Stop (0, acc), s3)
                    else if prc < 0 then Some (Stop (- 1, acc), s3)
                    else (case read_some (n - length acc) s3 of
                       None \<Rightarrow> None
                     | Some (Got bs, s4) \<Rightarrow> Some (More (acc @ bs), s4)
                     | Some (RRetry, s4) \<Rightarrow> Some (More acc, s4)
                     | Some (RFail, s4) \<Rightarrow> Some (Stop (- 1, acc), s4)))))"

lemma read_pass_io:
  "read_pass n d acc s = Some (r, s') \<Longrightarrow>
     io_size s' \<le> io_size s \<and> (\<forall>b. r = More b \<longrightarrow> io_size s' < io_size s)"
  unfolding read_pass_def Let_def
  by (auto split: if_splits option.splits prod.splits read_step.splits
      dest!: now_io pending_bytes_io poll_unless_io read_some_io)
    (auto simp: io_size_def env_size_def)

function read_loop :: "nat \<Rightarrow> int \<Rightarrow> u8 list \<Rightarrow> (int \<times> u8 list) io" where
  "read_loop n deadline acc s =
     (case read_pass n deadline acc s of
        None \<Rightarrow> None
      | Some (Stop r, s') \<Rightarrow> Some (r, s')
      | Some (More acc', s') \<Rightarrow> read_loop n deadline acc' s')"
  by pat_completeness auto
termination
  by (relation "measure (\<lambda>(n, deadline, acc, s). io_size s)") (auto dest!: read_pass_io)

declare read_loop.simps [simp del]

definition ReadExact :: "nat \<Rightarrow> int \<Rightarrow> (int \<times> u8 list) io" where
  "ReadExact n deadline s = read_loop n deadline [] s"

section \<open>Frames\<close>

datatype read_iter = RDone int "WsFrame option" "string option" | RAgain

text \<open>\<^verbatim>\<open>fill_err(what)\<close>, and the suffix with \<^verbatim>\<open>last_read_err_\<close> that two call sites add.\<close>

definition fill_err :: "os_lib \<Rightarrow> string \<Rightarrow> string io" where
  "fill_err os what s =
     (case (if ws_ssl s
            then map_option (\<lambda>(p, s1). ('', pending='' @ to_string p, s1)) (ssl_pending s)
            else Some ([], s)) of
        None \<Rightarrow> None
      | Some (pend, s1) \<Rightarrow>
          map_option (\<lambda>(en, s2).
            (what @ pend @ '', errno='' @ to_string en @ '' ('' @ strerror os en @ '')'', s2))
            (get_errno s1))"

definition read_fail :: "os_lib \<Rightarrow> bool \<Rightarrow> string \<Rightarrow> bool \<Rightarrow> read_iter io" where
  "read_fail os want_err what with_last s =
     (if \<not> want_err then Some (RDone (- 1) None None, s)
      else map_option (\<lambda>(t, s1).
        (RDone (- 1) None (Some (t @ (if with_last \<and> ws_last_err s1 \<noteq> []
                                       then ''; '' @ ws_last_err s1 else []))), s1))
        (fill_err os what s))"

definition read_part :: "nat \<Rightarrow> int \<Rightarrow> (int \<times> u8 list) io" where
  "read_part n deadline s = (if n = 0 then Some ((1, []), s) else ReadExact n deadline s)"

text \<open>Answer a ping with a pong under the write lock; the outcome of the write is ignored.\<close>

definition send_pong :: "os_lib \<Rightarrow> int \<Rightarrow> u8 list \<Rightarrow> unit io" where
  "send_pong os deadline payload s =
     (case rand_bytes 4 s of
        None \<Rightarrow> None
      | Some (key, s1) \<Rightarrow>
          (case now_ms s1 of
             None \<Rightarrow> None
           | Some (t, s2) \<Rightarrow>
               map_option (\<lambda>(_, s3). ((), s3))
                 (WriteAll os (EncodeWsFrame 0xA payload True key) (remaining deadline t) s2)))"

definition kMaxFrame :: int where
  "kMaxFrame = 64 * 1024 * 1024"

text \<open>What follows the two header bytes: extended length, masking key and payload.\<close>

definition read_rest :: "os_lib \<Rightarrow> bool \<Rightarrow> int \<Rightarrow> int \<Rightarrow> u8 \<Rightarrow> u8 \<Rightarrow> read_iter io" where
  "read_rest os want_err deadline frame_deadline h0 h1 s =
     (case read_part (ext_size h1) frame_deadline s of
        None \<Rightarrow> None
      | Some ((rc, ext), s1) \<Rightarrow>
          if rc \<noteq> 1 then read_fail os want_err ''read extended length failed'' False s1
          else if int (frame_len h1 ext) > kMaxFrame
          then read_fail os want_err ''frame length exceeds sanity bound'' False s1
          else (case read_part (if frame_masked h1 then 4 else 0) frame_deadline s1 of
             None \<Rightarrow> None
           | Some ((rc, key), s2) \<Rightarrow>
               if rc \<noteq> 1 then read_fail os want_err ''read mask key failed'' False s2
               else (case read_part (frame_len h1 ext) frame_deadline s2 of
                  None \<Rightarrow> None
                | Some ((rc, payload), s3) \<Rightarrow>
                    if rc \<noteq> 1 then read_fail os want_err ''read payload failed'' True s3
                    else (let f = mk_frame h0 h1 key payload
                          in if wf_opcode f = 0x9
                             then map_option (\<lambda>(_, s4). (RAgain, s4)) (send_pong os deadline (wf_payload f) s3)
                             else if wf_opcode f = 0xA then Some (RAgain, s3)
                             else Some (RDone 1 (Some f) None, s3)))))"

text \<open>One pass of the loop in \<^verbatim>\<open>Read\<close>.\<close>

definition read_once :: "os_lib \<Rightarrow> bool \<Rightarrow> int \<Rightarrow> read_iter io" where
  "read_once os want_err deadline s =
     (case ReadExact 2 deadline s of
        None \<Rightarrow> None
      | Some ((rc, head), s1) \<Rightarrow>
          if rc = 1
          then (case now_ms s1 of
                  None \<Rightarrow> None
                | Some (t, s2) \<Rightarrow>
                    read_rest os want_err deadline (t + kFrameReadBudgetMs) (head ! 0) (head ! 1) s2)
          else if rc < 0 then read_fail os want_err ''read frame header failed'' True s1
          else Some (RDone rc None None, s1))"

text \<open>
  Both loops are reasoned about with an invariant of the passes and a condition that
  every leaving pass establishes.
\<close>

lemma read_loop_rule:
  assumes run: "read_loop n d acc s = Some (r, s')" and start: "I acc s"
    and more: "\<And>acc s acc1 s1. I acc s \<Longrightarrow> read_pass n d acc s = Some (More acc1, s1) \<Longrightarrow> I acc1 s1"
    and stop: "\<And>acc s r s1. I acc s \<Longrightarrow> read_pass n d acc s = Some (Stop r, s1) \<Longrightarrow> Q r s1"
  shows "Q r s'"
  using run start
proof (induction "io_size s" arbitrary: acc s rule: less_induct)
  case less
  from less.prems(1) obtain p s1 where p: "read_pass n d acc s = Some (p, s1)"
    by (subst (asm) read_loop.simps) (auto split: option.splits)
  show ?case
  proof (cases p)
    case (Stop r')
    with less.prems p have "r = r'" "s' = s1" by (simp_all add: read_loop.simps [of n d acc s])
    with stop less.prems(2) p Stop show ?thesis by blast
  next
    case (More acc1)
    with less.prems p have "read_loop n d acc1 s1 = Some (r, s')"
      by (simp add: read_loop.simps [of n d acc s])
    with less.hyps [of s1 acc1] more [OF less.prems(2)] p More read_pass_io [OF p]
    show ?thesis by blast
  qed
qed

lemma write_loop_rule:
  assumes run: "write_loop os d buf s = Some (r, s')" and start: "I buf s"
    and more: "\<And>buf s buf1 s1. I buf s \<Longrightarrow> write_pass os d buf s = Some (More buf1, s1) \<Longrightarrow> I buf1 s1"
    and stop: "\<And>buf s r s1. I buf s \<Longrightarrow> write_pass os d buf s = Some (Stop r, s1) \<Longrightarrow> Q r s1"
  shows "Q r s'"
  using run start
proof (induction "env_size s" arbitrary: buf s rule: less_induct)
  case less
  from less.prems(1) obtain p s1 where p: "write_pass os d buf s = Some (p, s1)"
    by (subst (asm) write_loop.simps) (auto split: option.splits)
  show ?case
  proof (cases p)
    case (Stop r')
    with less.prems p have "r = r'" "s' = s1" by (simp_all add: write_loop.simps [of os d buf s])
    with stop less.prems(2) p Stop show ?thesis by blast
  next
    case (More buf1)
    with less.prems p have "write_loop os d buf1 s1 = Some (r, s')"
      by (simp add: write_loop.simps [of os d buf s])
    with less.hyps [of s1 buf1] more [OF less.prems(2)] p More write_pass_size [OF p]
    show ?thesis by blast
  qed
qed

lemma read_loop_io: "read_loop n d acc s = Some (r, s') \<Longrightarrow> io_size s' \<le> io_size s"
  by (erule read_loop_rule [where I = "\<lambda>_ s1. io_size s1 \<le> io_size s"])
    (auto dest!: read_pass_io)

lemma read_part_io: "read_part n d s = Some (r, s') \<Longrightarrow> io_size s' \<le> io_size s"
  by (auto simp: read_part_def ReadExact_def split: if_splits dest: read_loop_io)

text \<open>Writing leaves the receiving side alone and emits a prefix of the buffer.\<close>

definition same_input :: "ws \<Rightarrow> ws \<Rightarrow> bool" where
  "same_input s s' \<longleftrightarrow> ws_read_buf s' = ws_read_buf s \<and> ws_in s' = ws_in s \<and> ws_ssl s' = ws_ssl s \<and>
     ws_last_err s' = ws_last_err s"

lemma same_input_refl [simp]: "same_input s s"
  by (simp add: same_input_def)

lemma same_input_trans: "same_input s t \<Longrightarrow> same_input t u \<Longrightarrow> same_input s u"
  by (simp add: same_input_def)

lemma now_frame: "now_ms s = Some (t, s') \<Longrightarrow> same_input s s' \<and> ws_out s' = ws_out s"
  unfolding now_ms_def by (drule ask_env) (auto simp: same_input_def)

lemma PollFd_same: "PollFd s = Some (rc, s') \<Longrightarrow> same_input s s' \<and> ws_out s' = ws_out s"
  by (auto simp: PollFd_def same_input_def)

lemma write_some_effect:
  "write_some os buf s = Some (r, s') \<Longrightarrow>
     same_input s s' \<and>
     (case r of Wrote k \<Rightarrow> k \<le> length buf \<and> ws_out s' = ws_out s @ take k buf | _ \<Rightarrow> ws_out s' = ws_out s)"
  by (auto simp: write_some_def same_input_def split: list.splits sys.splits if_splits)

lemma write_pass_effect:
  assumes "write_pass os d buf s = Some (p, s')"
  shows "same_input s s' \<and>
    (case p of
       More buf' \<Rightarrow> ws_out s' @ buf' = ws_out s @ buf
     | Stop None \<Rightarrow> buf = [] \<and> ws_out s' = ws_out s
     | Stop (Some e) \<Rightarrow> buf \<noteq> [] \<and> ws_out s' = ws_out s)"
  using assms unfolding write_pass_def
  by (auto split: if_splits option.splits prod.splits write_step.splits
      dest!: now_frame PollFd_same write_some_effect intro: same_input_trans)

lemma write_loop_effect:
  assumes "write_loop os d buf s = Some (r, s')"
  shows "same_input s s' \<and>
    (\<exists>rest. ws_out s' @ rest = ws_out s @ buf \<and> (rest = []) = (r = None))"
  by (rule write_loop_rule [OF assms,
        where I = "\<lambda>b t. same_input s t \<and> ws_out t @ b = ws_out s @ buf"])
    (auto dest!: write_pass_effect intro: same_input_trans split: option.splits)

lemma WriteAll_effect:
  assumes "WriteAll os buf timeout s = Some (r, s')"
  shows "same_input s s' \<and>
    (\<exists>rest. ws_out s' @ rest = ws_out s @ buf \<and> (rest = []) = (r = None))"
proof -
  from assms obtain t s1 where 1: "now_ms s = Some (t, s1)" and
    2: "write_loop os (t + timeout) buf s1 = Some (r, s')"
    by (auto simp: WriteAll_def split: option.splits)
  from now_frame [OF 1] write_loop_effect [OF 2] show ?thesis by (auto intro: same_input_trans)
qed

end
