(* ===== verification/WsClient.thy ===== *)
theory WsClient
  imports WsIO
begin

text \<open>
  \<^verbatim>\<open>WsClient::Read\<close>, \<^verbatim>\<open>SendText\<close>, \<^verbatim>\<open>SendBinary\<close>, \<^verbatim>\<open>Close\<close> and \<^verbatim>\<open>Connect\<close> with the TCP, TLS
  and HTTP upgrade steps, and the correctness of the reader: the bytes it takes from the
  transport are exactly the frames it reports.
\<close>

section \<open>Read\<close>

lemma WriteAll_io: "WriteAll os buf timeout s = Some (r, s') \<Longrightarrow> io_size s' \<le> io_size s"
proof -
  assume w: "WriteAll os buf timeout s = Some (r, s')"
  then obtain t s1 where 1: "now_ms s = Some (t, s1)" and
    2: "write_loop os (t + timeout) buf s1 = Some (r, s')"
    by (auto simp: WriteAll_def split: option.splits)
  have "env_size s' \<le> env_size s1"
    by (rule write_loop_rule [OF 2, where I = "\<lambda>_ u. env_size u \<le> env_size s1"])
      (auto dest!: write_pass_size)
  with now_size [OF 1] WriteAll_effect [OF w] show ?thesis
    by (simp add: io_size_def same_input_def)
qed

lemma rand_io: "rand_bytes n s = Some (k, s') \<Longrightarrow> io_size s' < io_size s"
  unfolding rand_bytes_def io_size_def by (frule ask_size) (auto dest: ask_frame)

lemma send_pong_io: "send_pong os d p s = Some (u, s') \<Longrightarrow> io_size s' \<le> io_size s"
  by (auto simp: send_pong_def split: option.splits prod.splits dest!: rand_io now_io WriteAll_io)

lemma fill_err_io: "fill_err os what s = Some (t, s') \<Longrightarrow> io_size s' < io_size s"
  unfolding fill_err_def get_errno_def
  by (auto split: option.splits if_splits dest!: ssl_pending_io ask_env simp: io_size_def env_size_def)

lemma read_fail_io: "read_fail os w what l s = Some (r, s') \<Longrightarrow> io_size s' \<le> io_size s"
  unfolding read_fail_def by (auto split: if_splits dest!: fill_err_io)

lemma read_rest_io: "read_rest os w d fd h0 h1 s = Some (r, s') \<Longrightarrow> io_size s' \<le> io_size s"
  unfolding read_rest_def Let_def
  by (auto split: option.splits prod.splits if_splits
      dest!: read_part_io read_fail_io send_pong_io)

lemma read_once_io:
  assumes "read_once os w d s = Some (r, s')"
  shows "io_size s' \<le> io_size s \<and> (r = RAgain \<longrightarrow> io_size s' < io_size s)"
proof -
  from assms obtain rc head s1 where 1: "ReadExact 2 d s = Some ((rc, head), s1)"
    by (auto simp: read_once_def split: option.splits)
  then have s1: "io_size s1 \<le> io_size s" by (auto simp: ReadExact_def dest: read_loop_io)
  show ?thesis
  proof (cases "rc = 1")
    case True
    with assms 1 s1 show ?thesis
      by (auto simp: read_once_def split: option.splits prod.splits dest!: now_io read_rest_io)
  next
    case False
    have "read_fail os w what l s1 = Some (RAgain, s') \<Longrightarrow> False" for what l
      by (auto simp: read_fail_def split: if_splits)
    with False assms 1 s1 show ?thesis
      by (auto simp: read_once_def split: if_splits dest: read_fail_io)
  qed
qed

function Read_loop :: "os_lib \<Rightarrow> bool \<Rightarrow> int \<Rightarrow> (int \<times> WsFrame option \<times> string option) io" where
  "Read_loop os want_err deadline s =
     (case read_once os want_err deadline s of
        None \<Rightarrow> None
      | Some (RDone rc f e, s') \<Rightarrow> Some ((rc, f, e), s')
      | Some (RAgain, s') \<Rightarrow> Read_loop os want_err deadline s')"
  by pat_completeness auto
termination
  by (relation "measure (\<lambda>(os, w, d, s). io_size s)") (auto dest!: read_once_io)

declare Read_loop.simps [simp del]

text \<open>The return code, the frame for code 1, and the error text for code -1.\<close>

definition Read :: "os_lib \<Rightarrow> bool \<Rightarrow> int \<Rightarrow> (int \<times> WsFrame option \<times> string option) io" where
  "Read os want_err timeout_ms s =
     (case now_ms s of
        None \<Rightarrow> None
      | Some (t, s1) \<Rightarrow> Read_loop os want_err (t + timeout_ms) s1)"

section \<open>Sending and closing\<close>

definition send_frame :: "os_lib \<Rightarrow> u8 \<Rightarrow> u8 list \<Rightarrow> string option io" where
  "send_frame os opcode payload s =
     (case rand_bytes 4 s of
        None \<Rightarrow> None
      | Some (key, s1) \<Rightarrow>
          WriteAll os (EncodeWsFrame opcode payload True key) (ws_write_timeout s1) s1)"

definition SendText :: "os_lib \<Rightarrow> string \<Rightarrow> string option io" where
  "SendText os text = send_frame os 0x1 (bytes_of text)"

definition SendBinary :: "os_lib \<Rightarrow> u8 list \<Rightarrow> string option io" where
  "SendBinary os data = send_frame os 0x2 data"

definition SetWriteTimeoutMs :: "int \<Rightarrow> ws \<Rightarrow> ws" where
  "SetWriteTimeoutMs t s = s \<lparr> ws_write_timeout := t \<rparr>"

definition Close :: "ws \<Rightarrow> ws" where
  "Close s = s \<lparr> ws_shutdown := True \<rparr>"

section \<open>Connect\<close>

text \<open>
  The loop over the resolved addresses, with the number of addresses left and the current
  \<^verbatim>\<open>errno\<close>: \<open>Inl e\<close> when none could be connected. The poll of a pending connect is not
  repeated on \<^verbatim>\<open>EINTR\<close>.
\<close>

fun tcp_try :: "nat \<Rightarrow> int \<Rightarrow> (int + unit) io" where
  "tcp_try 0 en s = Some (Inl en, s)"
| "tcp_try (Suc k) en s =
     (case ask (\<lambda>a. case a of SocketAns ok x \<Rightarrow> Some (ok, x) | _ \<Rightarrow> None) s of
        None \<Rightarrow> None
      | Some ((ok, x), s1) \<Rightarrow>
          if \<not> ok then tcp_try k x s1
          else (case ask (\<lambda>a. case a of ConnectAns rc x \<Rightarrow> Some (rc, x) | _ \<Rightarrow> None) s1 of
             None \<Rightarrow> None
           | Some ((rc, x), s2) \<Rightarrow>
               if rc = 0 then Some (Inr (), s2)
               else if rc < 0 \<and> x = EINPROGRESS
               then (case ask (\<lambda>a. case a of PollAns prc _ _ _ \<Rightarrow> Some prc | _ \<Rightarrow> None) s2 of
                       None \<Rightarrow> None
                     | Some (prc, s3) \<Rightarrow>
                         if prc > 0
                         then (case ask (\<lambda>a. case a of SoError e \<Rightarrow> Some e | _ \<Rightarrow> None) s3 of
                                 None \<Rightarrow> None
                               | Some (so, s4) \<Rightarrow>
                                   if so \<noteq> 0 then tcp_try k so s4 else Some (Inr (), s4))
                         else tcp_try k ETIMEDOUT s3)
               else tcp_try k x s2))"

definition TcpConnect :: "os_lib \<Rightarrow> (string + unit) io" where
  "TcpConnect os s =
     (case ask (\<lambda>a. case a of AddrInfo rc n \<Rightarrow> if rc = 0 \<and> n = 0 then None else Some (rc, n)
                    | _ \<Rightarrow> None) s of
        None \<Rightarrow> None
      | Some ((rc, n), s1) \<Rightarrow>
          if rc \<noteq> 0 then Some (Inl (''dns resolve failed: '' @ gai_strerror os rc), s1)
          else map_option (\<lambda>(r, s2).
            (case r of Inl en \<Rightarrow> Inl (''tcp connect failed: '' @ strerror os en) | Inr u \<Rightarrow> Inr u, s2))
            (tcp_try n 0 s1))"

text \<open>The TLS handshake: repeat \<^verbatim>\<open>SSL_connect\<close> while it wants to read or write.\<close>

fun tls_step :: "sys \<Rightarrow> (unit + int \<times> string) option" where
  "tls_step SslConnectOk = Some (Inl ())"
| "tls_step (SslConnectErr x text) = Some (Inr (x, text))"
| "tls_step _ = None"

function tls_loop :: "int \<Rightarrow> (string + unit) io" where
  "tls_loop deadline s =
     (case ask tls_step s of
        None \<Rightarrow> None
      | Some (Inl _, s1) \<Rightarrow> Some (Inr (), s1)
      | Some (Inr (x, text), s1) \<Rightarrow>
          if x = SSL_ERROR_WANT_READ \<or> x = SSL_ERROR_WANT_WRITE
          then (case now_ms s1 of
                  None \<Rightarrow> None
                | Some (t, s2) \<Rightarrow>
                    if remaining deadline t \<le> 0 then Some (Inl ''tls handshake timeout'', s2)
                    else (case PollFd s2 of
                            None \<Rightarrow> None
                          | Some (rc, s3) \<Rightarrow>
                              if rc \<noteq> 1 then Some (Inl ''tls handshake timeout'', s3)
                              else tls_loop deadline s3))
          else Some (Inl (''tls handshake failed: '' @ text), s1))"
  by pat_completeness auto
termination
  by (relation "measure (\<lambda>(d, s). env_size s)") (auto dest!: ask_size now_size PollFd_size)

declare tls_loop.simps [simp del]

definition crlf :: string where
  "crlf = [CHR 0x0D, CHR 0x0A]"

text \<open>Reading the response byte by byte up to the empty line.\<close>

function resp_loop :: "int \<Rightarrow> string \<Rightarrow> (string + string) io" where
  "resp_loop deadline resp s =
     (if find_str (crlf @ crlf) resp \<noteq> None then Some (Inr resp, s)
      else case now_ms s of
        None \<Rightarrow> None
      | Some (t, s1) \<Rightarrow>
          if remaining deadline t \<le> 0 then Some (Inl ''websocket handshake timeout'', s1)
          else (case ReadExact 1 deadline s1 of
                  None \<Rightarrow> None
                | Some ((rc, buf), s2) \<Rightarrow>
                    if rc \<noteq> 1 then Some (Inl ''websocket handshake read failed'', s2)
                    else if int (length resp) + 1 > 64 * 1024
                    then Some (Inl ''websocket handshake response too large'', s2)
                    else resp_loop deadline (resp @ [char_of_byte (buf ! 0)]) s2))"
  by pat_completeness auto
termination
  by (relation "measure (\<lambda>(d, resp, s). io_size s)")
    (auto simp: ReadExact_def dest!: now_io read_loop_io)

declare resp_loop.simps [simp del]

definition upgrade_request :: "UrlParts \<Rightarrow> string \<Rightarrow> string" where
  "upgrade_request parts key =
     ''GET '' @ up_target parts @ '' HTTP/1.1'' @ crlf @
     ''Host: '' @ up_host parts @ '':'' @ to_string (up_port parts) @ crlf @
     ''Upgrade: websocket'' @ crlf @
     ''Connection: Upgrade'' @ crlf @
     ''Sec-WebSocket-Key: '' @ key @ crlf @
     ''Sec-WebSocket-Version: 13'' @ crlf @ crlf"

definition accept_line :: "os_lib \<Rightarrow> string \<Rightarrow> string" where
  "accept_line os key =
     ''Sec-WebSocket-Accept: '' @
     Base64Encode (sha1 os (bytes_of (key @ ''258EAFA5-E914-47DA-95CA-C5AB0DC85B11'')))"

definition check_upgrade :: "os_lib \<Rightarrow> string \<Rightarrow> string \<Rightarrow> string option" where
  "check_upgrade os key resp =
     (if find_str '' 101'' resp = None
      then Some (''websocket handshake rejected: '' @ substr_upto resp (find_str crlf resp))
      else if find_str (accept_line os key) resp = None
      then Some ''websocket handshake accept key mismatch''
      else None)"

text \<open>The HTTP upgrade on an established connection.\<close>

definition upgrade :: "os_lib \<Rightarrow> UrlParts \<Rightarrow> int \<Rightarrow> (string + unit) io" where
  "upgrade os parts timeout_ms s =
     (case rand_bytes 16 s of
        None \<Rightarrow> None
      | Some (nonce, s1) \<Rightarrow>
          (let key = Base64Encode nonce in
           case WriteAll os (bytes_of (upgrade_request parts key)) timeout_ms s1 of
             None \<Rightarrow> None
           | Some (Some e, s2) \<Rightarrow> Some (Inl e, s2)
           | Some (None, s2) \<Rightarrow>
               (case now_ms s2 of
                  None \<Rightarrow> None
                | Some (t, s3) \<Rightarrow>
                    (case resp_loop (t + timeout_ms) [] s3 of
                       None \<Rightarrow> None
                     | Some (Inl e, s4) \<Rightarrow> Some (Inl e, s4)
                     | Some (Inr resp, s4) \<Rightarrow>
                         (case check_upgrade os key resp of
                            Some e \<Rightarrow> Some (Inl e, s4)
                          | None \<Rightarrow> Some (Inr (), s4))))))"

definition tls_setup :: "UrlParts \<Rightarrow> int \<Rightarrow> (string + unit) io" where
  "tls_setup parts timeout_ms s =
     (if \<not> up_secure parts then Some (Inr (), s)
      else case ask (\<lambda>a. case a of SslCtx ok \<Rightarrow> Some ok | _ \<Rightarrow> None) s of
        None \<Rightarrow> None
      | Some (ok, s1) \<Rightarrow>
          if \<not> ok then Some (Inl ''tls ctx init failed'', s1)
          else (case now_ms (s1 \<lparr> ws_ssl := True \<rparr>) of
                  None \<Rightarrow> None
                | Some (t, s2) \<Rightarrow> tls_loop (t + timeout_ms) s2))"

definition new_ws :: "sys list \<Rightarrow> ws" where
  "new_ws e = \<lparr> ws_ssl = False, ws_read_buf = [], ws_write_timeout = 30000, ws_last_err = [],
     ws_shutdown = False, ws_env = e, ws_out = [], ws_in = [] \<rparr>"

text \<open>\<open>Inl e\<close>: \<^verbatim>\<open>nullptr\<close> with the error text; the connection is shut down first.\<close>

definition Connect :: "os_lib \<Rightarrow> string \<Rightarrow> int \<Rightarrow> sys list \<Rightarrow> ((string + unit) \<times> ws) option" where
  "Connect os url timeout_ms e =
     (case ParseWsUrl url of
        Inl err \<Rightarrow> Some (Inl (''invalid endpoint url: '' @ err), new_ws e)
      | Inr parts \<Rightarrow>
          (case TcpConnect os (new_ws e) of
             None \<Rightarrow> None
           | Some (Inl err, s1) \<Rightarrow> Some (Inl err, s1)
           | Some (Inr _, s1) \<Rightarrow>
               (case tls_setup parts timeout_ms s1 of
                  None \<Rightarrow> None
                | Some (Inl err, s2) \<Rightarrow> Some (Inl err, Close s2)
                | Some (Inr _, s2) \<Rightarrow>
                    (case upgrade os parts timeout_ms s2 of
                       None \<Rightarrow> None
                     | Some (Inl err, s3) \<Rightarrow> Some (Inl err, Close s3)
                     | Some (Inr _, s3) \<Rightarrow> Some (Inr (), s3)))))"

section \<open>What a read takes from the transport\<close>

text \<open>
  Nothing in the program puts bytes into \<^verbatim>\<open>read_buf_\<close>; a client has it empty throughout.
  \<open>took s bs s'\<close>: between \<open>s\<close> and \<open>s'\<close> the client took \<open>bs\<close> from the transport.
\<close>

definition took :: "ws \<Rightarrow> u8 list \<Rightarrow> ws \<Rightarrow> bool" where
  "took s bs s' \<longleftrightarrow> ws_in s' = ws_in s @ bs \<and> ws_read_buf s = [] \<and> ws_read_buf s' = []"

lemma took_refl: "ws_read_buf s = [] \<Longrightarrow> took s [] s"
  by (simp add: took_def)

lemma took_trans: "took s a t \<Longrightarrow> took t b u \<Longrightarrow> took s (a @ b) u"
  by (simp add: took_def)

lemma took_same: "same_input s t \<Longrightarrow> ws_read_buf s = [] \<Longrightarrow> took s [] t"
  by (simp add: took_def same_input_def)

lemma took_empty: "took s bs t \<Longrightarrow> ws_read_buf s = [] \<and> ws_read_buf t = []"
  by (simp add: took_def)

lemma ask_same: "ask f s = Some (x, s') \<Longrightarrow> same_input s s'"
  by (drule ask_env) (auto simp: same_input_def)

lemma ssl_pending_same: "ssl_pending s = Some (p, s') \<Longrightarrow> same_input s s'"
  unfolding ssl_pending_def by (rule ask_same)

lemma drain_pending_took:
  "drain_pending n x en s = Some (r, s') \<Longrightarrow> ws_read_buf s = [] \<Longrightarrow>
     (case r of Got bs \<Rightarrow> took s bs s' \<and> bs \<noteq> [] \<and> length bs \<le> n | RRetry \<Rightarrow> False | RFail \<Rightarrow> took s [] s')"
  unfolding drain_pending_def ssl_read_failed_def
  by (auto split: option.splits list.splits sys.splits if_splits
      dest!: ssl_pending_same simp: same_input_def took_def)

lemma read_some_took:
  "read_some n s = Some (r, s') \<Longrightarrow> ws_read_buf s = [] \<Longrightarrow>
     (case r of Got bs \<Rightarrow> took s bs s' \<and> bs \<noteq> [] \<and> length bs \<le> n | _ \<Rightarrow> took s [] s')"
  unfolding read_some_def ssl_read_failed_def
  by (auto split: list.splits sys.splits if_splits read_step.splits
      dest!: drain_pending_took simp: took_def)

lemma pending_took: "pending_bytes s = Some (p, s') \<Longrightarrow> ws_read_buf s = [] \<Longrightarrow> took s [] s'"
  by (auto simp: pending_bytes_def split: if_splits intro: took_refl took_same dest: ssl_pending_same)

lemma now_took: "now_ms s = Some (t, s') \<Longrightarrow> ws_read_buf s = [] \<Longrightarrow> took s [] s'"
  by (auto intro: took_same dest: now_frame)

lemma poll_unless_took: "poll_unless b s = Some (rc, s') \<Longrightarrow> ws_read_buf s = [] \<Longrightarrow> took s [] s'"
  by (auto simp: poll_unless_def split: if_splits intro: took_refl took_same dest: PollFd_same)

lemma read_pass_took:
  assumes "read_pass n d acc s = Some (p, s')" and empty: "ws_read_buf s = []" and "length acc \<le> n"
  shows "case p of
      More acc' \<Rightarrow> \<exists>bs. took s bs s' \<and> acc' = acc @ bs \<and> length acc' \<le> n
    | Stop (rc, acc') \<Rightarrow> took s [] s' \<and> acc' = acc \<and> rc \<in> {1, 0, - 1} \<and> (rc = 1 \<longleftrightarrow> length acc = n)"
proof (cases "n \<le> length acc")
  case True
  with assms show ?thesis by (auto simp: read_pass_def took_refl)
next
  case False
  with assms(1) empty obtain b s1 where 1: "pending_bytes s = Some (b, s1)"
    by (auto simp: read_pass_def split: option.splits)
  with False assms(1) empty obtain t s2 where 2: "now_ms s1 = Some (t, s2)"
    by (auto simp: read_pass_def split: option.splits)
  have s2: "took s [] s2"
    using took_trans [OF pending_took [OF 1 empty] now_took [OF 2]] pending_took [OF 1 empty]
    by (simp add: took_def)
  show ?thesis
  proof (cases "remaining d t \<le> 0")
    case True
    with False assms 1 2 s2 show ?thesis by (auto simp: read_pass_def)
  next
    case time: False
    with False assms(1) empty 1 2 obtain prc s3 where 3: "poll_unless (b \<noteq> 0) s2 = Some (prc, s3)"
      by (auto simp: read_pass_def split: option.splits)
    have s3: "took s [] s3"
      using took_trans [OF s2 poll_unless_took [OF 3]] s2 by (simp add: took_def)
    show ?thesis
    proof (cases "prc \<le> 0")
      case True
      with time False assms 1 2 3 s3 show ?thesis by (auto simp: read_pass_def split: if_splits)
    next
      case ready: False
      with time False assms(1) empty 1 2 3 obtain r s4 where
        4: "read_some (n - length acc) s3 = Some (r, s4)"
        by (auto simp: read_pass_def split: option.splits)
      from read_some_took [OF 4] s3
      have "case r of Got bs \<Rightarrow> took s bs s4 \<and> bs \<noteq> [] \<and> length bs \<le> n - length acc | _ \<Rightarrow> took s [] s4"
        by (cases r) (auto simp: took_def)
      with ready time False assms 1 2 3 4 show ?thesis
        by (cases r) (auto simp: read_pass_def)
    qed
  qed
qed

lemma read_loop_took:
  assumes "read_loop n d acc s = Some ((rc, out), s')" and "ws_read_buf s = []" and "length acc \<le> n"
  shows "\<exists>bs. took s bs s' \<and> out = acc @ bs \<and> rc \<in> {1, 0, - 1} \<and> length out \<le> n \<and> (rc = 1 \<longleftrightarrow> length out = n)"
proof -
  let ?I = "\<lambda>a t. \<exists>bs. took s bs t \<and> a = acc @ bs \<and> length a \<le> n"
  let ?Q = "\<lambda>(rc, out) t. \<exists>bs. took s bs t \<and> out = acc @ bs \<and> rc \<in> {1, 0, - 1} \<and> length out \<le> n \<and>
    (rc = 1 \<longleftrightarrow> length out = n)"
  have "?Q (rc, out) s'"
  proof (rule read_loop_rule [OF assms(1), where I = ?I])
    show "?I acc s" using assms by (auto intro: took_refl)
  next
    fix a t a1 t1 assume I: "?I a t" and p: "read_pass n d a t = Some (More a1, t1)"
    then show "?I a1 t1"
      using read_pass_took [OF p] by (fastforce dest: took_trans took_empty)
  next
    fix a t r t1 assume I: "?I a t" and p: "read_pass n d a t = Some (Stop r, t1)"
    then show "?Q r t1"
      using read_pass_took [OF p] by (cases r) (fastforce dest: took_trans took_empty)
  qed
  then show ?thesis by simp
qed

lemma ReadExact_took:
  "ReadExact n d s = Some ((rc, bs), s') \<Longrightarrow> ws_read_buf s = [] \<Longrightarrow>
     took s bs s' \<and> rc \<in> {1, 0, - 1} \<and> length bs \<le> n \<and> (rc = 1 \<longleftrightarrow> length bs = n)"
  unfolding ReadExact_def by (drule read_loop_took) auto

lemma read_part_took:
  "read_part n d s = Some ((rc, bs), s') \<Longrightarrow> ws_read_buf s = [] \<Longrightarrow>
     took s bs s' \<and> rc \<in> {1, 0, - 1} \<and> length bs \<le> n \<and> (rc = 1 \<longleftrightarrow> length bs = n)"
  by (auto simp: read_part_def took_refl split: if_splits dest: ReadExact_took)

lemma read_some_out: "read_some n s = Some (r, s') \<Longrightarrow> ws_out s' = ws_out s"
  unfolding read_some_def drain_pending_def ssl_pending_def ssl_read_failed_def
  by (auto split: option.splits list.splits sys.splits if_splits dest!: ask_frame)

lemma read_pass_out: "read_pass n d acc s = Some (p, s') \<Longrightarrow> ws_out s' = ws_out s"
  unfolding read_pass_def pending_bytes_def poll_unless_def ssl_pending_def Let_def
  by (auto split: option.splits prod.splits read_step.splits if_splits
      dest!: ask_frame now_frame PollFd_frame read_some_out)

lemma ReadExact_out: "ReadExact n d s = Some (r, s') \<Longrightarrow> ws_out s' = ws_out s"
  unfolding ReadExact_def
  by (erule read_loop_rule [where I = "\<lambda>_ u. ws_out u = ws_out s"]) (auto dest: read_pass_out)

section \<open>Frames and bytes\<close>

text \<open>\<open>framed bs fs\<close>: the bytes are exactly the frames \<open>fs\<close>, one after the other.\<close>

fun framed :: "u8 list \<Rightarrow> WsFrame list \<Rightarrow> bool" where
  "framed bs [] \<longleftrightarrow> bs = []"
| "framed bs (f # fs) \<longleftrightarrow>
     (case decode_frame bs of Some (g, rest) \<Rightarrow> g = f \<and> framed rest fs | None \<Rightarrow> False)"

definition is_control :: "WsFrame \<Rightarrow> bool" where
  "is_control f \<longleftrightarrow> wf_opcode f = 0x9 \<or> wf_opcode f = 0xA"

lemma decode_parts:
  "length ext = ext_size h1 \<Longrightarrow> length key = (if frame_masked h1 then 4 else 0) \<Longrightarrow>
   length payload = frame_len h1 ext \<Longrightarrow>
   decode_frame (h0 # h1 # (ext @ key @ payload) @ rest) = Some (mk_frame h0 h1 key payload, rest)"
  by (auto simp: Let_def split: if_splits)

lemma fill_err_buf: "fill_err os what s = Some (t, s') \<Longrightarrow> same_input s s'"
  unfolding fill_err_def get_errno_def
  by (auto split: option.splits if_splits dest!: ask_same ssl_pending_same intro: same_input_trans)

lemma read_fail_result:
  "read_fail os w what l s = Some (r, s') \<Longrightarrow> (\<exists>e. r = RDone (- 1) None e) \<and> same_input s s'"
  unfolding read_fail_def by (auto split: if_splits dest!: fill_err_buf)

lemma rand_same: "rand_bytes n s = Some (k, s') \<Longrightarrow> same_input s s'"
  unfolding rand_bytes_def by (rule ask_same)

lemma send_pong_same: "send_pong os d p s = Some (u, s') \<Longrightarrow> same_input s s'"
  unfolding send_pong_def
  by (auto split: option.splits prod.splits dest!: rand_same now_frame WriteAll_effect intro: same_input_trans)

text \<open>The possible outcomes of a pass that has read the header bytes.\<close>

definition frame_outcome :: "u8 \<Rightarrow> u8 \<Rightarrow> ws \<Rightarrow> read_iter \<Rightarrow> ws \<Rightarrow> bool" where
  "frame_outcome h0 h1 s r s' \<longleftrightarrow>
     (\<exists>bs f. took s bs s' \<and> (\<forall>rest. decode_frame (h0 # h1 # bs @ rest) = Some (f, rest)) \<and>
        r = (if is_control f then RAgain else RDone 1 (Some f) None)) \<or>
     (\<exists>e. r = RDone (- 1) None e)"

lemma whole_frame:
  assumes "took s ext s1" and "length ext = ext_size h1" and "ws_read_buf s = []"
    and "read_part (if frame_masked h1 then 4 else 0) fd s1 = Some ((1, key), s2)"
    and "read_part (frame_len h1 ext) fd s2 = Some ((1, payload), s3)"
  shows "took s (ext @ key @ payload) s3 \<and>
    (\<forall>rest. decode_frame (h0 # h1 # (ext @ key @ payload) @ rest) = Some (mk_frame h0 h1 key payload, rest))"
proof -
  have "took s1 key s2" "length key = (if frame_masked h1 then 4 else 0)"
    using read_part_took [OF assms(4)] assms(1) by (auto simp: took_def)
  moreover have "took s2 payload s3" "length payload = frame_len h1 ext"
    using read_part_took [OF assms(5)] \<open>took s1 key s2\<close> by (auto simp: took_def)
  ultimately show ?thesis
    using assms(1-3) decode_parts [of ext h1 key payload h0] by (auto simp: took_def)
qed

text \<open>A pong in between changes nothing of the input.\<close>

lemma frame_outcome_whole:
  assumes "took s bs s3" and "\<forall>rest. decode_frame (h0 # h1 # bs @ rest) = Some (f, rest)"
    and "if wf_opcode f = 0x9
         then r = RAgain \<and> (\<exists>u. send_pong os d (wf_payload f) s3 = Some (u, s'))
         else s' = s3 \<and> r = (if wf_opcode f = 0xA then RAgain else RDone 1 (Some f) None)"
  shows "frame_outcome h0 h1 s r s'"
proof -
  have "took s bs s'"
    using assms(1,3) send_pong_same by (auto simp: took_def same_input_def split: if_splits)
  moreover have "r = (if is_control f then RAgain else RDone 1 (Some f) None)"
    using assms(3) by (auto simp: is_control_def split: if_splits)
  ultimately show ?thesis unfolding frame_outcome_def using assms(2) by blast
qed

lemma read_rest_outcome:
  assumes run: "read_rest os w d fd h0 h1 s = Some (r, s')" and empty: "ws_read_buf s = []"
  shows "frame_outcome h0 h1 s r s'"
proof -
  from run obtain rc1 ext s1 where 1: "read_part (ext_size h1) fd s = Some ((rc1, ext), s1)"
    by (auto simp: read_rest_def split: option.splits)
  note cases = read_rest_def frame_outcome_def
  show ?thesis
  proof (cases "rc1 \<noteq> 1 \<or> int (frame_len h1 ext) > kMaxFrame")
    case True
    with run 1 show ?thesis by (auto simp: cases split: if_splits dest!: read_fail_result)
  next
    case ok1: False
    with run 1 obtain rc2 key s2 where
      2: "read_part (if frame_masked h1 then 4 else 0) fd s1 = Some ((rc2, key), s2)"
      by (auto simp: read_rest_def split: option.splits)
    show ?thesis
    proof (cases "rc2 = 1")
      case False
      with run 1 2 ok1 show ?thesis by (auto simp: cases dest!: read_fail_result)
    next
      case ok2: True
      with run 1 2 ok1 obtain rc3 payload s3 where
        3: "read_part (frame_len h1 ext) fd s2 = Some ((rc3, payload), s3)"
        by (auto simp: read_rest_def split: option.splits)
      show ?thesis
      proof (cases "rc3 = 1")
        case False
        with run 1 2 3 ok1 ok2 show ?thesis by (auto simp: cases dest!: read_fail_result)
      next
        case ok3: True
        have "took s ext s1" "length ext = ext_size h1" using read_part_took [OF 1 empty] ok1 by auto
        note whole = whole_frame [OF this empty 2 [unfolded ok2] 3 [unfolded ok3], of h0]
        show ?thesis
          using run 1 2 3 ok1 ok2 ok3
          by (intro frame_outcome_whole [OF conjunct1 [OF whole] conjunct2 [OF whole], where os = os and d = d])
            (auto simp: read_rest_def Let_def)
      qed
    qed
  qed
qed

text \<open>One pass: a whole frame, a timeout before a whole header, or a failure.\<close>

lemma read_once_outcome:
  assumes run: "read_once os w d s = Some (r, s')" and empty: "ws_read_buf s = []"
  shows "(\<exists>bs f. took s bs s' \<and> (\<forall>rest. decode_frame (bs @ rest) = Some (f, rest)) \<and>
            r = (if is_control f then RAgain else RDone 1 (Some f) None)) \<or>
         (\<exists>part. took s part s' \<and> length part < 2 \<and> r = RDone 0 None None) \<or>
         (\<exists>e. r = RDone (- 1) None e)"
proof -
  from run obtain rc head s1 where 1: "ReadExact 2 d s = Some ((rc, head), s1)"
    by (auto simp: read_once_def split: option.splits)
  note t = ReadExact_took [OF 1 empty]
  show ?thesis
  proof (cases "rc = 1")
    case True
    with t obtain h0 h1 where head: "head = [h0, h1]"
      by (auto simp: numeral_2_eq_2 length_Suc_conv)
    from run 1 True obtain u s2 where 2: "now_ms s1 = Some (u, s2)"
      and 3: "read_rest os w d (u + kFrameReadBudgetMs) h0 h1 s2 = Some (r, s')"
      by (auto simp: read_once_def head split: option.splits)
    have t2: "took s [h0, h1] s2" using t head now_took [OF 2] by (auto simp: took_def)
    from read_rest_outcome [OF 3] t2 have "frame_outcome h0 h1 s2 r s'" by (simp add: took_def)
    then show ?thesis
    proof (unfold frame_outcome_def, elim disjE exE conjE)
      fix bs f assume "took s2 bs s'" and dec: "\<forall>rest. decode_frame (h0 # h1 # bs @ rest) = Some (f, rest)"
        and r: "r = (if is_control f then RAgain else RDone 1 (Some f) None)"
      from took_trans [OF t2 this(1)] have "took s ([h0, h1] @ bs) s'" .
      moreover have "\<forall>rest. decode_frame (([h0, h1] @ bs) @ rest) = Some (f, rest)"
        using dec by (simp del: decode_frame.simps)
      ultimately show ?thesis using r by blast
    qed simp
  next
    case False
    with run 1 t show ?thesis
      by (auto simp: read_once_def split: if_splits dest!: read_fail_result)
  qed
qed

lemma framed_append:
  "\<forall>rest. decode_frame (b @ rest) = Some (f, rest) \<Longrightarrow> framed bs fs \<Longrightarrow> framed (b @ bs) (f # fs)"
  by simp

definition read_outcome :: "ws \<Rightarrow> int \<times> WsFrame option \<times> string option \<Rightarrow> ws \<Rightarrow> bool" where
  "read_outcome s r s' \<longleftrightarrow>
     (\<exists>bs ctl f. took s bs s' \<and> framed bs (ctl @ [f]) \<and> list_all is_control ctl \<and> \<not> is_control f \<and>
        r = (1, Some f, None)) \<or>
     (\<exists>bs ctl part. took s (bs @ part) s' \<and> framed bs ctl \<and> list_all is_control ctl \<and>
        length part < 2 \<and> r = (0, None, None)) \<or>
     (\<exists>e. r = (- 1, None, e))"

lemma read_outcome_cons:
  assumes "took s b s1" and "\<forall>rest. decode_frame (b @ rest) = Some (c, rest)" and "is_control c"
    and "read_outcome s1 r s'"
  shows "read_outcome s r s'"
  using assms(4) unfolding read_outcome_def
proof (elim disjE exE conjE)
  fix bs ctl f assume "took s1 bs s'" "framed bs (ctl @ [f])" "list_all is_control ctl"
    "\<not> is_control f" "r = (1, Some f, None)"
  with assms(1-3) framed_append [OF assms(2), of bs "ctl @ [f]"]
  have "took s (b @ bs) s' \<and> framed (b @ bs) ((c # ctl) @ [f]) \<and> list_all is_control (c # ctl) \<and>
      \<not> is_control f \<and> r = (1, Some f, None)"
    by (auto intro: took_trans)
  then show "(\<exists>bs ctl f. took s bs s' \<and> framed bs (ctl @ [f]) \<and> list_all is_control ctl \<and>
      \<not> is_control f \<and> r = (1, Some f, None)) \<or>
     (\<exists>bs ctl part. took s (bs @ part) s' \<and> framed bs ctl \<and> list_all is_control ctl \<and>
        length part < 2 \<and> r = (0, None, None)) \<or>
     (\<exists>e. r = (- 1, None, e))" by blast
next
  fix bs ctl part assume "took s1 (bs @ part) s'" "framed bs ctl" "list_all is_control ctl"
    "length part < 2" "r = (0, None, None)"
  with assms(1-3) framed_append [OF assms(2), of bs ctl] took_trans [OF assms(1), of "bs @ part" s']
  have "took s ((b @ bs) @ part) s' \<and> framed (b @ bs) (c # ctl) \<and> list_all is_control (c # ctl) \<and>
      length part < 2 \<and> r = (0, None, None)"
    by auto
  then show "(\<exists>bs ctl f. took s bs s' \<and> framed bs (ctl @ [f]) \<and> list_all is_control ctl \<and>
      \<not> is_control f \<and> r = (1, Some f, None)) \<or>
     (\<exists>bs ctl part. took s (bs @ part) s' \<and> framed bs ctl \<and> list_all is_control ctl \<and>
        length part < 2 \<and> r = (0, None, None)) \<or>
     (\<exists>e. r = (- 1, None, e))" by blast
qed blast

lemma Read_loop_outcome:
  "Read_loop os w d s = Some (r, s') \<Longrightarrow> ws_read_buf s = [] \<Longrightarrow> read_outcome s r s'"
proof (induction "io_size s" arbitrary: s rule: less_induct)
  case less
  from less.prems(1) obtain q s1 where q: "read_once os w d s = Some (q, s1)"
    by (subst (asm) Read_loop.simps) (auto split: option.splits)
  note run = less.prems(1) [unfolded Read_loop.simps [of os w d s]]
  from read_once_outcome [OF q less.prems(2)] show ?case
  proof (elim disjE exE conjE)
    fix bs f assume t: "took s bs s1" and dec: "\<forall>rest. decode_frame (bs @ rest) = Some (f, rest)"
      and q': "q = (if is_control f then RAgain else RDone 1 (Some f) None)"
    show ?case
    proof (cases "is_control f")
      case True
      with run q q' have "Read_loop os w d s1 = Some (r, s')" by simp
      moreover have "io_size s1 < io_size s" using read_once_io [OF q] q' True by simp
      ultimately have "read_outcome s1 r s'" using less.hyps t by (simp add: took_def)
      with t dec True show ?thesis by (rule read_outcome_cons)
    next
      case False
      with run q q' have "r = (1, Some f, None)" "s' = s1" by simp_all
      moreover have "framed bs ([] @ [f])" using dec [THEN spec, of "[]"] by simp
      ultimately show ?thesis using t False unfolding read_outcome_def
        by (intro disjI1 exI [of _ bs] exI [of _ "[]"] exI [of _ f]) simp
    qed
  next
    fix part assume "took s part s1" "length part < 2" "q = RDone 0 None None"
    with run q show ?thesis unfolding read_outcome_def
      by (intro disjI2 disjI1 exI [of _ "[]"] exI [of _ part]) auto
  next
    fix e assume "q = RDone (- 1) None e"
    with run q show ?thesis unfolding read_outcome_def by auto
  qed
qed

lemma Read_outcome:
  assumes "Read os w timeout s = Some (r, s')" and "ws_read_buf s = []"
  shows "read_outcome s r s'"
proof -
  from assms(1) obtain t s1 where 1: "now_ms s = Some (t, s1)"
    and 2: "Read_loop os w (t + timeout) s1 = Some (r, s')"
    by (auto simp: Read_def split: option.splits)
  from now_took [OF 1 assms(2)] have "took s [] s1" .
  with Read_loop_outcome [OF 2] show ?thesis
    by (auto simp: read_outcome_def took_def)
qed

section \<open>The handshake\<close>

definition quiet :: "ws \<Rightarrow> ws \<Rightarrow> bool" where
  "quiet s s' \<longleftrightarrow> ws_in s' = ws_in s \<and> ws_out s' = ws_out s \<and> ws_read_buf s' = ws_read_buf s"

lemma quiet_trans [trans]: "quiet s t \<Longrightarrow> quiet t u \<Longrightarrow> quiet s u"
  by (simp add: quiet_def)

lemma ask_quiet: "ask f s = Some (x, s') \<Longrightarrow> quiet s s'"
  by (drule ask_env) (auto simp: quiet_def)

lemma now_quiet: "now_ms s = Some (x, s') \<Longrightarrow> quiet s s'"
  unfolding now_ms_def by (rule ask_quiet)

lemma PollFd_quiet: "PollFd s = Some (x, s') \<Longrightarrow> quiet s s'"
  by (auto simp: PollFd_def quiet_def)

lemma tcp_try_quiet: "tcp_try k en s = Some (r, s') \<Longrightarrow> quiet s s'"
proof (induction k arbitrary: en s)
  case 0
  then show ?case by (simp add: quiet_def)
next
  case (Suc k)
  from Suc.prems show ?case
    by (auto split: option.splits if_splits dest!: ask_quiet Suc.IH simp: quiet_def)
qed

lemma TcpConnect_quiet: "TcpConnect os s = Some (r, s') \<Longrightarrow> quiet s s'"
  by (auto simp: TcpConnect_def split: option.splits if_splits dest!: ask_quiet tcp_try_quiet
      intro: quiet_trans)

lemma calls_quiet_size:
  "ask f s = Some (x, s') \<Longrightarrow> quiet s s' \<and> env_size s' < env_size s"
  "now_ms s = Some (t, s') \<Longrightarrow> quiet s s' \<and> env_size s' < env_size s"
  "PollFd s = Some (rc, s') \<Longrightarrow> quiet s s' \<and> env_size s' < env_size s"
  by (simp_all add: ask_quiet ask_size now_quiet now_size PollFd_quiet PollFd_size)

lemma tls_loop_quiet: "tls_loop d s = Some (r, s') \<Longrightarrow> quiet s s'"
proof (induction "env_size s" arbitrary: s rule: less_induct)
  case less
  have IH: "tls_loop d t = Some (r, s') \<Longrightarrow> env_size t < env_size s \<longrightarrow> quiet t s'" for t
    using less.hyps by blast
  from less.prems show ?case
    unfolding tls_loop.simps [of d s]
    by (auto split: option.splits sum.splits if_splits prod.splits
        dest!: IH calls_quiet_size simp: quiet_def)
qed

lemma tls_setup_quiet: "tls_setup parts timeout s = Some (r, s') \<Longrightarrow> quiet s s'"
  unfolding tls_setup_def
  by (auto split: option.splits if_splits dest!: ask_quiet now_quiet tls_loop_quiet simp: quiet_def)

lemma resp_loop_took:
  "resp_loop d resp s = Some (Inr resp', s') \<Longrightarrow> ws_read_buf s = [] \<Longrightarrow>
     \<exists>bs. took s bs s' \<and> ws_out s' = ws_out s \<and> resp' = resp @ string_of bs \<and> find_str (crlf @ crlf) resp' \<noteq> None \<and>
       (bs \<noteq> [] \<longrightarrow> find_str (crlf @ crlf) (butlast resp') = None)"
proof (induction "io_size s" arbitrary: resp s rule: less_induct)
  case less
  show ?case
  proof (cases "find_str (crlf @ crlf) resp = None")
    case False
    with less.prems show ?thesis
      by (intro exI [of _ "[]"]) (auto simp: resp_loop.simps [of d resp s] intro: took_refl)
  next
    case none: True
    with less.prems(1) obtain t s1 where 1: "now_ms s = Some (t, s1)" and "\<not> remaining d t \<le> 0"
      by (auto simp: resp_loop.simps [of d resp s] split: option.splits if_splits)
    with none less.prems(1) obtain rc buf s2 where 2: "ReadExact 1 d s1 = Some ((rc, buf), s2)"
      by (auto simp: resp_loop.simps [of d resp s] split: option.splits)
    with 1 none less.prems(1) \<open>\<not> remaining d t \<le> 0\<close> have rc: "rc = 1"
      and run: "resp_loop d (resp @ [char_of_byte (buf ! 0)]) s2 = Some (Inr resp', s')"
      by (auto simp: resp_loop.simps [of d resp s] split: if_splits)
    have s1: "took s [] s1" using now_took [OF 1 less.prems(2)] .
    have s2: "took s1 buf s2" "length buf = 1"
      using ReadExact_took [OF 2] s1 rc by (auto simp: took_def)
    then obtain b where buf: "buf = [b]" by (auto simp: length_Suc_conv)
    have "io_size s2 < io_size s"
      using now_io [OF 1] 2 by (auto simp: ReadExact_def dest: read_loop_io)
    from less.hyps [OF this run] s2 obtain bs where bs: "took s2 bs s'" "ws_out s' = ws_out s2"
      "resp' = (resp @ [char_of_byte b]) @ string_of bs"
      "find_str (crlf @ crlf) resp' \<noteq> None"
      "bs \<noteq> [] \<longrightarrow> find_str (crlf @ crlf) (butlast resp') = None"
      by (auto simp: buf took_def)
    have "took s (b # bs) s'" using s1 s2 bs(1) by (simp add: took_def buf)
    moreover have "find_str (crlf @ crlf) (butlast resp') = None"
      using bs(3,5) none by (cases "bs = []") (simp_all add: butlast_append)
    moreover have "ws_out s' = ws_out s"
      using bs(2) ReadExact_out [OF 2] now_quiet [OF 1] by (simp add: quiet_def)
    ultimately show ?thesis using bs(3,4) by (intro exI [of _ "b # bs"]) simp
  qed
qed

end
