(* ===== verification/WsProps.thy ===== *)
theory WsProps
  imports WsClient
begin

text \<open>
  Properties of the WebSocket transport that span writing, reading and the handshake.
\<close>

section \<open>Sending\<close>

lemma write_pass_grows: "write_pass os d buf s = Some (p, s') \<Longrightarrow> \<exists>bs. ws_out s' = ws_out s @ bs"
  unfolding write_pass_def
  by (auto split: if_splits option.splits prod.splits write_step.splits
      dest!: now_frame PollFd_same write_some_effect)

lemma WriteAll_prefix:
  assumes "WriteAll os buf timeout s = Some (r, s')"
  shows "prefix (ws_out s) (ws_out s')"
proof -
  from assms obtain t s1 where 1: "now_ms s = Some (t, s1)"
    and 2: "write_loop os (t + timeout) buf s1 = Some (r, s')"
    by (auto simp: WriteAll_def split: option.splits)
  have "prefix (ws_out s1) (ws_out s')"
    by (rule write_loop_rule [OF 2, where I = "\<lambda>_ u. prefix (ws_out s1) (ws_out u)"])
      (auto dest!: write_pass_grows)
  with now_frame [OF 1] show ?thesis by simp
qed

section \<open>The handshake\<close>

lemma rand_quiet: "rand_bytes n s = Some (k, s') \<Longrightarrow> quiet s s' \<and> length k = n"
  unfolding rand_bytes_def by (auto dest!: ask_env split: sys.splits if_splits simp: quiet_def)

lemma upgrade_ok:
  assumes run: "upgrade os parts timeout s = Some (Inr (), s')" and empty: "ws_read_buf s = []"
  shows "\<exists>nonce resp. length nonce = 16 \<and>
    ws_out s' = ws_out s @ bytes_of (upgrade_request parts (Base64Encode nonce)) \<and>
    took s (bytes_of resp) s' \<and>
    find_str (crlf @ crlf) resp \<noteq> None \<and> find_str (crlf @ crlf) (butlast resp) = None \<and>
    check_upgrade os (Base64Encode nonce) resp = None"
proof -
  from run obtain nonce s1 where 1: "rand_bytes 16 s = Some (nonce, s1)"
    by (auto simp: upgrade_def split: option.splits)
  let ?key = "Base64Encode nonce"
  from run 1 obtain s2 where
    2: "WriteAll os (bytes_of (upgrade_request parts ?key)) timeout s1 = Some (None, s2)"
    by (auto simp: upgrade_def Let_def split: option.splits)
  from run 1 2 obtain t s3 where 3: "now_ms s2 = Some (t, s3)"
    by (auto simp: upgrade_def Let_def split: option.splits)
  from run 1 2 3 obtain resp where 4: "resp_loop (t + timeout) [] s3 = Some (Inr resp, s')"
    and ok: "check_upgrade os ?key resp = None"
    by (auto simp: upgrade_def Let_def split: option.splits sum.splits)
  have s1: "quiet s s1" "length nonce = 16" using rand_quiet [OF 1] by simp_all
  have s2: "same_input s1 s2" "ws_out s2 = ws_out s1 @ bytes_of (upgrade_request parts ?key)"
    using WriteAll_effect [OF 2] by auto
  have s3: "quiet s2 s3" using now_quiet [OF 3] .
  have empty3: "ws_read_buf s3 = []" using empty s1 s2 s3 by (simp add: quiet_def same_input_def)
  from resp_loop_took [OF 4 empty3] obtain bs where bs: "took s3 bs s'" "ws_out s' = ws_out s3"
    "resp = string_of bs" "find_str (crlf @ crlf) resp \<noteq> None"
    "bs \<noteq> [] \<longrightarrow> find_str (crlf @ crlf) (butlast resp) = None" by auto
  have "find_str (crlf @ crlf) ([] :: string) = None" by (simp add: crlf_def)
  with bs(4) have "resp \<noteq> []" by auto
  with bs(3,5) have "find_str (crlf @ crlf) (butlast resp) = None" by auto
  moreover have "took s (bytes_of resp) s'"
    using bs(1,3) s1 s2 s3 empty by (simp add: took_def quiet_def same_input_def)
  moreover have "ws_out s' = ws_out s @ bytes_of (upgrade_request parts ?key)"
    using bs(2) s1 s2 s3 by (simp add: quiet_def)
  ultimately show ?thesis using bs(4) s1(2) ok by blast
qed

lemma Connect_ok:
  assumes "Connect os url timeout e = Some (Inr (), s)"
  shows "\<exists>parts nonce resp. ParseWsUrl url = Inr parts \<and> length nonce = 16 \<and>
    ws_out s = bytes_of (upgrade_request parts (Base64Encode nonce)) \<and>
    ws_in s = bytes_of resp \<and> ws_read_buf s = [] \<and>
    find_str (crlf @ crlf) resp \<noteq> None \<and> find_str (crlf @ crlf) (butlast resp) = None \<and>
    check_upgrade os (Base64Encode nonce) resp = None"
proof -
  from assms obtain parts s1 s2 where p: "ParseWsUrl url = Inr parts"
    and 1: "TcpConnect os (new_ws e) = Some (Inr (), s1)"
    and 2: "tls_setup parts timeout s1 = Some (Inr (), s2)"
    and 3: "upgrade os parts timeout s2 = Some (Inr (), s)"
    by (auto simp: Connect_def split: option.splits sum.splits)
  have q: "quiet (new_ws e) s2" using TcpConnect_quiet [OF 1] tls_setup_quiet [OF 2] by (rule quiet_trans)
  then have "ws_read_buf s2 = []" by (simp add: quiet_def new_ws_def)
  from upgrade_ok [OF 3 this] q p show ?thesis
    by (auto simp: quiet_def new_ws_def took_def)
qed

section \<open>Properties\<close>

text \<open>
  \<open>frame_sent op payload s r s'\<close>: between \<open>s\<close> and \<open>s'\<close> the transport has accepted a prefix
  of a frame that a peer decodes to \<open>op\<close> and \<open>payload\<close>, the whole of it if and only if the
  result \<open>r\<close> is success.
\<close>

definition frame_sent :: "u8 \<Rightarrow> u8 list \<Rightarrow> ws \<Rightarrow> string option \<Rightarrow> ws \<Rightarrow> bool" where
  "frame_sent op payload s r s' \<longleftrightarrow>
     (\<exists>bs rest. ws_out s' = ws_out s @ bs \<and> (rest = []) = (r = None) \<and>
        (\<forall>more. decode_frame ((bs @ rest) @ more) =
           Some (\<lparr> wf_opcode = op, wf_payload = payload, wf_fin = True \<rparr>, more)))"

lemma WriteAll_frame_sent:
  assumes w: "WriteAll os (EncodeWsFrame op payload True key) timeout s = Some (r, s')" and "length key = 4"
    and "op AND 0x0F = op" and "length payload < 2 ^ 64"
  shows "frame_sent op payload s r s'"
proof -
  let ?f = "EncodeWsFrame op payload True key"
  from WriteAll_effect [OF w] obtain rest where
    rest: "ws_out s' @ rest = ws_out s @ ?f" "(rest = []) = (r = None)" by auto
  obtain bs where bs: "ws_out s' = ws_out s @ bs"
    using WriteAll_prefix [OF w] by (auto simp: prefix_def)
  with rest(1) have "?f = bs @ rest" by simp
  moreover have "decode_frame (?f @ more) =
      Some (\<lparr> wf_opcode = op, wf_payload = payload, wf_fin = True \<rparr>, more)" for more
    by (intro decode_EncodeWsFrame assms)
  ultimately show ?thesis using bs rest(2) unfolding frame_sent_def by metis
qed

lemma send_frame_sent:
  assumes "send_frame os op payload s = Some (r, s')" and "op AND 0x0F = op" and "length payload < 2 ^ 64"
  shows "frame_sent op payload s r s'"
proof -
  from assms(1) obtain key s1 where k: "rand_bytes 4 s = Some (key, s1)"
    and w: "WriteAll os (EncodeWsFrame op payload True key) (ws_write_timeout s1) s1 = Some (r, s')"
    by (auto simp: send_frame_def split: option.splits)
  from WriteAll_frame_sent [OF w _ assms(2,3)] rand_quiet [OF k] show ?thesis
    by (simp add: frame_sent_def quiet_def)
qed

section \<open>Properties\<close>

text \<open>
  Claim C15. When \<^verbatim>\<open>SendText\<close> or \<^verbatim>\<open>SendBinary\<close> reports success, the transport has accepted
  exactly one frame, which the peer decodes to the given text or data and nothing more,
  through any number of short writes, interrupts and retries, on TCP and on TLS; when it
  reports an error a proper prefix of that frame has been accepted.
\<close>

theorem Send_delivers:
  assumes "length text < 2 ^ 64" and "length data < 2 ^ 64"
  shows "(SendText os text s = Some (r, s') \<longrightarrow> frame_sent 1 (bytes_of text) s r s') \<and>
         (SendBinary os data s = Some (r, s') \<longrightarrow> frame_sent 2 data s r s')"
  using assms send_frame_sent [of os 1 "bytes_of text" s r s'] send_frame_sent [of os 2 data s r s']
  by (simp add: SendText_def SendBinary_def)

text \<open>Answers that let every call proceed at time 0.\<close>

definition sample_os :: os_lib where
  "sample_os = \<lparr> strerror = (\<lambda>_. ''error''), gai_strerror = (\<lambda>_. ''error''), sha1 = (\<lambda>_. []) \<rparr>"

definition ready :: sys where
  "ready = PollAns 1 False False True"

definition sample_write :: ws where
  "sample_write = new_ws [Rand [0, 0, 0, 0], NowMs 0, NowMs 0, ready, SendErr 4, NowMs 0, ready, SendOk 3,
     NowMs 0, ready, SendOk 4]"

theorem Send_delivers_witness:
  "\<exists>s'. SendText sample_os ''A'' sample_write = Some (None, s') \<and> frame_sent 1 [0x41] sample_write None s' \<and>
        ws_out s' = [0x81, 0x81, 0, 0, 0, 0, 0x41]"
proof -
  let ?s' = "sample_write \<lparr> ws_env := [], ws_out := [0x81, 0x81, 0, 0, 0, 0, 0x41] \<rparr>"
  have run: "SendText sample_os ''A'' sample_write = Some (None, ?s')" by code_simp
  have "bytes_of ''A'' = [0x41]" by code_simp
  with Send_delivers [of "''A''" "[]" sample_os sample_write None ?s'] run
  have "frame_sent 1 [0x41] sample_write None ?s'" by simp
  with run show ?thesis by auto
qed

text \<open>
  Claim C16. The reader keeps in step with the peer's frames. When \<^verbatim>\<open>Read\<close> returns a message,
  the bytes it has taken from the transport are exactly a sequence of ping and pong frames
  followed by that message's frame, whatever the segmentation; on a timeout they are whole
  ping and pong frames and at most one byte more.
\<close>

theorem Read_in_step:
  assumes "Read os want_err timeout s = Some ((rc, f, e), s')" and "ws_read_buf s = []"
  shows "rc \<in> {1, 0, - 1} \<and>
    (rc = 1 \<longrightarrow> (\<exists>bs ctl g. ws_in s' = ws_in s @ bs \<and> framed bs (ctl @ [g]) \<and> list_all is_control ctl \<and>
                            \<not> is_control g \<and> f = Some g \<and> ws_read_buf s' = [])) \<and>
    (rc = 0 \<longrightarrow> (\<exists>bs ctl part. ws_in s' = ws_in s @ bs @ part \<and> framed bs ctl \<and> list_all is_control ctl \<and>
                            length part \<le> 1 \<and> ws_read_buf s' = []))"
  using Read_outcome [OF assms] unfolding read_outcome_def took_def
  by (elim disjE exE conjE) (auto simp: less_Suc_eq_le numeral_2_eq_2)

definition sample_read :: ws where
  "sample_read = new_ws [NowMs 0, NowMs 0, ready, RecvData [0x89, 0], NowMs 0, Rand [0, 0, 0, 0], NowMs 0,
     NowMs 0, NowMs 0, ready, SendOk 6, NowMs 0, ready, RecvData [0x81], NowMs 0, ready, RecvData [1],
     NowMs 0, NowMs 0, ready, RecvData [0x41]]"

theorem Read_in_step_witness:
  "\<exists>s'. Read sample_os True 100 sample_read =
          Some ((1, Some \<lparr> wf_opcode = 1, wf_payload = [0x41], wf_fin = True \<rparr>, None), s') \<and>
        (\<exists>bs ctl. ws_in s' = ws_in sample_read @ bs \<and> list_all is_control ctl \<and>
           framed bs (ctl @ [\<lparr> wf_opcode = 1, wf_payload = [0x41], wf_fin = True \<rparr>]))"
proof -
  let ?f = "\<lparr> wf_opcode = 1, wf_payload = [0x41], wf_fin = True \<rparr>"
  let ?s' = "sample_read \<lparr> ws_env := [], ws_in := [0x89, 0, 0x81, 1, 0x41],
     ws_out := [0x8A, 0x80, 0, 0, 0, 0] \<rparr>"
  have run: "Read sample_os True 100 sample_read = Some ((1, Some ?f, None), ?s')" by code_simp
  have "ws_read_buf sample_read = []" by (simp add: sample_read_def new_ws_def)
  from Read_in_step [OF run this] run show ?thesis by auto
qed

text \<open>
  A timeout that strikes between the two header bytes of a frame loses the first
  one: \<^verbatim>\<open>ReadExact\<close> keeps no partial input, so the next \<^verbatim>\<open>Read\<close> takes the second header byte
  for the first and reports a message the peer never sent. Here the peer sends one text
  frame with the payload 00 58 and the client reads an empty binary message.
\<close>

lemma Read_timeout_loses_step:
  "\<exists>s1 s2 e1 e2. framed [0x81, 2, 0, 0x58] [\<lparr> wf_opcode = 1, wf_payload = [0, 0x58], wf_fin = True \<rparr>] \<and>
     Read sample_os True 100 (new_ws e1) = Some ((0, None, None), s1) \<and> ws_in s1 = [0x81] \<and>
     Read sample_os True 100 (s1 \<lparr> ws_env := e2 \<rparr>) =
       Some ((1, Some \<lparr> wf_opcode = 2, wf_payload = [], wf_fin = False \<rparr>, None), s2) \<and>
     ws_in s2 = [0x81, 2, 0]"
proof -
  let ?e1 = "[NowMs 0, NowMs 0, ready, RecvData [0x81], NowMs 100]"
  let ?e2 = "[NowMs 200, NowMs 200, ready, RecvData [2, 0], NowMs 200]"
  let ?s1 = "(new_ws []) \<lparr> ws_in := [0x81] \<rparr>"
  let ?s2 = "(new_ws []) \<lparr> ws_in := [0x81, 2, 0] \<rparr>"
  have "framed [0x81, 2, 0, 0x58] [\<lparr> wf_opcode = 1, wf_payload = [0, 0x58], wf_fin = True \<rparr>]" by code_simp
  moreover have "Read sample_os True 100 (new_ws ?e1) = Some ((0, None, None), ?s1)" by code_simp
  moreover have "Read sample_os True 100 (?s1 \<lparr> ws_env := ?e2 \<rparr>) =
      Some ((1, Some \<lparr> wf_opcode = 2, wf_payload = [], wf_fin = False \<rparr>, None), ?s2)" by code_simp
  ultimately show ?thesis by (intro exI [of _ ?s1] exI [of _ ?s2] exI [of _ ?e1] exI [of _ ?e2]) simp
qed

text \<open>
  An error of \<^verbatim>\<open>SendBinary\<close> can leave a torn frame on the connection, and nothing
  stops the next \<^verbatim>\<open>SendText\<close>: the peer then completes the torn frame with the bytes of the
  next one. Here four bytes of audio are sent, the write stops after two of them, and the
  text that follows is swallowed into the payload of the first frame.
\<close>

lemma Send_after_error_tears:
  "\<exists>s0 s1 s2 e2. SendBinary sample_os [1, 2, 3, 4] s0 = Some (Some ''write poll failed or timed out'', s1) \<and>
     SendText sample_os ''end'' (s1 \<lparr> ws_env := e2 \<rparr>) = Some (None, s2) \<and>
     map_option fst (decode_frame (ws_out s2)) =
       Some \<lparr> wf_opcode = 2, wf_payload = [1, 2, 0x81, 0x83], wf_fin = True \<rparr>"
proof -
  let ?s0 = "new_ws [Rand [0, 0, 0, 0], NowMs 0, NowMs 0, ready, SendOk 8, NowMs 0, PollAns 0 False False False]"
  let ?e2 = "[Rand [0, 0, 0, 0], NowMs 0, NowMs 0, ready, SendOk 9]"
  let ?torn = "[0x82, 0x84, 0, 0, 0, 0, 1, 2]"
  let ?s1 = "(new_ws []) \<lparr> ws_out := ?torn \<rparr>"
  let ?s2 = "(new_ws []) \<lparr> ws_out := ?torn @ [0x81, 0x83, 0, 0, 0, 0, 0x65, 0x6E, 0x64] \<rparr>"
  have "SendBinary sample_os [1, 2, 3, 4] ?s0 = Some (Some ''write poll failed or timed out'', ?s1)"
    by code_simp
  moreover have "SendText sample_os ''end'' (?s1 \<lparr> ws_env := ?e2 \<rparr>) = Some (None, ?s2)" by code_simp
  moreover have "map_option fst (decode_frame (ws_out ?s2)) =
       Some \<lparr> wf_opcode = 2, wf_payload = [1, 2, 0x81, 0x83], wf_fin = True \<rparr>" by code_simp
  ultimately show ?thesis by (intro exI [of _ ?s0] exI [of _ ?s1] exI [of _ ?s2] exI [of _ ?e2]) simp
qed

text \<open>
  Claim C18. \<^verbatim>\<open>Connect\<close> hands out a client only after a verified upgrade: it has sent exactly
  the upgrade request for the parts of the URL with a fresh 16-byte key, and the response it
  has read contains the status 101 and the accept value for that key. It stops reading at
  the empty line that ends the response, so no byte of the first frame is consumed.
\<close>

theorem Connect_verified:
  assumes "Connect os url timeout e = Some (Inr (), s)"
  shows "\<exists>parts nonce resp. ParseWsUrl url = Inr parts \<and> length nonce = 16 \<and>
    ws_out s = bytes_of (upgrade_request parts (Base64Encode nonce)) \<and>
    ws_in s = bytes_of resp \<and> ws_read_buf s = [] \<and>
    find_str (crlf @ crlf) resp \<noteq> None \<and> find_str (crlf @ crlf) (butlast resp) = None \<and>
    find_str '' 101'' resp \<noteq> None \<and> find_str (accept_line os (Base64Encode nonce)) resp \<noteq> None"
  using Connect_ok [OF assms] unfolding check_upgrade_def by (auto split: if_splits)

text \<open>Answers that deliver a text one byte per read.\<close>

definition feed :: "string \<Rightarrow> sys list" where
  "feed r = concat (map (\<lambda>c. [NowMs 0, NowMs 0, ready, RecvData [byte_of c]]) r)"

lemma ReadExact_feed:
  assumes "ws_env s = NowMs 0 # ready # RecvData [b] # e" "\<not> ws_ssl s" "ws_read_buf s = []"
  shows "ReadExact 1 100 s = Some ((1, [b]), s \<lparr> ws_env := e, ws_in := ws_in s @ [b] \<rparr>)"
  using assms
  by (simp add: ReadExact_def read_loop.simps read_pass_def pending_bytes_def now_ms_def ask_def
      remaining_def poll_unless_def PollFd_def ready_def read_some_def)

lemma resp_loop_feed:
  assumes "\<forall>k<length r. find_str (crlf @ crlf) (acc @ take k r) = None"
    and "find_str (crlf @ crlf) (acc @ r) \<noteq> None" and "length (acc @ r) \<le> 1000"
    and "ws_env s = feed r" and "\<not> ws_ssl s" and "ws_read_buf s = []"
  shows "\<exists>s'. resp_loop 100 acc s = Some (Inr (acc @ r), s')"
  using assms
proof (induction r arbitrary: acc s)
  case Nil
  then show ?case by (simp add: resp_loop.simps [of 100 acc s])
next
  case (Cons c r)
  let ?s = "s \<lparr> ws_env := feed r, ws_in := ws_in s @ [byte_of c] \<rparr>"
  have none: "find_str (crlf @ crlf) acc = None" using Cons.prems(1) by (auto dest: spec [of _ 0])
  have "find_str (crlf @ crlf) ((acc @ [c]) @ take k r) = None" if "k < length r" for k
    using Cons.prems(1) that by (auto dest!: spec [of _ "Suc k"])
  with Cons.prems Cons.IH [of "acc @ [c]" ?s] obtain s' where
    "resp_loop 100 (acc @ [c]) ?s = Some (Inr (acc @ c # r), s')" by auto
  moreover have "ReadExact 1 100 (s \<lparr> ws_env := NowMs 0 # ready # RecvData [byte_of c] # feed r \<rparr>) =
      Some ((1, [byte_of c]), ?s)"
    using ReadExact_feed [of "s \<lparr> ws_env := NowMs 0 # ready # RecvData [byte_of c] # feed r \<rparr>"] Cons.prems
    by simp
  moreover have "now_ms s = Some (0, s \<lparr> ws_env := NowMs 0 # ready # RecvData [byte_of c] # feed r \<rparr>)"
    using Cons.prems(4) by (simp add: now_ms_def ask_def feed_def)
  ultimately show ?case
    using none Cons.prems(3) by (simp add: resp_loop.simps [of 100 acc s] remaining_def)
qed

definition sample_parts :: UrlParts where
  "sample_parts = \<lparr> up_secure = False, up_host = ''h'', up_port = 80, up_target = ''/'' \<rparr>"

definition sample_request :: "u8 list" where
  "sample_request = bytes_of (upgrade_request sample_parts (Base64Encode (replicate 16 0)))"

definition sample_upgrade :: string where
  "sample_upgrade = '' 101'' @ crlf @ accept_line sample_os (Base64Encode (replicate 16 0)) @ crlf @ crlf"

definition sample_connect :: "sys list" where
  "sample_connect =
     [AddrInfo 0 1, SocketAns True 0, ConnectAns 0 0, Rand (replicate 16 0), NowMs 0, NowMs 0, ready,
      SendOk (length sample_request), NowMs 0] @ feed sample_upgrade"

lemma sample_connect_ok: "\<exists>s. Connect sample_os ''ws://h'' 100 sample_connect = Some (Inr (), s)"
proof -
  let ?s1 = "new_ws ([Rand (replicate 16 0), NowMs 0, NowMs 0, ready, SendOk (length sample_request), NowMs 0] @
    feed sample_upgrade)"
  let ?s3 = "(new_ws (feed sample_upgrade)) \<lparr> ws_out := sample_request \<rparr>"
  have 1: "ParseWsUrl ''ws://h'' = Inr sample_parts" by code_simp
  have 2: "TcpConnect sample_os (new_ws sample_connect) = Some (Inr (), ?s1)"
    by (simp add: TcpConnect_def sample_connect_def new_ws_def ask_def)
  have "\<forall>k\<in>{..<length sample_upgrade}. find_str (crlf @ crlf) (take k sample_upgrade) = None"
    by code_simp
  then have "\<forall>k<length sample_upgrade. find_str (crlf @ crlf) ([] @ take k sample_upgrade) = None"
    by auto
  moreover have "find_str (crlf @ crlf) ([] @ sample_upgrade) \<noteq> None" by code_simp
  moreover have "length ([] @ sample_upgrade) \<le> 1000" by code_simp
  ultimately obtain s4 where 3: "resp_loop 100 [] ?s3 = Some (Inr sample_upgrade, s4)"
    using resp_loop_feed [of sample_upgrade "[]" ?s3] by (auto simp: new_ws_def)
  have 4: "check_upgrade sample_os (Base64Encode (replicate 16 0)) sample_upgrade = None" by code_simp
  have ne: "sample_request \<noteq> []" by code_simp
  have "WriteAll sample_os sample_request 100
      (new_ws ([NowMs 0, NowMs 0, ready, SendOk (length sample_request), NowMs 0] @ feed sample_upgrade)) =
      Some (None, (new_ws (NowMs 0 # feed sample_upgrade)) \<lparr> ws_out := sample_request \<rparr>)"
    using ne
    by (simp add: WriteAll_def write_loop.simps write_pass_def now_ms_def ask_def new_ws_def remaining_def
        PollFd_def ready_def write_some_def)
  with 3 4 have "upgrade sample_os sample_parts 100 ?s1 = Some (Inr (), s4)"
    by (simp add: upgrade_def rand_bytes_def ask_def new_ws_def now_ms_def sample_request_def)
  with 1 2 show ?thesis
    by (simp add: Connect_def tls_setup_def sample_parts_def)
qed

theorem Connect_verified_witness:
  "\<exists>s parts resp. Connect sample_os ''ws://h'' 100 sample_connect = Some (Inr (), s) \<and>
     ParseWsUrl ''ws://h'' = Inr parts \<and> ws_in s = bytes_of resp \<and> find_str '' 101'' resp \<noteq> None"
proof -
  obtain s where s: "Connect sample_os ''ws://h'' 100 sample_connect = Some (Inr (), s)"
    using sample_connect_ok by auto
  from Connect_verified [OF s] s show ?thesis by blast
qed

end
