(* ===== verification/WsBounds.thy ===== *)
theory WsBounds
  imports WsProps
begin

text \<open>
  Bounds of what \<^verbatim>\<open>Read\<close> accepts: the size of a frame, which is checked before any of the
  payload is read or memory for it is taken, and the values of its header fields.
\<close>

section \<open>Frames that are too long\<close>

lemma read_fail_took:
  "read_fail os w what l s = Some (r, s') \<Longrightarrow> ws_read_buf s = [] \<Longrightarrow>
     (\<exists>e. r = RDone (- 1) None e) \<and> took s [] s'"
  by (drule read_fail_result) (auto intro: took_same)

lemma send_pong_took: "send_pong os d p s = Some (u, s') \<Longrightarrow> ws_read_buf s = [] \<Longrightarrow> took s [] s'"
  by (auto intro: took_same send_pong_same)

lemma took_input: "took s bs s' \<Longrightarrow> ws_in s' = ws_in s @ bs \<and> ws_read_buf s' = []"
  by (simp add: took_def)

text \<open>The first part of a frame after its two header bytes, and what is read after it.\<close>

lemma read_rest_ext:
  assumes run: "read_rest os w d fd h0 h1 s = Some (r, s')" and empty: "ws_read_buf s = []"
  shows "\<exists>rc ext x. ws_in s' = ws_in s @ ext @ x \<and> length ext \<le> ext_size h1 \<and> (rc = 1 \<longleftrightarrow> length ext = ext_size h1) \<and>
    (rc \<noteq> (1 :: int) \<or> int (frame_len h1 ext) > kMaxFrame \<longrightarrow> x = [] \<and> (\<exists>e. r = RDone (- 1) None e))"
proof -
  from run obtain rc1 ext s1 where 1: "read_part (ext_size h1) fd s = Some ((rc1, ext), s1)"
    by (auto simp: read_rest_def split: option.splits)
  note t1 = read_part_took [OF 1 empty]
  then have in1: "ws_in s1 = ws_in s @ ext" "ws_read_buf s1 = []" by (simp_all add: took_def)
  show ?thesis
  proof (cases "rc1 \<noteq> 1 \<or> int (frame_len h1 ext) > kMaxFrame")
    case True
    then obtain what where "read_fail os w what False s1 = Some (r, s')"
      using run 1 by (auto simp: read_rest_def split: if_splits)
    from read_fail_took [OF this in1(2)] show ?thesis
      using in1 t1 by (intro exI [of _ rc1] exI [of _ ext] exI [of _ "[]"]) (auto simp: took_def)
  next
    case False
    with run 1 obtain rc2 key s2 where
      2: "read_part (if frame_masked h1 then 4 else 0) fd s1 = Some ((rc2, key), s2)"
      by (auto simp: read_rest_def split: option.splits)
    note in2 = took_input [OF conjunct1 [OF read_part_took [OF 2 in1(2)]]]
    have "\<exists>x. ws_in s' = ws_in s1 @ x"
    proof (cases "rc2 = 1")
      case False
      with run 1 2 \<open>\<not> (rc1 \<noteq> 1 \<or> int (frame_len h1 ext) > kMaxFrame)\<close>
      have "read_fail os w ''read mask key failed'' False s2 = Some (r, s')" by (simp add: read_rest_def)
      with in2 read_fail_took [OF this] show ?thesis by (auto simp: took_def)
    next
      case True
      with run 1 2 False obtain rc3 payload s3 where
        3: "read_part (frame_len h1 ext) fd s2 = Some ((rc3, payload), s3)"
        by (auto simp: read_rest_def split: option.splits)
      note in3 = took_input [OF conjunct1 [OF read_part_took [OF 3 conjunct2 [OF in2]]]]
      show ?thesis
        using run 1 2 3 in2 in3 True False
        by (auto simp: read_rest_def Let_def took_def split: if_splits dest!: read_fail_took send_pong_took)
    qed
    then obtain x where "ws_in s' = ws_in s1 @ x" by blast
    with in1 t1 False show ?thesis by (intro exI [of _ rc1] exI [of _ ext] exI [of _ x]) auto
  qed
qed

lemma read_rest_long:
  assumes "read_rest os w d fd h0 h1 s = Some (r, s')" and "ws_read_buf s = []"
    and "ws_in s' = ws_in s @ ext @ later" and "length ext = ext_size h1" and "kMaxFrame < int (frame_len h1 ext)"
  shows "later = [] \<and> (\<exists>e. r = RDone (- 1) None e)"
proof -
  obtain rc ext1 x where x: "ext @ later = ext1 @ x" "length ext1 \<le> ext_size h1"
    "rc = 1 \<longleftrightarrow> length ext1 = ext_size h1"
    "rc \<noteq> (1 :: int) \<or> int (frame_len h1 ext1) > kMaxFrame \<longrightarrow> x = [] \<and> (\<exists>e. r = RDone (- 1) None e)"
    using read_rest_ext [OF assms(1,2)] assms(3) by auto
  have "rc = 1"
  proof (rule ccontr)
    assume "rc \<noteq> 1"
    with x have "ext @ later = ext1" "length ext1 < ext_size h1" by auto
    then show False using assms(4) by auto
  qed
  with x(1,3) assms(4) have "ext1 = ext" "x = later" by simp_all
  with x(4) assms(5) show ?thesis by auto
qed

section \<open>Frames that are returned\<close>

lemma read_rest_bound:
  assumes "read_rest os w d fd h0 h1 s = Some (RDone rc (Some g) e, s')" and "ws_read_buf s = []"
  shows "int (length (wf_payload g)) \<le> kMaxFrame \<and> wf_opcode g < 16 \<and> \<not> is_control g"
proof -
  obtain ext payload key where "length payload = frame_len h1 ext"
    and g: "g = mk_frame h0 h1 key payload" and len: "int (frame_len h1 ext) \<le> kMaxFrame"
    and control: "\<not> is_control g"
    using assms
    by (auto simp: read_rest_def Let_def took_def is_control_def split: option.splits if_splits
        dest!: read_fail_result read_part_took)
  moreover have "h0 AND 0x0F < (16 :: 8 word)"
    using word_and_le1 [of h0 "0x0F"] by (simp add: word_le_def word_less_def)
  ultimately show ?thesis using g len control by (simp add: mk_frame_def )
qed

lemma read_once_bound:
  assumes "read_once os w d s = Some (RDone rc (Some g) e, s')" and "ws_read_buf s = []"
  shows "int (length (wf_payload g)) \<le> kMaxFrame \<and> wf_opcode g < 16 \<and> \<not> is_control g"
proof -
  obtain bs s1 where 1: "ReadExact 2 d s = Some ((1, bs), s1)"
    using assms(1) by (auto simp: read_once_def split: option.splits if_splits dest!: read_fail_result)
  then obtain t s2 where 2: "now_ms s1 = Some (t, s2)"
    and rest: "read_rest os w d (t + kFrameReadBudgetMs) (bs ! 0) (bs ! 1) s2 = Some (RDone rc (Some g) e, s')"
    using assms(1) by (auto simp: read_once_def split: option.splits)
  have "ws_read_buf s1 = []" using ReadExact_took [OF 1 assms(2)] by (simp add: took_def)
  then have "ws_read_buf s2 = []" using now_took [OF 2] by (simp add: took_def)
  with rest show ?thesis by (rule read_rest_bound)
qed

lemma read_once_long:
  assumes run: "read_once os w d s = Some (r, s')" and empty: "ws_read_buf s = []"
    and in': "ws_in s' = ws_in s @ h0 # h1 # ext @ later" and "length ext = ext_size h1"
    and "kMaxFrame < int (frame_len h1 ext)"
  shows "later = [] \<and> (\<exists>e. r = RDone (- 1) None e)"
proof -
  obtain rc bs s1 where 1: "ReadExact 2 d s = Some ((rc, bs), s1)"
    using run by (auto simp: read_once_def split: option.splits)
  note t1 = ReadExact_took [OF 1 empty]
  have "rc = 1"
  proof (rule ccontr)
    assume "rc \<noteq> 1"
    with run 1 t1 have "took s bs s'" "length bs < 2"
      by (auto simp: read_once_def took_def le_less split: if_splits dest!: read_fail_took)
    with in' show False by (auto simp: took_def)
  qed
  with run 1 obtain t s2 where 2: "now_ms s1 = Some (t, s2)"
    and rest: "read_rest os w d (t + kFrameReadBudgetMs) (bs ! 0) (bs ! 1) s2 = Some (r, s')"
    by (auto simp: read_once_def split: option.splits)
  have s2: "ws_in s2 = ws_in s @ bs" "ws_read_buf s2 = []" "length bs = 2"
    using t1 now_took [OF 2] \<open>rc = 1\<close> by (auto simp: took_def)
  obtain x where "ws_in s' = ws_in s2 @ x" using read_rest_ext [OF rest s2(2)] by auto
  with in' s2 have "bs @ x = [h0, h1] @ ext @ later" by simp
  then have "bs = [h0, h1]" "x = ext @ later" using s2(3) by (auto simp: numeral_2_eq_2 length_Suc_conv)
  then have "bs ! 0 = h0" "bs ! 1 = h1" and in2: "ws_in s' = ws_in s2 @ ext @ later" using in' s2 by simp_all
  from read_rest_long [OF rest [unfolded this(1,2)] s2(2) in2 assms(4,5)] show ?thesis .
qed

text \<open>A pass that went on took a whole frame, which was not too long.\<close>

lemma read_once_again:
  assumes run: "read_once os w d s = Some (RAgain, s1)" and empty: "ws_read_buf s = []"
    and in': "ws_in s1 @ x = ws_in s @ h0 # h1 # ext @ later" and ext: "length ext = ext_size h1"
  shows "int (frame_len h1 ext) \<le> kMaxFrame"
proof -
  obtain bs f where t: "took s bs s1" and dec: "decode_frame bs = Some (f, [])"
    using read_once_outcome [OF run empty] by (metis append_Nil2 read_iter.distinct(1))
  from dec obtain a b r where bs: "bs = a # b # r" "ext_size b \<le> length r"
    by (cases bs rule: decode_frame.cases) (auto simp: Let_def split: if_splits)
  have "bs @ x = h0 # h1 # ext @ later" using t in' by (simp add: took_def)
  then have ab: "a = h0" "b = h1" and tail: "r @ x = ext @ later" using bs by auto
  then have "take (ext_size h1) r = ext" using bs(2) ext by (metis append_eq_conv_conj take_append diff_is_0_eq' take0 append_Nil2)
  then obtain r' where "r = ext @ r'" by (metis append_take_drop_id)
  with t bs ab have "ws_in s1 = ws_in s @ h0 # h1 # ext @ r'" by (simp add: took_def)
  with read_once_long [OF run empty this ext] show ?thesis by fastforce
qed

lemma Read_loop_bound:
  "Read_loop os w d s = Some ((rc, Some g, e), s') \<Longrightarrow> ws_read_buf s = [] \<Longrightarrow>
     int (length (wf_payload g)) \<le> kMaxFrame \<and> wf_opcode g < 16 \<and> \<not> is_control g"
proof (induction "io_size s" arbitrary: s rule: less_induct)
  case less
  from less.prems(1) obtain q s1 where q: "read_once os w d s = Some (q, s1)"
    by (subst (asm) Read_loop.simps) (auto split: option.splits)
  note run = less.prems(1) [unfolded Read_loop.simps [of os w d s]]
  show ?case
  proof (cases q)
    case RAgain
    have "io_size s1 < io_size s" using read_once_io [OF q] RAgain by simp
    moreover have "ws_read_buf s1 = []"
      using read_once_outcome [OF q less.prems(2)] RAgain by (auto simp: took_def)
    ultimately show ?thesis using less.hyps [of s1] run q RAgain by simp
  next
    case (RDone rc1 f1 e1)
    with run q have "q = RDone rc (Some g) e" "s' = s1" by simp_all
    with read_once_bound less.prems(2) q show ?thesis by blast
  qed
qed

lemma read_once_grows:
  assumes run: "read_once os w d s = Some (r, s')" and empty: "ws_read_buf s = []"
  shows "\<exists>x. ws_in s' = ws_in s @ x"
proof -
  obtain rc bs s1 where 1: "ReadExact 2 d s = Some ((rc, bs), s1)"
    using run by (auto simp: read_once_def split: option.splits)
  note t1 = took_input [OF conjunct1 [OF ReadExact_took [OF 1 empty]]]
  show ?thesis
  proof (cases "rc = 1")
    case True
    with run 1 obtain t s2 where 2: "now_ms s1 = Some (t, s2)"
      and rest: "read_rest os w d (t + kFrameReadBudgetMs) (bs ! 0) (bs ! 1) s2 = Some (r, s')"
      by (auto simp: read_once_def split: option.splits)
    have "ws_read_buf s2 = []" "ws_in s2 = ws_in s @ bs" using now_took [OF 2] t1 by (auto simp: took_def)
    with read_rest_ext [OF rest] show ?thesis by auto
  next
    case False
    with run 1 t1 show ?thesis
      by (auto simp: read_once_def took_def split: if_splits dest!: read_fail_took)
  qed
qed

lemma Read_loop_grows: "Read_loop os w d s = Some (r, s') \<Longrightarrow> ws_read_buf s = [] \<Longrightarrow> \<exists>x. ws_in s' = ws_in s @ x"
proof (induction "io_size s" arbitrary: s rule: less_induct)
  case less
  from less.prems(1) obtain q s1 where q: "read_once os w d s = Some (q, s1)"
    by (subst (asm) Read_loop.simps) (auto split: option.splits)
  note run = less.prems(1) [unfolded Read_loop.simps [of os w d s]]
  obtain x where x: "ws_in s1 = ws_in s @ x" using read_once_grows [OF q less.prems(2)] by blast
  show ?case
  proof (cases q)
    case RAgain
    have "io_size s1 < io_size s" using read_once_io [OF q] RAgain by simp
    moreover have "ws_read_buf s1 = []"
      using read_once_outcome [OF q less.prems(2)] RAgain by (auto simp: took_def)
    ultimately show ?thesis using less.hyps [of s1] run q RAgain x by auto
  next
    case (RDone rc f e)
    with run q x show ?thesis by auto
  qed
qed

section \<open>Property\<close>

text \<open>
  Claim C17. The size of what the peer can make the client take in: a frame that \<^verbatim>\<open>Read\<close> returns has
  at most 64 MiB of payload, a four-bit opcode, and is no ping or pong; and when the peer
  announces more, \<^verbatim>\<open>Read\<close> fails after the length field: neither the masking key nor a byte of
  the payload is taken from the transport, and no memory is set aside for it.
\<close>

theorem Read_bounds:
  assumes "Read os w timeout s = Some ((rc, f, e), s')" and "ws_read_buf s = []"
  shows "pred_option (\<lambda>g. length (wf_payload g) \<le> 64 * 1024 * 1024 \<and> wf_opcode g < 16 \<and>
      wf_opcode g \<noteq> 0x9 \<and> wf_opcode g \<noteq> 0xA) f \<and>
    (\<forall>h0 h1 ext later. ws_in s' = ws_in s @ h0 # h1 # ext @ later \<and> length ext = ext_size h1 \<and>
       64 * 1024 * 1024 < frame_len h1 ext \<longrightarrow> rc = - 1 \<and> f = None \<and> later = [])"
proof -
  obtain t s1 where 1: "now_ms s = Some (t, s1)" and loop: "Read_loop os w (t + timeout) s1 = Some ((rc, f, e), s')"
    using assms(1) by (auto simp: Read_def split: option.splits)
  have s1: "ws_in s1 = ws_in s" "ws_read_buf s1 = []" using now_took [OF 1 assms(2)] by (simp_all add: took_def)
  have long: "rc = - 1 \<and> f = None \<and> later = []"
    if in': "ws_in s' = ws_in s @ h0 # h1 # ext @ later" and ext: "length ext = ext_size h1"
      and len: "64 * 1024 * 1024 < frame_len h1 ext" for h0 h1 ext later
  proof -
    have big: "kMaxFrame < int (frame_len h1 ext)" using len by (simp add: kMaxFrame_def)
    obtain q s2 where q: "read_once os w (t + timeout) s1 = Some (q, s2)"
      using loop by (subst (asm) Read_loop.simps) (auto split: option.splits)
    show ?thesis
    proof (cases q)
      case RAgain
      with loop q have loop2: "Read_loop os w (t + timeout) s2 = Some ((rc, f, e), s')" by (simp add: Read_loop.simps [of _ _ _ s1])
      have "ws_read_buf s2 = []" using read_once_outcome [OF q s1(2)] RAgain by (auto simp: took_def)
      then obtain x where "ws_in s' = ws_in s2 @ x" using Read_loop_grows [OF loop2] by blast
      with read_once_again [OF q [unfolded RAgain] s1(2) _ ext, of x h0 later] in' s1(1) big show ?thesis by simp
    next
      case (RDone rc1 f1 e1)
      with loop q have r: "q = RDone rc f e" "s' = s2" by (simp_all add: Read_loop.simps [of _ _ _ s1])
      with read_once_long [OF q s1(2) _ ext big, of h0 later] in' s1(1) show ?thesis by simp
    qed
  qed
  have "pred_option (\<lambda>g. length (wf_payload g) \<le> 64 * 1024 * 1024 \<and> wf_opcode g < 16 \<and>
      wf_opcode g \<noteq> 0x9 \<and> wf_opcode g \<noteq> 0xA) f"
    using loop s1(2) Read_loop_bound [of os w "t + timeout" s1 rc _ e s']
    by (cases f) (auto simp: kMaxFrame_def is_control_def)
  with long show ?thesis by blast
qed

text \<open>A peer that announces one byte more than is accepted.\<close>

definition sample_long :: ws where
  "sample_long = new_ws [NowMs 0, NowMs 0, ready, RecvData [0x82, 127], NowMs 0,
     NowMs 0, ready, RecvData [0, 0, 0, 0, 4, 0, 0, 1]]"

lemma sample_long_len: "frame_len 127 [0, 0, 0, 0, 4, 0, 0, 1] = 67108865"
proof -
  have "be_value [0, 0, 0, 0, 4, 0, 0, 1] = 67108865" by code_simp
  then show ?thesis by (simp add: frame_len_def ext_size_def)
qed

lemma sample_long_run:
  "Read sample_os False 100 sample_long =
     Some ((- 1, None, None), sample_long \<lparr> ws_env := [], ws_in := [0x82, 127, 0, 0, 0, 0, 4, 0, 0, 1] \<rparr>)"
proof -
  let ?rest = "[NowMs 0, NowMs 0, ready, RecvData [0, 0, 0, 0, 4, 0, 0, 1]]"
  have head: "now_ms sample_long = Some (0, sample_long \<lparr> ws_env := tl (ws_env sample_long) \<rparr>)"
    "ReadExact 2 100 (sample_long \<lparr> ws_env := tl (ws_env sample_long) \<rparr>) =
       Some ((1, [0x82, 127]), sample_long \<lparr> ws_env := ?rest, ws_in := [0x82, 127] \<rparr>)"
    by code_simp+
  have part: "now_ms (sample_long \<lparr> ws_env := ?rest, ws_in := [0x82, 127] \<rparr>) =
      Some (0, sample_long \<lparr> ws_env := tl ?rest, ws_in := [0x82, 127] \<rparr>)"
    "read_part (ext_size 127) kFrameReadBudgetMs (sample_long \<lparr> ws_env := tl ?rest, ws_in := [0x82, 127] \<rparr>) =
       Some ((1, [0, 0, 0, 0, 4, 0, 0, 1]),
         sample_long \<lparr> ws_env := [], ws_in := [0x82, 127, 0, 0, 0, 0, 4, 0, 0, 1] \<rparr>)"
    by code_simp+
  show ?thesis
    by (simp add: Read_def Read_loop.simps [of _ _ 100] read_once_def read_rest_def head part [simplified]
        sample_long_len kMaxFrame_def read_fail_def)
qed

theorem Read_bounds_witness:
  "\<exists>s'. Read sample_os False 100 sample_long = Some ((- 1, None, None), s') \<and>
     ws_in s' = ws_in sample_long @ 0x82 # 127 # [0, 0, 0, 0, 4, 0, 0, 1] \<and>
     64 * 1024 * 1024 < frame_len 127 [0, 0, 0, 0, 4, 0, 0, 1]"
proof -
  have "ws_read_buf sample_long = []" "ws_in sample_long = []" by (simp_all add: sample_long_def new_ws_def)
  moreover have "length [0, 0, 0, 0, 4, 0, 0, 1] = ext_size 127" by (simp add: ext_size_def)
  ultimately show ?thesis
    using Read_bounds [OF sample_long_run] sample_long_run sample_long_len by simp
qed

end
