(* ===== verification/Sigpipe.thy ===== *)
theory Sigpipe
  imports Asr_Error
begin

text \<open>
  SIGPIPE handling: \<^verbatim>\<open>ScopedSigpipeSuppressor\<close> of \<^verbatim>\<open>src/ws_client.cc\<close> (on the platforms
  that need the guard) and \<^verbatim>\<open>IgnoreSigpipeProcessWide\<close> of \<^verbatim>\<open>src/sigpipe.cc\<close>. The state is
  what the kernel keeps for the calling thread: its signal mask, whether a SIGPIPE is
  pending, how many have been delivered to the host, the disposition, and \<^verbatim>\<open>errno\<close>. The
  code that runs inside the scope is described by the locale \<open>io_call\<close>; guarded calls meet
  it again, so scopes nest.
\<close>

datatype disposition = SIG_DFL | SIG_IGN | Handler

record sig_state =
  sg_mask :: "nat set"
  sg_pending :: bool
  sg_delivered :: nat
  sg_disposition :: disposition
  sg_errno :: int

definition SIGPIPE :: nat where
  "SIGPIPE = 13"

text \<open>Delivery ends the process or runs the handler; an ignored signal vanishes.\<close>

definition deliver :: "sig_state \<Rightarrow> sig_state" where
  "deliver s = (if sg_disposition s = SIG_IGN then s else s \<lparr> sg_delivered := Suc (sg_delivered s) \<rparr>)"

text \<open>The kernel's reaction to a write on a connection whose peer is gone.\<close>

definition raise_sigpipe :: "sig_state \<Rightarrow> sig_state" where
  "raise_sigpipe s =
     (if sg_disposition s = SIG_IGN then s
      else if SIGPIPE \<in> sg_mask s then s \<lparr> sg_pending := True \<rparr>
      else deliver s)"

text \<open>\<^verbatim>\<open>pthread_sigmask\<close>: a pending signal that is no longer blocked is delivered.\<close>

definition set_mask :: "nat set \<Rightarrow> sig_state \<Rightarrow> sig_state" where
  "set_mask m s =
     (let s1 = s \<lparr> sg_mask := m \<rparr>
      in if sg_pending s \<and> SIGPIPE \<notin> m then deliver (s1 \<lparr> sg_pending := False \<rparr>) else s1)"

record suppressor =
  sup_old_mask :: "nat set"
  sup_blocked :: bool
  sup_was_pending :: bool

text \<open>
  The constructor. \<open>pend_ok\<close> and \<open>mask_ok\<close> tell whether \<^verbatim>\<open>sigpending\<close> and
  \<^verbatim>\<open>pthread_sigmask\<close> succeed.
\<close>

definition suppressor_ctor :: "bool \<Rightarrow> bool \<Rightarrow> sig_state \<Rightarrow> suppressor \<times> sig_state" where
  "suppressor_ctor pend_ok mask_ok s =
     (\<lparr> sup_old_mask = sg_mask s, sup_blocked = mask_ok,
        sup_was_pending = (pend_ok \<and> sg_pending s) \<rparr>,
      if mask_ok then set_mask (insert SIGPIPE (sg_mask s)) s else s)"

text \<open>
  \<^verbatim>\<open>do rc = sigtimedwait(...) while (rc < 0 && errno == EINTR)\<close> for a pending signal that
  is interrupted \<open>n\<close> times first.
\<close>

fun sigtimedwait_loop :: "nat \<Rightarrow> sig_state \<Rightarrow> sig_state" where
  "sigtimedwait_loop 0 s = s \<lparr> sg_pending := False \<rparr>"
| "sigtimedwait_loop (Suc n) s = sigtimedwait_loop n (s \<lparr> sg_errno := 4 \<rparr>)"

definition suppressor_dtor :: "bool \<Rightarrow> nat \<Rightarrow> suppressor \<Rightarrow> sig_state \<Rightarrow> sig_state" where
  "suppressor_dtor pend_ok eintrs g s =
     (if \<not> sup_blocked g then s
      else let saved_errno = sg_errno s;
               s1 = (if \<not> sup_was_pending g \<and> pend_ok \<and> sg_pending s
                     then sigtimedwait_loop eintrs s else s);
               s2 = set_mask (sup_old_mask g) s1
           in s2 \<lparr> sg_errno := saved_errno \<rparr>)"

text \<open>A block \<^verbatim>\<open>{ ScopedSigpipeSuppressor no_sigpipe; body }\<close>.\<close>

definition guarded :: "nat \<Rightarrow> (sig_state \<Rightarrow> sig_state) \<Rightarrow> sig_state \<Rightarrow> sig_state" where
  "guarded eintrs body s =
     (let (g, s1) = suppressor_ctor True True s
      in suppressor_dtor True eintrs g (body s1))"

text \<open>An OpenSSL call that writes \<open>n\<close> times to a dead connection and leaves \<open>e\<close> in \<^verbatim>\<open>errno\<close>.\<close>

definition ssl_io :: "nat \<Rightarrow> int \<Rightarrow> sig_state \<Rightarrow> sig_state" where
  "ssl_io n e s = ((raise_sigpipe ^^ n) s) \<lparr> sg_errno := e \<rparr>"

definition IgnoreSigpipeProcessWide :: "bool \<Rightarrow> sig_state \<Rightarrow> bool \<times> sig_state" where
  "IgnoreSigpipeProcessWide sigaction_ok s =
     (if sigaction_ok then (True, s \<lparr> sg_disposition := SIG_IGN, sg_pending := False \<rparr>) else (False, s))"

section \<open>The contract of a call inside a scope\<close>

locale io_call =
  fixes body :: "sig_state \<Rightarrow> sig_state"
  assumes keeps_mask: "sg_mask (body s) = sg_mask s"
    and keeps_disposition: "sg_disposition (body s) = sg_disposition s"
    and keeps_delivered: "SIGPIPE \<in> sg_mask s \<Longrightarrow> sg_delivered (body s) = sg_delivered s"
    and keeps_pending: "SIGPIPE \<in> sg_mask s \<Longrightarrow> sg_pending s \<Longrightarrow> sg_pending (body s)"
begin

lemma drain_fields:
  "sg_mask (sigtimedwait_loop n s) = sg_mask s" "sg_delivered (sigtimedwait_loop n s) = sg_delivered s"
  "\<not> sg_pending (sigtimedwait_loop n s)" "sg_disposition (sigtimedwait_loop n s) = sg_disposition s"
  by (induction n s rule: sigtimedwait_loop.induct) auto

text \<open>
  A guarded call leaves the mask and the disposition as they were, and \<^verbatim>\<open>errno\<close> as the call
  left it. No SIGPIPE is delivered, and a signal is pending afterwards exactly if it was
  before, provided a pending signal was blocked, as pending signals are.
\<close>

lemma guarded_effect:
  assumes "sg_pending s \<Longrightarrow> SIGPIPE \<in> sg_mask s"
  shows "sg_mask (guarded n body s) = sg_mask s"
    and "sg_disposition (guarded n body s) = sg_disposition s"
    and "sg_delivered (guarded n body s) = sg_delivered s"
    and "sg_pending (guarded n body s) = sg_pending s"
    and "sg_errno (guarded n body s) = sg_errno (body (snd (suppressor_ctor True True s)))"
proof -
  let ?s1 = "snd (suppressor_ctor True True s)"
  have s1: "SIGPIPE \<in> sg_mask ?s1" "sg_delivered ?s1 = sg_delivered s" "sg_pending ?s1 = sg_pending s"
    "sg_disposition ?s1 = sg_disposition s"
    by (simp_all add: suppressor_ctor_def set_mask_def)
  note b = keeps_disposition [of ?s1] keeps_delivered [OF s1(1)] keeps_pending [OF s1(1)]
  show "sg_mask (guarded n body s) = sg_mask s"
    by (simp add: guarded_def suppressor_ctor_def suppressor_dtor_def set_mask_def deliver_def Let_def)
  show "sg_disposition (guarded n body s) = sg_disposition s"
    using b s1 by (simp add: guarded_def suppressor_ctor_def suppressor_dtor_def set_mask_def deliver_def
        Let_def drain_fields)
  show "sg_delivered (guarded n body s) = sg_delivered s" and "sg_pending (guarded n body s) = sg_pending s"
    using b s1 assms
    by (auto simp: guarded_def suppressor_ctor_def suppressor_dtor_def set_mask_def deliver_def
        Let_def drain_fields)
  show "sg_errno (guarded n body s) = sg_errno (body ?s1)"
    by (simp add: guarded_def suppressor_ctor_def suppressor_dtor_def Let_def)
qed

end

lemma guarded_io_call:
  assumes "io_call body"
  shows "io_call (guarded n body)"
proof -
  have pending_ctor: "SIGPIPE \<in> sg_mask s \<Longrightarrow> sg_pending (snd (suppressor_ctor True True s)) = sg_pending s" for s
    by (simp add: suppressor_ctor_def set_mask_def)
  show ?thesis
  proof
    fix s
    show "sg_mask (guarded n body s) = sg_mask s"
      by (simp add: guarded_def suppressor_ctor_def suppressor_dtor_def set_mask_def deliver_def Let_def)
    show "sg_disposition (guarded n body s) = sg_disposition s"
      using io_call.keeps_disposition [OF assms] io_call.drain_fields [OF assms]
      by (simp add: guarded_def suppressor_ctor_def suppressor_dtor_def set_mask_def deliver_def Let_def)
    assume "SIGPIPE \<in> sg_mask s"
    then show "sg_delivered (guarded n body s) = sg_delivered s"
      using io_call.guarded_effect(3) [OF assms] by blast
    assume "sg_pending s"
    then show "sg_pending (guarded n body s)"
      using io_call.guarded_effect(4) [OF assms, of s n] \<open>SIGPIPE \<in> sg_mask s\<close> by simp
  qed
qed

lemma raise_fields:
  "sg_mask ((raise_sigpipe ^^ n) s) = sg_mask s \<and> sg_disposition ((raise_sigpipe ^^ n) s) = sg_disposition s \<and>
   (SIGPIPE \<in> sg_mask s \<longrightarrow> sg_delivered ((raise_sigpipe ^^ n) s) = sg_delivered s \<and>
      (sg_pending s \<longrightarrow> sg_pending ((raise_sigpipe ^^ n) s)))"
  by (induction n) (auto simp: raise_sigpipe_def deliver_def)

interpretation ssl: io_call "ssl_io n e"
  by unfold_locales (auto simp: ssl_io_def raise_fields)

interpretation nested: io_call "guarded k (ssl_io n e)"
  by (rule guarded_io_call) unfold_locales

section \<open>Properties\<close>

text \<open>
  Claim C33. A TLS call under the guard never lets a SIGPIPE reach the host application, however
  often the call writes to a dead connection and in whatever state the thread is: no signal
  is delivered, a signal the host had pending stays pending and none is left over, the mask
  and the disposition are restored, and \<^verbatim>\<open>errno\<close> is the one the call left, also when
  the draining \<^verbatim>\<open>sigtimedwait\<close> is interrupted.
\<close>

theorem guarded_ssl_quiet:
  assumes "sg_pending s \<longrightarrow> SIGPIPE \<in> sg_mask s"
  shows "guarded k (ssl_io n e) s = s \<lparr> sg_errno := e \<rparr>"
proof -
  have "sg_errno (ssl_io n e t) = e" for t by (simp add: ssl_io_def)
  with ssl.guarded_effect [of s k n e] assms show ?thesis
    by (intro sig_state.equality) simp_all
qed

definition calm :: sig_state where
  "calm = \<lparr> sg_mask = {}, sg_pending = False, sg_delivered = 0, sg_disposition = SIG_DFL, sg_errno = 0 \<rparr>"

theorem guarded_ssl_quiet_witness:
  "\<not> sg_pending calm \<and>
   guarded 2 (ssl_io 3 32) calm = calm \<lparr> sg_errno := 32 \<rparr> \<and>
   sg_delivered (ssl_io 3 32 calm) = 3"
  using guarded_ssl_quiet [of calm 2 3 32]
  by (simp add: calm_def ssl_io_def raise_sigpipe_def deliver_def numeral_3_eq_3)

end
