(* ===== verification/HttpClient.thy ===== *)
theory HttpClient
  imports UserSig Credential Query WsFrame
begin

text \<open>
  The HTTP side of the SDK: the wrapper over libcurl (\<^verbatim>\<open>src/http_client.cc\<close>) and the parts
  every HTTP request shares, that is the request id, the UserSig and the checks on the
  response. libcurl, the clocks and the random generator belong to the outside world: a
  \<open>world\<close> holds their successive answers and the requests that were made. An operation
  takes the world and returns a value or an exception with the world afterwards.
\<close>

datatype curl_answer =
    CurlInitFailed
  | CurlFailed int string      \<comment> \<open>the CURLcode, and the part of the body received\<close>
  | CurlDone int string        \<comment> \<open>HTTP status and body\<close>

record http_request =
  hr_url :: string
  hr_body :: string
  hr_headers :: "string list"
  hr_timeout :: int

record world =
  wd_uuid :: "nat \<Rightarrow> u64 \<times> u64"
  wd_sig_time :: "nat \<Rightarrow> int"      \<comment> \<open>the clock when the UserSig of request n is made\<close>
  wd_time :: "nat \<Rightarrow> int"          \<comment> \<open>the clock when the URL of request n is built\<close>
  wd_curl :: "nat \<Rightarrow> curl_answer"
  wd_steady :: "nat \<Rightarrow> int"
  wd_ids :: nat
  wd_requests :: nat
  wd_ticks :: nat
  wd_slept :: int
  wd_log :: "http_request list"

text \<open>Parameters of the build: target, JSON library, zlib, curl's messages, stack content.\<close>

record sdk_env =
  se_build :: build_target
  se_json :: json_lib
  se_zlib :: compressor
  se_curl_strerror :: "int \<Rightarrow> string"
  se_junk :: "u8 list"

type_synonym 'a sdk = "world \<Rightarrow> 'a result \<times> world"

definition bindW :: "'a sdk \<Rightarrow> ('a \<Rightarrow> 'b sdk) \<Rightarrow> 'b sdk" where
  "bindW m f w = (case m w of (Inl e, w') \<Rightarrow> (Inl e, w') | (Inr x, w') \<Rightarrow> f x w')"

definition liftW :: "'a result \<Rightarrow> 'a sdk" where
  "liftW r w = (r, w)"

lemma bindW_liftW [simp]: "bindW (liftW r) f w = (case r of Inl e \<Rightarrow> (Inl e, w) | Inr x \<Rightarrow> f x w)"
  by (simp add: bindW_def liftW_def split: sum.split)

lemma liftW_apply [simp]: "liftW r w = (r, w)"
  by (simp add: liftW_def)

lemma bindW_simps:
  "m w = (Inl e, w') \<Longrightarrow> bindW m f w = (Inl e, w')"
  "m w = (Inr x, w') \<Longrightarrow> bindW m f w = f x w'"
  by (simp_all add: bindW_def)

lemma bindW_Inr_iff:
  "bindW m f w = (Inr y, w'') \<longleftrightarrow> (\<exists>x w'. m w = (Inr x, w') \<and> f x w' = (Inr y, w''))"
  by (auto simp: bindW_def split: prod.splits sum.splits)

section \<open>Time\<close>

text \<open>
  \<^verbatim>\<open>std::chrono::steady_clock\<close> in nanoseconds. A reading is what the code has spent running,
  \<open>wd_steady\<close>, plus what it has spent in \<^verbatim>\<open>std::this_thread::sleep_for\<close>, which blocks for
  at least the given time and not at all for a negative one.
\<close>

definition steady_now :: "world \<Rightarrow> int \<times> world" where
  "steady_now w = (wd_steady w (wd_ticks w) + wd_slept w, w \<lparr> wd_ticks := Suc (wd_ticks w) \<rparr>)"

definition ns_of_ms :: "int \<Rightarrow> int" where
  "ns_of_ms ms = ms * 1000000"

definition sleep_for :: "int \<Rightarrow> world \<Rightarrow> world" where
  "sleep_for ms w = w \<lparr> wd_slept := wd_slept w + max 0 (ns_of_ms ms) \<rparr>"

text \<open>An operation that neither reads the clock nor sleeps, and makes at most \<open>n\<close> requests.\<close>

definition time_kept :: "nat \<Rightarrow> world \<Rightarrow> world \<Rightarrow> bool" where
  "time_kept n w w' \<longleftrightarrow>
     wd_steady w' = wd_steady w \<and> wd_ticks w' = wd_ticks w \<and> wd_slept w' = wd_slept w \<and>
     wd_curl w' = wd_curl w \<and> wd_requests w \<le> wd_requests w' \<and> wd_requests w' \<le> wd_requests w + n"

definition requests_at_most :: "nat \<Rightarrow> 'a sdk \<Rightarrow> bool" where
  "requests_at_most n m \<longleftrightarrow> (\<forall>w. time_kept n w (snd (m w)))"

section \<open>HttpPost\<close>

record HttpResponse =
  hp_status :: int
  hp_body :: string

text \<open>
  \<open>err\<close> is the caller's error pointer: \<open>Some e\<close> for a string holding \<open>e\<close>, None for
  \<^verbatim>\<open>nullptr\<close>. Both failure paths write through it.
\<close>

definition set_err :: "string option \<Rightarrow> string \<Rightarrow> string option result" where
  "set_err err msg =
     (case err of None \<Rightarrow> Inl (Undefined ''null pointer write in HttpPost'') | Some _ \<Rightarrow> Inr (Some msg))"

definition HttpPost ::
  "sdk_env \<Rightarrow> string \<Rightarrow> string \<Rightarrow> string list \<Rightarrow> int \<Rightarrow> string option \<Rightarrow> (HttpResponse \<times> string option) sdk" where
  "HttpPost env url json_body headers timeout_seconds err w =
     (let w' = w \<lparr> wd_requests := Suc (wd_requests w),
                   wd_log := wd_log w @ [\<lparr> hr_url = url, hr_body = json_body, hr_headers = headers,
                                          hr_timeout = timeout_seconds \<rparr>] \<rparr>
      in case wd_curl w (wd_requests w) of
           CurlInitFailed \<Rightarrow>
             (bindE (set_err err ''curl init failed'') (\<lambda>e.
                Inr (\<lparr> hp_status = 0, hp_body = [] \<rparr>, e)), w \<lparr> wd_requests := Suc (wd_requests w) \<rparr>)
         | CurlFailed rc part \<Rightarrow>
             (bindE (set_err err (''http request failed: '' @ se_curl_strerror env rc)) (\<lambda>e.
                Inr (\<lparr> hp_status = 0, hp_body = part \<rparr>, e)), w')
         | CurlDone status body \<Rightarrow> (Inr (\<lparr> hp_status = status, hp_body = body \<rparr>, err), w'))"

section \<open>Requests to the v2 interface\<close>

text \<open>
  The UserSig of a request: the caller's, or one generated for the request id with a
  validity of a day.
\<close>

definition request_sig :: "sdk_env \<Rightarrow> Credential \<Rightarrow> int \<Rightarrow> string \<Rightarrow> string result" where
  "request_sig env cred now request_id =
     (if cr_user_sig cred \<noteq> [] then Inr (cr_user_sig cred)
      else rethrow_asr_as kErrAuthFailed ''generate user sig failed: ''
             (GenUserSig (se_junk env) (se_zlib env) now (cr_sdk_app_id cred) (cr_secret_key cred)
                request_id 86400))"

definition api_url ::
  "sdk_env \<Rightarrow> Credential \<Rightarrow> string \<Rightarrow> string \<Rightarrow> string \<Rightarrow> int \<Rightarrow> string result" where
  "api_url env cred endpoint path request_id now =
     bindE (ResolveHTTPEndpoint endpoint (cr_site cred)) (\<lambda>origin.
     Inr (origin @ path @ ''?AppId='' @ app_id_str cred @ ''&Secretid='' @ app_id_str cred @
          ''&RequestId='' @ request_id @ ''&Timestamp='' @ to_string now @ ''&'' @
          SdkReportQuery (se_build env)))"

definition api_headers :: "Credential \<Rightarrow> string \<Rightarrow> string list" where
  "api_headers cred user_sig =
     [''Content-Type: application/json; charset=utf-8'',
      ''X-TRTC-SdkAppId: '' @ to_string (cr_sdk_app_id cred),
      ''X-TRTC-UserSig: '' @ user_sig]"

text \<open>\<^verbatim>\<open>HttpPost(..., &err)\<close> with an empty \<^verbatim>\<open>err\<close>, and the checks that follow it.\<close>

definition post_checked :: "sdk_env \<Rightarrow> string \<Rightarrow> string \<Rightarrow> string list \<Rightarrow> int \<Rightarrow> string sdk" where
  "post_checked env url body headers timeout =
     bindW (HttpPost env url body headers timeout (Some [])) (\<lambda>(resp, err).
     liftW (
       bindE (throw_if (err \<noteq> Some []) (ASRError kErrConnectFailed (the err))) (\<lambda>_.
       bindE (throw_if (hp_status resp \<noteq> 200)
                (ASRError kErrServerError (''http status '' @ to_string (hp_status resp) @ '': '' @ hp_body resp)))
         (\<lambda>_. Inr (hp_body resp)))))"

text \<open>
  A whole request: id, ticket, URL and POST, as \<^verbatim>\<open>SentenceRecognizer::Recognize\<close> and
  \<^verbatim>\<open>FileRecognizer::DoRequest\<close> both spell it out. \<open>mk_body\<close> is evaluated where the
  respective source does it: after the URL is built.
\<close>

definition api_request ::
  "sdk_env \<Rightarrow> Credential \<Rightarrow> string \<Rightarrow> int \<Rightarrow> string \<Rightarrow> string result \<Rightarrow> string sdk" where
  "api_request env cred endpoint timeout path mk_body w =
     (let n = wd_ids w;
          request_id = GenerateUuid (fst (wd_uuid w n)) (snd (wd_uuid w n))
      in bindW (liftW (request_sig env cred (wd_sig_time w n) request_id)) (\<lambda>user_sig.
         bindW (liftW (api_url env cred endpoint path request_id (wd_time w n))) (\<lambda>url.
         bindW (liftW mk_body) (\<lambda>body.
         post_checked env url body (api_headers cred user_sig) timeout)))
           (w \<lparr> wd_ids := Suc n \<rparr>))"

section \<open>The response envelope\<close>

definition api_error :: "json \<Rightarrow> json \<Rightarrow> exn" where
  "api_error api_err response =
     ASRError kErrServerError
       (''server error ['' @ StringFieldOrEmpty api_err ''Code'' @ '']: '' @
        StringFieldOrEmpty api_err ''Message'' @ '' (RequestId: '' @
        StringFieldOrEmpty response ''RequestId'' @ '')'')"

definition ParseApiEnvelope :: "json_lib \<Rightarrow> string \<Rightarrow> json result" where
  "ParseApiEnvelope jl body =
     bindE (rethrow_as kErrReadFailed ''unmarshal response failed: '' (jl_parse jl body)) (\<lambda>root.
     case jmember is_object root ''Response'' of
       None \<Rightarrow> Inl (ASRError kErrServerError ''empty response from server'')
     | Some response \<Rightarrow>
         (case jmember is_object response ''Error'' of
            Some api_err \<Rightarrow> Inl (api_error api_err response)
          | None \<Rightarrow> Inr response))"

section \<open>Every failure is an ASRError\<close>

lemma sdk_outcome_rethrow_asr: "sdk_outcome m \<Longrightarrow> sdk_outcome (rethrow_asr_as code pre m)"
proof (cases m)
  case (Inl e)
  then show "sdk_outcome m \<Longrightarrow> ?thesis" by (cases e) auto
qed simp

lemma GenUserSig_sdk_outcome: "sdk_outcome (GenUserSig junk z now a k u e)"
  unfolding GenUserSig_def GenUserSigAt_def Let_def
  by (intro sdk_outcome_bindE) (simp_all add: ZlibCompress_cases)

lemma request_sig_outcome: "sdk_outcome (request_sig env cred now rid)"
  by (simp add: request_sig_def GenUserSig_sdk_outcome sdk_outcome_rethrow_asr)

lemma HostForSite_outcome: "sdk_outcome (HostForSite s)"
  by (simp add: HostForSite_def Let_def)

lemma api_url_outcome: "sdk_outcome (api_url env cred ep path rid now)"
  unfolding api_url_def ResolveHTTPEndpoint_def HTTPEndpointForSite_def
  by (auto intro!: sdk_outcome_bindE HostForSite_outcome)

lemma post_checked_outcome: "sdk_outcome (fst (post_checked env url body headers timeout w))"
  by (auto simp: post_checked_def bindW_def HttpPost_def Let_def set_err_def throw_if_def
      split: curl_answer.split)

lemma sdk_outcome_bindW:
  "sdk_outcome (fst (m w)) \<Longrightarrow> (\<And>x w'. m w = (Inr x, w') \<Longrightarrow> sdk_outcome (fst (f x w'))) \<Longrightarrow>
   sdk_outcome (fst (bindW m f w))"
  by (auto simp: bindW_def split: prod.splits sum.splits)

lemma api_request_outcome:
  assumes "sdk_outcome mk_body"
  shows "sdk_outcome (fst (api_request env cred ep timeout path mk_body w))"
  unfolding api_request_def Let_def
  by (intro sdk_outcome_bindW)
    (simp_all add: request_sig_outcome api_url_outcome post_checked_outcome assms)

lemma json_lib_parse_defined: "json_lib_ok jl \<Longrightarrow> no_undefined (jl_parse jl s)"
proof (cases "jl_parse jl s")
  case (Inl e)
  then show "json_lib_ok jl \<Longrightarrow> ?thesis" unfolding json_lib_ok_def by (metis no_undefined_simps(3))
qed simp

lemma ParseApiEnvelope_outcome:
  assumes "json_lib_ok jl"
  shows "sdk_outcome (ParseApiEnvelope jl body)"
  unfolding ParseApiEnvelope_def
  using sdk_outcome_rethrow [OF json_lib_parse_defined [OF assms]]
  by (rule sdk_outcome_bindE) (auto simp: api_error_def split: option.split)

lemma ParseApiEnvelope_Inr_iff:
  "ParseApiEnvelope jl body = Inr r \<longleftrightarrow>
     (\<exists>root. jl_parse jl body = Inr root \<and> jmember is_object root ''Response'' = Some r \<and>
             jmember is_object r ''Error'' = None)"
  by (auto simp: ParseApiEnvelope_def bindE_Inr_iff split: option.splits)

lemma ParseApiEnvelope_safe:
  "ParseApiEnvelope jl body = Inr r \<Longrightarrow> jl_parse jl body = Inr doc \<Longrightarrow> json_safe doc \<Longrightarrow> json_safe r"
  by (auto simp: ParseApiEnvelope_Inr_iff intro: json_safe_jmember)

section \<open>Effects on the world\<close>

lemma time_kept_trans: "time_kept a w w' \<Longrightarrow> time_kept b w' w'' \<Longrightarrow> time_kept (a + b) w w''"
  by (simp add: time_kept_def)

lemma time_kept_mono: "time_kept a w w' \<Longrightarrow> a \<le> b \<Longrightarrow> time_kept b w w'"
  by (simp add: time_kept_def)

lemma requests_at_most_liftW [simp]: "requests_at_most n (liftW r)"
  by (simp add: requests_at_most_def time_kept_def)

lemma requests_at_most_bind:
  assumes "requests_at_most a m" and "\<And>x. requests_at_most b (f x)"
  shows "requests_at_most (a + b) (bindW m f)"
  unfolding requests_at_most_def
proof
  fix w
  obtain r w1 where m: "m w = (r, w1)" by (metis surj_pair)
  then have k: "time_kept a w w1" using assms(1) unfolding requests_at_most_def by (metis snd_conv)
  show "time_kept (a + b) w (snd (bindW m f w))"
  proof (cases r)
    case (Inl e)
    with m k show ?thesis by (simp add: bindW_def time_kept_mono)
  next
    case (Inr x)
    have "time_kept b w1 (snd (f x w1))" using assms(2) unfolding requests_at_most_def by blast
    with Inr m time_kept_trans [OF k] show ?thesis by (simp add: bindW_def)
  qed
qed

lemma requests_at_most_HttpPost: "requests_at_most 1 (HttpPost env url body headers timeout err)"
  by (auto simp: requests_at_most_def HttpPost_def Let_def time_kept_def split: curl_answer.split)

lemma requests_at_most_post: "requests_at_most 1 (post_checked env url body headers timeout)"
proof -
  have "requests_at_most (1 + 0) (post_checked env url body headers timeout)"
    unfolding post_checked_def
    by (rule requests_at_most_bind [OF requests_at_most_HttpPost]) (simp add: case_prod_beta)
  then show ?thesis by simp
qed

lemma requests_at_most_ids:
  fixes m :: "world \<Rightarrow> 'a sdk"
  assumes "\<And>v. requests_at_most n (m v)"
  shows "requests_at_most n (\<lambda>w. m w (w \<lparr> wd_ids := Suc (wd_ids w) \<rparr>))"
  unfolding requests_at_most_def
proof
  fix w :: world
  let ?w = "w \<lparr> wd_ids := Suc (wd_ids w) \<rparr>"
  have "time_kept n ?w (snd (m w ?w))" using assms unfolding requests_at_most_def by blast
  then show "time_kept n w (snd (m w ?w))" by (simp add: time_kept_def)
qed

lemma requests_at_most_pure:
  "(\<And>x. requests_at_most n (f x)) \<Longrightarrow> requests_at_most n (bindW (liftW r) f)"
  using requests_at_most_bind [of 0 "liftW r" n f] by simp

lemma requests_at_most_api: "requests_at_most 1 (api_request env cred ep timeout path mk_body)"
  unfolding api_request_def Let_def
  by (rule requests_at_most_ids) (intro requests_at_most_pure requests_at_most_post)

text \<open>The answer the network gives to the next request, as the client sees it.\<close>

lemma post_checked_cases:
  "post_checked env url body headers timeout w =
     (case wd_curl w (wd_requests w) of
        CurlInitFailed \<Rightarrow> (Inl (ASRError kErrConnectFailed ''curl init failed''),
          w \<lparr> wd_requests := Suc (wd_requests w) \<rparr>)
      | CurlFailed rc part \<Rightarrow>
          (Inl (ASRError kErrConnectFailed (''http request failed: '' @ se_curl_strerror env rc)),
           w \<lparr> wd_requests := Suc (wd_requests w), wd_log := wd_log w @ [\<lparr> hr_url = url, hr_body = body,
                hr_headers = headers, hr_timeout = timeout \<rparr>] \<rparr>)
      | CurlDone status b \<Rightarrow>
          (if status = 200 then Inr b
           else Inl (ASRError kErrServerError (''http status '' @ to_string status @ '': '' @ b)),
           w \<lparr> wd_requests := Suc (wd_requests w), wd_log := wd_log w @ [\<lparr> hr_url = url, hr_body = body,
                hr_headers = headers, hr_timeout = timeout \<rparr>] \<rparr>))"
  by (simp add: post_checked_def bindW_def HttpPost_def Let_def set_err_def throw_if_def
      split: curl_answer.split)

end
