(* ===== verification/Wire.thy ===== *)
theory Wire
  imports HttpClient
begin

text \<open>
  Building the JSON body of a request: \<^verbatim>\<open>j["k"] = v\<close> on an object, with the
  "omitempty" conditions the serialisers put around most assignments, and reading it back
  with the defaults a server uses for an absent member. The last part says what a request
  to the HTTP interface does when every step before the network succeeds.
\<close>

section \<open>Conditional members\<close>

text \<open>\<^verbatim>\<open>if (v != 0) j[k] = v;\<close> and \<^verbatim>\<open>if (!v.empty()) j[k] = v;\<close>\<close>

definition jput_int :: "string \<Rightarrow> int \<Rightarrow> json smap \<Rightarrow> json smap" where
  "jput_int k i m = put_if (i \<noteq> 0) k (JInt i) m"

definition jput_str :: "string \<Rightarrow> string \<Rightarrow> json smap \<Rightarrow> json smap" where
  "jput_str k s m = put_if (s \<noteq> []) k (JStr s) m"

definition jput_strs :: "string \<Rightarrow> string list \<Rightarrow> json smap \<Rightarrow> json smap" where
  "jput_strs k ss m = put_if (ss \<noteq> []) k (JArr (map JStr ss)) m"

definition jput_opt_int :: "string \<Rightarrow> int option \<Rightarrow> json smap \<Rightarrow> json smap" where
  "jput_opt_int k v m = put_opt k (map_option JInt v) m"

definition jput_opt_dbl :: "string \<Rightarrow> dbl option \<Rightarrow> json smap \<Rightarrow> json smap" where
  "jput_opt_dbl k v m = put_opt k (map_option JFloat v) m"

lemma mget_jput [simp]:
  "mget (jput_int k i m) k' = (if k' = k \<and> i \<noteq> 0 then Some (JInt i) else mget m k')"
  "mget (jput_str k s m) k' = (if k' = k \<and> s \<noteq> [] then Some (JStr s) else mget m k')"
  "mget (jput_strs k ss m) k' = (if k' = k \<and> ss \<noteq> [] then Some (JArr (map JStr ss)) else mget m k')"
  "mget (jput_opt_int k oi m) k' = (if k' = k \<and> oi \<noteq> None then map_option JInt oi else mget m k')"
  "mget (jput_opt_dbl k od m) k' = (if k' = k \<and> od \<noteq> None then map_option JFloat od else mget m k')"
  by (auto simp: jput_int_def jput_str_def jput_strs_def jput_opt_int_def jput_opt_dbl_def)

lemma mwf_jput [simp]:
  "mwf m \<Longrightarrow> mwf (jput_int k i m)" "mwf m \<Longrightarrow> mwf (jput_str k s m)"
  "mwf m \<Longrightarrow> mwf (jput_strs k ss m)" "mwf m \<Longrightarrow> mwf (jput_opt_int k oi m)"
  "mwf m \<Longrightarrow> mwf (jput_opt_dbl k od m)"
  by (simp_all add: jput_int_def jput_str_def jput_strs_def jput_opt_int_def jput_opt_dbl_def)

text \<open>All values of an object, as a predicate that is easy to carry through the assignments.\<close>

definition all_values :: "(json \<Rightarrow> bool) \<Rightarrow> json smap \<Rightarrow> bool" where
  "all_values P m \<longleftrightarrow> list_all (\<lambda>p. P (snd p)) m"

lemma all_values_Nil [simp]: "all_values P []"
  by (simp add: all_values_def)

lemma all_values_mput [simp]: "all_values P m \<Longrightarrow> P v \<Longrightarrow> all_values P (mput k v m)"
  unfolding all_values_def by (induction k v m rule: mput.induct) auto

lemma all_values_put_if [simp]: "all_values P m \<Longrightarrow> (c \<Longrightarrow> P v) \<Longrightarrow> all_values P (put_if c k v m)"
  by (simp add: put_if_def)

lemma all_values_put_opt [simp]:
  "all_values P m \<Longrightarrow> pred_option P v \<Longrightarrow> all_values P (put_opt k v m)"
  by (cases v) (simp_all add: put_opt_def)

lemma all_values_jput [simp]:
  "all_values json_wf m \<Longrightarrow> all_values json_wf (jput_int k i m)"
  "all_values json_wf m \<Longrightarrow> all_values json_wf (jput_str k s m)"
  "all_values json_wf m \<Longrightarrow> all_values json_wf (jput_strs k ss m)"
  "all_values json_wf m \<Longrightarrow> all_values json_wf (jput_opt_int k oi m)"
  "all_values json_wf m \<Longrightarrow> pred_option (\<lambda>d. json_wf (JFloat d)) od \<Longrightarrow>
     all_values json_wf (jput_opt_dbl k od m)"
  by (simp_all add: jput_int_def jput_str_def jput_strs_def jput_opt_int_def jput_opt_dbl_def
      list_all_iff option.pred_map option.pred_True comp_def)

lemma json_wf_obj: "mwf m \<Longrightarrow> all_values json_wf m \<Longrightarrow> json_wf (JObj m)"
  by (simp add: all_values_def)

section \<open>Reading a member back\<close>

text \<open>
  A server reads an absent number as 0, an absent string as empty and an absent list as
  empty, so leaving out exactly these values loses nothing.
\<close>

definition field_strs :: "json \<Rightarrow> string \<Rightarrow> string list result" where
  "field_strs j k = (case jmember is_array j k of None \<Rightarrow> Inr [] | Some a \<Rightarrow> mapE get_str (elements a))"

definition field_opt :: "(json \<Rightarrow> 'a result) \<Rightarrow> json \<Rightarrow> string \<Rightarrow> 'a option result" where
  "field_opt get j k = (case jfind j k of None \<Rightarrow> Inr None | Some v \<Rightarrow> bindE (get v) (\<lambda>x. Inr (Some x)))"

lemma mapE_get_str [simp]: "mapE get_str (map JStr ss) = Inr ss"
  by (induction ss) auto

lemma case_if_Some:
  "(case (if c then Some v else None) of None \<Rightarrow> a | Some x \<Rightarrow> f x) = (if c then f v else a)"
  by simp

lemma default_value:
  "(if s \<noteq> [] then Inr s else Inr []) = Inr s"
  "(if i \<noteq> 0 then Inr i else Inr 0) = Inr i"
  by simp_all

lemma default_int:
  "in_i32 i \<Longrightarrow> (if i \<noteq> 0 then get_i32 (JInt i) else Inr 0) = Inr i"
  "in_i64 i \<Longrightarrow> (if i \<noteq> 0 then get_i64 (JInt i) else Inr 0) = Inr i"
  by simp_all

lemma case_opt_member:
  "pred_option in_i32 oi \<Longrightarrow> (case (if oi \<noteq> None then map_option JInt oi else None) of None \<Rightarrow> Inr None
     | Some v \<Rightarrow> bindE (get_i32 v) (\<lambda>x. Inr (Some x))) = Inr oi"
  "(case (if od \<noteq> None then map_option JFloat od else None) of None \<Rightarrow> Inr None
     | Some v \<Rightarrow> bindE (get_f64 v) (\<lambda>x. Inr (Some x))) = Inr od"
  by (cases oi; simp) (cases od; simp)

lemma case_strs_member:
  "(case (if ss \<noteq> [] then Some (JArr (map JStr ss)) else None) of None \<Rightarrow> None
      | Some v \<Rightarrow> if is_array v then Some v else None) =
   (if ss \<noteq> [] then Some (JArr (map JStr ss)) else None)"
  by simp

text \<open>Reading the members of an object built by the assignments.\<close>

lemmas member_reads = case_if_Some default_value default_int case_opt_member case_strs_member

lemma Base64Encode_nonempty: "data \<noteq> [] \<Longrightarrow> Base64Encode data \<noteq> []"
  by (cases data rule: Base64Encode.cases) (auto simp: Let_def)

section \<open>A library that knows some documents\<close>

definition doc_lib :: "(string \<times> json) list \<Rightarrow> json_lib" where
  "doc_lib docs =
     \<lparr> jl_parse = (\<lambda>s. case map_of docs s of Some j \<Rightarrow> Inr j | None \<Rightarrow> Inl (StdException ''parse error'')),
       jl_dump = (\<lambda>j. case map_of (map (\<lambda>(s, j). (j, s)) docs) j of Some s \<Rightarrow> Inr s
                        | None \<Rightarrow> Inl (StdException ''invalid UTF-8'')) \<rparr>"

lemma doc_lib_ok: "distinct (map fst docs) \<Longrightarrow> json_lib_ok (doc_lib docs)"
  by (auto simp: json_lib_ok_def doc_lib_def split: option.splits dest!: map_of_SomeD
      intro: eq_key_imp_eq_value)

definition sample_env :: "(string \<times> json) list \<Rightarrow> sdk_env" where
  "sample_env docs =
     \<lparr> se_build = \<lparr> def_WIN32 = False, def_ANDROID = False, def_APPLE = False, TARGET_OS_IPHONE = False,
                    def_linux = True \<rparr>,
       se_json = doc_lib docs, se_zlib = stored, se_curl_strerror = (\<lambda>_. ''failed''), se_junk = [] \<rparr>"

definition sample_world :: "curl_answer list \<Rightarrow> world" where
  "sample_world answers =
     \<lparr> wd_uuid = (\<lambda>_. (0, 0)), wd_sig_time = (\<lambda>_. 1700000000), wd_time = (\<lambda>_. 1700000000),
       wd_curl = (\<lambda>n. if n < length answers then answers ! n else CurlInitFailed),
       wd_steady = (\<lambda>n. int n), wd_ids = 0, wd_requests = 0, wd_ticks = 0, wd_slept = 0, wd_log = [] \<rparr>"

definition sample_credential :: Credential where
  "sample_credential = set_user_sig ''sig'' (new_Credential 1300000000 1400000000 ''key'')"

lemma sample_simps:
  "se_json (sample_env docs) = doc_lib docs"
  "wd_curl (sample_world answers) n = (if n < length answers then answers ! n else CurlInitFailed)"
  "wd_requests (sample_world answers) = 0" "wd_slept (sample_world answers) = 0"
  "wd_steady (sample_world answers) = int"
  "request_sig (sample_env docs) sample_credential now rid = Inr ''sig''"
  "HostForSite (cr_site sample_credential) = Inr kHostCN"
  by (simp_all add: sample_env_def sample_world_def request_sig_def sample_credential_def
      set_user_sig_def new_Credential_def HostForSite_def trim_def trim_back.simps fun_eq_iff)

section \<open>A request that reaches the network\<close>

definition api_post :: "sdk_env \<Rightarrow> Credential \<Rightarrow> string \<Rightarrow> int \<Rightarrow> string \<Rightarrow> string \<Rightarrow> world \<Rightarrow> http_request \<Rightarrow> bool" where
  "api_post env cred endpoint timeout path body w q \<longleftrightarrow>
     (let n = wd_ids w; rid = GenerateUuid (fst (wd_uuid w n)) (snd (wd_uuid w n))
      in \<exists>sig. request_sig env cred (wd_sig_time w n) rid = Inr sig \<and>
         api_url env cred endpoint path rid (wd_time w n) = Inr (hr_url q) \<and>
         hr_body q = body \<and> hr_headers q = api_headers cred sig \<and> hr_timeout q = timeout)"

lemma api_post_body: "api_post env cred ep timeout path body w q \<Longrightarrow> hr_body q = body"
  by (auto simp: api_post_def Let_def)

lemma api_request_posts:
  assumes "api_request env cred ep timeout path mk_body w = (Inr text, w')"
  shows "\<exists>body q. mk_body = Inr body \<and> api_post env cred ep timeout path body w q \<and>
    wd_curl w (wd_requests w) = CurlDone 200 text \<and> wd_log w' = wd_log w @ [q]"
proof -
  let ?rid = "GenerateUuid (fst (wd_uuid w (wd_ids w))) (snd (wd_uuid w (wd_ids w)))"
  let ?w = "w \<lparr> wd_ids := Suc (wd_ids w) \<rparr>"
  obtain sig url body where s: "request_sig env cred (wd_sig_time w (wd_ids w)) ?rid = Inr sig"
    and u: "api_url env cred ep path ?rid (wd_time w (wd_ids w)) = Inr url" and b: "mk_body = Inr body"
    and p: "post_checked env url body (api_headers cred sig) timeout ?w = (Inr text, w')"
    using assms by (auto simp: api_request_def Let_def split: sum.splits)
  let ?q = "\<lparr> hr_url = url, hr_body = body, hr_headers = api_headers cred sig, hr_timeout = timeout \<rparr>"
  have "wd_curl w (wd_requests w) = CurlDone 200 text \<and> wd_log w' = wd_log w @ [?q]"
    using p by (auto simp: post_checked_cases split: curl_answer.splits if_splits)
  with s u b show ?thesis by (auto simp: api_post_def Let_def)
qed

lemma api_request_ok:
  assumes "request_sig env cred (wd_sig_time w (wd_ids w))
      (GenerateUuid (fst (wd_uuid w (wd_ids w))) (snd (wd_uuid w (wd_ids w)))) = Inr sig"
    and "HostForSite (cr_site cred) = Inr h" and "wd_curl w (wd_requests w) = CurlDone 200 text"
  shows "\<exists>q w'. api_request env cred ep timeout path (Inr body) w = (Inr text, w') \<and>
     api_post env cred ep timeout path body w q \<and> wd_log w' = wd_log w @ [q]"
proof -
  let ?rid = "GenerateUuid (fst (wd_uuid w (wd_ids w))) (snd (wd_uuid w (wd_ids w)))"
  obtain url where u: "api_url env cred ep path ?rid (wd_time w (wd_ids w)) = Inr url"
    using Resolve_endpoints [OF assms(2), of ep] by (simp add: api_url_def)
  show ?thesis
    unfolding api_request_def api_post_def Let_def
    using assms(1,3) u by (simp add: post_checked_cases)
qed

end
