(* ===== verification/SentenceRecognizer.thy ===== *)
theory SentenceRecognizer
  imports Wire Responses
begin

text \<open>
  One-shot recognition over HTTP: \<^verbatim>\<open>include/trtc_asr/sentence_recognizer.h\<close> and
  \<^verbatim>\<open>src/sentence_recognizer.cc\<close>. \<open>read_sentence_request\<close> and \<open>sentence_result_json\<close> are the
  service's side of the exchange; they state what the client has to write and read.
\<close>

record SentenceWord =
  sw_word :: string
  sw_start_time :: int
  sw_end_time :: int

record SentenceRecognitionResult =
  srr_result :: string
  srr_audio_duration :: int
  srr_word_size :: int
  srr_word_list :: "SentenceWord list"
  srr_request_id :: string

record SentenceRecognitionRequest =
  sq_eng_service_type :: string
  sq_source_type :: int
  sq_voice_format :: string
  sq_url :: string
  sq_data :: string
  sq_data_len :: int
  sq_word_info :: int
  sq_filter_dirty :: int
  sq_filter_modal :: int
  sq_filter_punc :: int
  sq_convert_num_mode :: int
  sq_hotword_id :: string
  sq_hotword_list :: string
  sq_customization_id :: string
  sq_input_sample_rate :: int
  sq_language :: string

definition new_SentenceRecognitionRequest :: SentenceRecognitionRequest where
  "new_SentenceRecognitionRequest =
     \<lparr> sq_eng_service_type = [], sq_source_type = 0, sq_voice_format = [], sq_url = [], sq_data = [],
       sq_data_len = 0, sq_word_info = 0, sq_filter_dirty = 0, sq_filter_modal = 0,
       sq_filter_punc = 0, sq_convert_num_mode = 0, sq_hotword_id = [], sq_hotword_list = [],
       sq_customization_id = [], sq_input_sample_rate = 0, sq_language = [] \<rparr>"

record SentenceRecognizer =
  se_credential :: Credential
  se_endpoint :: string
  se_timeout_seconds :: int

definition kSourceTypeURL :: int where "kSourceTypeURL = 0"
definition kSourceTypeData :: int where "kSourceTypeData = 1"
definition kMaxAudioSize :: int where "kMaxAudioSize = 3 * 1024 * 1024"

lemmas source_types = kSourceTypeURL_def kSourceTypeData_def

definition new_SentenceRecognizer :: "Credential \<Rightarrow> SentenceRecognizer" where
  "new_SentenceRecognizer cred =
     \<lparr> se_credential = cred, se_endpoint = [], se_timeout_seconds = 30 \<rparr>"

definition SentenceSetEndpoint :: "string \<Rightarrow> SentenceRecognizer \<Rightarrow> SentenceRecognizer" where
  "SentenceSetEndpoint ep r = r \<lparr> se_endpoint := ep \<rparr>"

section \<open>Serialising a request\<close>

definition sentence_request_json :: "SentenceRecognitionRequest \<Rightarrow> json" where
  "sentence_request_json req = JObj (
     jput_str ''Language'' (sq_language req) (
     jput_int ''InputSampleRate'' (sq_input_sample_rate req) (
     jput_str ''CustomizationId'' (sq_customization_id req) (
     jput_str ''HotwordList'' (sq_hotword_list req) (
     jput_str ''HotwordId'' (sq_hotword_id req) (
     jput_int ''ConvertNumMode'' (sq_convert_num_mode req) (
     jput_int ''FilterPunc'' (sq_filter_punc req) (
     jput_int ''FilterModal'' (sq_filter_modal req) (
     jput_int ''FilterDirty'' (sq_filter_dirty req) (
     jput_int ''WordInfo'' (sq_word_info req) (
     jput_int ''DataLen'' (sq_data_len req) (
     jput_str ''Data'' (sq_data req) (
     jput_str ''Url'' (sq_url req) (
     mput ''VoiceFormat'' (JStr (sq_voice_format req)) (
     mput ''SourceType'' (JInt (sq_source_type req)) (
     mput ''EngSerViceType'' (JStr (sq_eng_service_type req)) []))))))))))))))))"

definition SerializeSentenceRequest :: "json_lib \<Rightarrow> SentenceRecognitionRequest \<Rightarrow> string result" where
  "SerializeSentenceRequest jl req = jl_dump jl (sentence_request_json req)"

definition ValidateSentenceRequest :: "SentenceRecognitionRequest \<Rightarrow> unit result" where
  "ValidateSentenceRequest req =
     bindE (throw_if (sq_eng_service_type req = []) (invalid_param ''EngServiceType is required'')) (\<lambda>_.
     bindE (throw_if (sq_voice_format req = []) (invalid_param ''VoiceFormat is required'')) (\<lambda>_.
     bindE (throw_if (sq_source_type req = kSourceTypeURL \<and> sq_url req = [])
       (invalid_param ''Url is required when SourceType=0'')) (\<lambda>_.
     throw_if (sq_source_type req = kSourceTypeData \<and> sq_data req = [])
       (invalid_param ''Data is required when SourceType=1''))))"

section \<open>Reading a result\<close>

definition ParseSentenceWord :: "json \<Rightarrow> SentenceWord result" where
  "ParseSentenceWord j =
     bindE (value_str j ''Word'') (\<lambda>word.
     bindE (value_i64 j ''StartTime'') (\<lambda>start_time.
     bindE (value_i64 j ''EndTime'') (\<lambda>end_time.
     Inr \<lparr> sw_word = word, sw_start_time = start_time, sw_end_time = end_time \<rparr>)))"

definition ParseSentenceResult :: "json \<Rightarrow> SentenceRecognitionResult result" where
  "ParseSentenceResult response =
     bindE (value_str response ''Result'') (\<lambda>result.
     bindE (value_i64 response ''AudioDuration'') (\<lambda>audio_duration.
     bindE (value_i32 response ''WordSize'') (\<lambda>word_size.
     bindE (value_str response ''RequestId'') (\<lambda>request_id.
     bindE (case jmember is_array response ''WordList'' of
              None \<Rightarrow> Inr [] | Some a \<Rightarrow> mapE ParseSentenceWord (elements a)) (\<lambda>word_list.
     Inr \<lparr> srr_result = result, srr_audio_duration = audio_duration, srr_word_size = word_size,
           srr_word_list = word_list, srr_request_id = request_id \<rparr>)))))"

section \<open>The operations\<close>

definition Recognize ::
  "sdk_env \<Rightarrow> SentenceRecognizer \<Rightarrow> SentenceRecognitionRequest \<Rightarrow> SentenceRecognitionResult sdk" where
  "Recognize env self req =
     bindW (liftW (ValidateSentenceRequest req)) (\<lambda>_.
     bindW (api_request env (se_credential self) (se_endpoint self) (se_timeout_seconds self)
              ''/v1/SentenceRecognition'' (SerializeSentenceRequest (se_json env) req)) (\<lambda>body.
     bindW (liftW (ParseApiEnvelope (se_json env) body)) (\<lambda>response.
     liftW (rethrow_as kErrReadFailed ''unmarshal response failed: '' (ParseSentenceResult response)))))"

text \<open>The audio of a request: checked for size, encoded, and its length recorded.\<close>

definition with_audio :: "u8 list \<Rightarrow> SentenceRecognitionRequest \<Rightarrow> SentenceRecognitionRequest" where
  "with_audio data req =
     req \<lparr> sq_source_type := kSourceTypeData, sq_data := Base64Encode data,
           sq_data_len := int (length data) \<rparr>"

definition RecognizeData ::
  "sdk_env \<Rightarrow> SentenceRecognizer \<Rightarrow> u8 list \<Rightarrow> string \<Rightarrow> string \<Rightarrow> SentenceRecognitionResult sdk" where
  "RecognizeData env self data voice_format engine_model_type =
     bindW (liftW (throw_if (data = []) (invalid_param ''audio data is empty''))) (\<lambda>_.
     bindW (liftW (throw_if (int (length data) > kMaxAudioSize)
       (invalid_param ''audio data exceeds 3MB limit''))) (\<lambda>_.
     Recognize env self (with_audio data
       (new_SentenceRecognitionRequest \<lparr> sq_eng_service_type := engine_model_type,
          sq_voice_format := voice_format \<rparr>))))"

definition RecognizeURL ::
  "sdk_env \<Rightarrow> SentenceRecognizer \<Rightarrow> string \<Rightarrow> string \<Rightarrow> string \<Rightarrow> SentenceRecognitionResult sdk" where
  "RecognizeURL env self audio_url voice_format engine_model_type =
     bindW (liftW (throw_if (audio_url = []) (invalid_param ''audio URL is empty''))) (\<lambda>_.
     Recognize env self (new_SentenceRecognitionRequest \<lparr> sq_eng_service_type := engine_model_type,
       sq_source_type := kSourceTypeURL, sq_voice_format := voice_format, sq_url := audio_url \<rparr>))"

text \<open>
  The request is passed by pointer and written to: the second component of the result is
  what the caller's request holds afterwards, also when the call throws.
\<close>

definition RecognizeDataWithOptions ::
  "sdk_env \<Rightarrow> SentenceRecognizer \<Rightarrow> u8 list \<Rightarrow> SentenceRecognitionRequest option \<Rightarrow> world \<Rightarrow>
     (SentenceRecognitionResult result \<times> world) \<times> SentenceRecognitionRequest option" where
  "RecognizeDataWithOptions env self raw_data req w =
     (case req of
        None \<Rightarrow> ((Inl (invalid_param ''request is null''), w), None)
      | Some q \<Rightarrow>
          if raw_data = [] then ((Inl (invalid_param ''audio data is empty''), w), Some q)
          else if int (length raw_data) > kMaxAudioSize
          then ((Inl (invalid_param ''audio data exceeds 3MB limit''), w), Some q)
          else (Recognize env self (with_audio raw_data q) w, Some (with_audio raw_data q)))"

section \<open>The service's side\<close>

definition read_sentence_request :: "json \<Rightarrow> SentenceRecognitionRequest result" where
  "read_sentence_request j =
     bindE (value_str j ''EngSerViceType'') (\<lambda>eng.
     bindE (value_i32 j ''SourceType'') (\<lambda>src.
     bindE (value_str j ''VoiceFormat'') (\<lambda>fmt.
     bindE (value_str j ''Url'') (\<lambda>url.
     bindE (value_str j ''Data'') (\<lambda>data.
     bindE (value_i64 j ''DataLen'') (\<lambda>data_len.
     bindE (value_i32 j ''WordInfo'') (\<lambda>word_info.
     bindE (value_i32 j ''FilterDirty'') (\<lambda>dirty.
     bindE (value_i32 j ''FilterModal'') (\<lambda>modal.
     bindE (value_i32 j ''FilterPunc'') (\<lambda>punc.
     bindE (value_i32 j ''ConvertNumMode'') (\<lambda>num.
     bindE (value_str j ''HotwordId'') (\<lambda>hot.
     bindE (value_str j ''HotwordList'') (\<lambda>hots.
     bindE (value_str j ''CustomizationId'') (\<lambda>custom.
     bindE (value_i32 j ''InputSampleRate'') (\<lambda>rate.
     bindE (value_str j ''Language'') (\<lambda>language.
     Inr \<lparr> sq_eng_service_type = eng, sq_source_type = src, sq_voice_format = fmt, sq_url = url,
           sq_data = data, sq_data_len = data_len, sq_word_info = word_info, sq_filter_dirty = dirty,
           sq_filter_modal = modal, sq_filter_punc = punc, sq_convert_num_mode = num,
           sq_hotword_id = hot, sq_hotword_list = hots, sq_customization_id = custom,
           sq_input_sample_rate = rate, sq_language = language \<rparr>))))))))))))))))"

text \<open>The integers of a request fit the fields of the C++ struct.\<close>

definition sentence_request_fits :: "SentenceRecognitionRequest \<Rightarrow> bool" where
  "sentence_request_fits q \<longleftrightarrow> in_i64 (sq_data_len q) \<and> list_all in_i32
     [sq_source_type q, sq_word_info q, sq_filter_dirty q, sq_filter_modal q, sq_filter_punc q,
      sq_convert_num_mode q, sq_input_sample_rate q]"

definition sentence_word_json :: "SentenceWord \<Rightarrow> json" where
  "sentence_word_json w = JObj [(''EndTime'', JInt (sw_end_time w)),
     (''StartTime'', JInt (sw_start_time w)), (''Word'', JStr (sw_word w))]"

definition sentence_result_json :: "SentenceRecognitionResult \<Rightarrow> json" where
  "sentence_result_json r = JObj [(''AudioDuration'', JInt (srr_audio_duration r)),
     (''RequestId'', JStr (srr_request_id r)), (''Result'', JStr (srr_result r)),
     (''WordList'', JArr (map sentence_word_json (srr_word_list r))),
     (''WordSize'', JInt (srr_word_size r))]"

definition sentence_result_fits :: "SentenceRecognitionResult \<Rightarrow> bool" where
  "sentence_result_fits r \<longleftrightarrow> in_i64 (srr_audio_duration r) \<and> in_i32 (srr_word_size r) \<and>
     list_all (\<lambda>w. in_i64 (sw_start_time w) \<and> in_i64 (sw_end_time w)) (srr_word_list r)"

section \<open>Lemmas\<close>

lemma sentence_request_wf: "json_wf (sentence_request_json req)"
  unfolding sentence_request_json_def by (rule json_wf_obj) (simp_all del: mput.simps)

lemma sentence_members:
  "value_str (sentence_request_json q) ''EngSerViceType'' = Inr (sq_eng_service_type q)"
  "in_i32 (sq_source_type q) \<Longrightarrow> value_i32 (sentence_request_json q) ''SourceType'' = Inr (sq_source_type q)"
  "value_str (sentence_request_json q) ''VoiceFormat'' = Inr (sq_voice_format q)"
  "value_str (sentence_request_json q) ''Url'' = Inr (sq_url q)"
  "value_str (sentence_request_json q) ''Data'' = Inr (sq_data q)"
  "in_i64 (sq_data_len q) \<Longrightarrow> value_i64 (sentence_request_json q) ''DataLen'' = Inr (sq_data_len q)"
  "in_i32 (sq_word_info q) \<Longrightarrow> value_i32 (sentence_request_json q) ''WordInfo'' = Inr (sq_word_info q)"
  "in_i32 (sq_filter_dirty q) \<Longrightarrow> value_i32 (sentence_request_json q) ''FilterDirty'' = Inr (sq_filter_dirty q)"
  "in_i32 (sq_filter_modal q) \<Longrightarrow> value_i32 (sentence_request_json q) ''FilterModal'' = Inr (sq_filter_modal q)"
  "in_i32 (sq_filter_punc q) \<Longrightarrow> value_i32 (sentence_request_json q) ''FilterPunc'' = Inr (sq_filter_punc q)"
  "in_i32 (sq_convert_num_mode q) \<Longrightarrow> value_i32 (sentence_request_json q) ''ConvertNumMode'' = Inr (sq_convert_num_mode q)"
  "value_str (sentence_request_json q) ''HotwordId'' = Inr (sq_hotword_id q)"
  "value_str (sentence_request_json q) ''HotwordList'' = Inr (sq_hotword_list q)"
  "value_str (sentence_request_json q) ''CustomizationId'' = Inr (sq_customization_id q)"
  "in_i32 (sq_input_sample_rate q) \<Longrightarrow> value_i32 (sentence_request_json q) ''InputSampleRate'' = Inr (sq_input_sample_rate q)"
  "value_str (sentence_request_json q) ''Language'' = Inr (sq_language q)"
  by (simp_all add: sentence_request_json_def member_reads del: mput.simps)

lemma read_sentence_request_json:
  "sentence_request_fits q \<Longrightarrow> read_sentence_request (sentence_request_json q) = Inr q"
  by (simp add: read_sentence_request_def sentence_request_fits_def sentence_members)

lemma ParseSentenceResult_json:
  assumes "sentence_result_fits r"
  shows "ParseSentenceResult (sentence_result_json r) = Inr r"
proof -
  have "mapE ParseSentenceWord (map sentence_word_json (srr_word_list r)) = Inr (srr_word_list r)"
    using assms
    by (intro mapE_inverse)
      (auto simp: sentence_result_fits_def list_all_iff ParseSentenceWord_def sentence_word_json_def)
  with assms show ?thesis
    by (simp add: ParseSentenceResult_def sentence_result_json_def sentence_result_fits_def)
qed

lemma ParseSentenceResult_defined:
  assumes "json_safe j"
  shows "no_undefined (ParseSentenceResult j)"
  unfolding ParseSentenceResult_def ParseSentenceWord_def
  by (intro no_undefined_bindE values_defined assms array_member_defined) simp_all

section \<open>The validator\<close>

definition sentence_request_ok :: "SentenceRecognitionRequest \<Rightarrow> bool" where
  "sentence_request_ok q \<longleftrightarrow> sq_eng_service_type q \<noteq> [] \<and> sq_voice_format q \<noteq> [] \<and>
     (sq_source_type q = 0 \<longrightarrow> sq_url q \<noteq> []) \<and> (sq_source_type q = 1 \<longrightarrow> sq_data q \<noteq> [])"

lemma checks_ValidateSentenceRequest: "checks (ValidateSentenceRequest q) (sentence_request_ok q)"
  unfolding ValidateSentenceRequest_def
  by (rule checks_iff [OF checks_bindE [OF checks_throw_if checks_bindE [OF checks_throw_if
        checks_bindE [OF checks_throw_if checks_throw_if]]]])
    (auto simp: sentence_request_ok_def source_types)

lemma Recognize_invalid:
  "\<not> sentence_request_ok q \<Longrightarrow> \<exists>msg. Recognize env self q w = (Inl (ASRError 1001 msg), w)"
  using checks_fail [OF checks_ValidateSentenceRequest [of q]]
  by (auto simp: Recognize_def kErrInvalidParam_def)

lemma Recognize_valid:
  "sentence_request_ok q \<Longrightarrow> Recognize env self q =
     bindW (api_request env (se_credential self) (se_endpoint self) (se_timeout_seconds self)
              ''/v1/SentenceRecognition'' (SerializeSentenceRequest (se_json env) q)) (\<lambda>body.
     bindW (liftW (ParseApiEnvelope (se_json env) body)) (\<lambda>response.
     liftW (rethrow_as kErrReadFailed ''unmarshal response failed: '' (ParseSentenceResult response))))"
  using checks_Inr [OF checks_ValidateSentenceRequest [of q]] by (simp add: Recognize_def fun_eq_iff)

lemma Recognize_answered:
  assumes "sentence_request_ok req" and "sentence_result_fits res"
    and "request_sig env (se_credential self) (wd_sig_time w (wd_ids w))
           (GenerateUuid (fst (wd_uuid w (wd_ids w))) (snd (wd_uuid w (wd_ids w)))) = Inr sig"
    and "HostForSite (cr_site (se_credential self)) = Inr h"
    and "jl_dump (se_json env) (sentence_request_json req) = Inr body"
    and "wd_curl w (wd_requests w) = CurlDone 200 answer"
    and "jl_parse (se_json env) answer = Inr (JObj [(''Response'', sentence_result_json res)])"
  shows "\<exists>q w'. Recognize env self req w = (Inr res, w') \<and> wd_log w' = wd_log w @ [q] \<and> hr_body q = body \<and>
     api_post env (se_credential self) (se_endpoint self) (se_timeout_seconds self)
       ''/v1/SentenceRecognition'' body w q"
proof -
  have ser: "SerializeSentenceRequest (se_json env) req = Inr body"
    using assms(5) by (simp add: SerializeSentenceRequest_def)
  obtain q w' where q: "api_request env (se_credential self) (se_endpoint self)
      (se_timeout_seconds self) ''/v1/SentenceRecognition'' (Inr body) w = (Inr answer, w')"
    and p: "api_post env (se_credential self) (se_endpoint self) (se_timeout_seconds self)
      ''/v1/SentenceRecognition'' body w q" and l: "wd_log w' = wd_log w @ [q]"
    using api_request_ok [OF assms(3,4,6)] by blast
  have env: "ParseApiEnvelope (se_json env) answer = Inr (sentence_result_json res)"
    using assms(7) by (simp add: ParseApiEnvelope_Inr_iff sentence_result_json_def)
  have "Recognize env self req w = (Inr res, w')"
    by (simp add: Recognize_valid [OF assms(1)] ser bindW_def q env ParseSentenceResult_json [OF assms(2)])
  then show ?thesis using p l api_post_body [OF p] by blast
qed

lemma sentence_body_reads:
  assumes "json_lib_ok jl" and "sentence_request_fits req" and "jl_dump jl (sentence_request_json req) = Inr body"
  shows "\<exists>j. jl_parse jl body = Inr j \<and> read_sentence_request j = Inr req"
  using assms sentence_request_wf [of req] read_sentence_request_json [of req] by (auto simp: json_lib_ok_def)

section \<open>Properties\<close>

text \<open>
  A recognition reaches the service and comes back intact: with a valid request whose
  integers fit their fields, a usable ticket and site, and a service that answers 200 with a
  result, \<^verbatim>\<open>Recognize\<close> makes exactly one POST, whose body the service reads back as the very
  request (members left out by the omit-empty rule included), and returns exactly the
  result that was sent.
\<close>

theorem Recognize_exchange:
  assumes "json_lib_ok (se_json env)" and "sentence_request_ok req" and "sentence_request_fits req"
    and "sentence_result_fits res"
    and "request_sig env (se_credential self) (wd_sig_time w (wd_ids w))
           (GenerateUuid (fst (wd_uuid w (wd_ids w))) (snd (wd_uuid w (wd_ids w)))) = Inr sig"
    and "HostForSite (cr_site (se_credential self)) = Inr h"
    and "jl_dump (se_json env) (sentence_request_json req) = Inr body"
    and "wd_curl w (wd_requests w) = CurlDone 200 text"
    and "jl_parse (se_json env) text = Inr (JObj [(''Response'', sentence_result_json res)])"
  shows "\<exists>q w' j. Recognize env self req w = (Inr res, w') \<and> wd_log w' = wd_log w @ [q] \<and>
     api_post env (se_credential self) (se_endpoint self) (se_timeout_seconds self)
       ''/v1/SentenceRecognition'' body w q \<and>
     jl_parse (se_json env) (hr_body q) = Inr j \<and> read_sentence_request j = Inr req"
proof -
  obtain q w' where "Recognize env self req w = (Inr res, w')" "wd_log w' = wd_log w @ [q]" "hr_body q = body"
    "api_post env (se_credential self) (se_endpoint self) (se_timeout_seconds self)
       ''/v1/SentenceRecognition'' body w q"
    using Recognize_answered [OF assms(2,4-9)] by blast
  then show ?thesis using sentence_body_reads [OF assms(1,3,7)] by metis
qed

definition sample_sentence_request :: SentenceRecognitionRequest where
  "sample_sentence_request = new_SentenceRecognitionRequest \<lparr> sq_eng_service_type := ''16k_zh'',
     sq_voice_format := ''wav'', sq_url := ''http://a/b.wav'', sq_word_info := 2 \<rparr>"

definition sample_sentence_result :: SentenceRecognitionResult where
  "sample_sentence_result = \<lparr> srr_result = ''hi'', srr_audio_duration = 800, srr_word_size = 1,
     srr_word_list = [\<lparr> sw_word = ''hi'', sw_start_time = 0, sw_end_time = 300 \<rparr>],
     srr_request_id = ''r'' \<rparr>"

definition sample_sentence_docs :: "(string \<times> json) list" where
  "sample_sentence_docs = [(''q'', sentence_request_json sample_sentence_request),
     (''r'', JObj [(''Response'', sentence_result_json sample_sentence_result)])]"

theorem Recognize_exchange_witness:
  "\<exists>w'. Recognize (sample_env sample_sentence_docs) (new_SentenceRecognizer sample_credential)
     sample_sentence_request (sample_world [CurlDone 200 ''r'']) = (Inr sample_sentence_result, w') \<and>
     length (wd_log w') = 1"
proof -
  let ?env = "sample_env sample_sentence_docs" and ?w = "sample_world [CurlDone 200 ''r'']"
    and ?self = "new_SentenceRecognizer sample_credential"
  have "json_lib_ok (se_json ?env)"
    by (simp add: sample_simps sample_sentence_docs_def doc_lib_ok)
  moreover have "sentence_request_ok sample_sentence_request" "sentence_request_fits sample_sentence_request"
    by (simp_all add: sentence_request_ok_def sentence_request_fits_def sample_sentence_request_def
        new_SentenceRecognitionRequest_def in_i32_def in_i64_def)
  moreover have "sentence_result_fits sample_sentence_result"
    by (simp add: sentence_result_fits_def sample_sentence_result_def in_i32_def in_i64_def)
  moreover have "jl_dump (se_json ?env) (sentence_request_json sample_sentence_request) = Inr ''q''"
    "jl_parse (se_json ?env) ''r'' = Inr (JObj [(''Response'', sentence_result_json sample_sentence_result)])"
    by (simp_all add: sample_simps doc_lib_def sample_sentence_docs_def)
  moreover have "wd_curl ?w (wd_requests ?w) = CurlDone 200 ''r''"
    by (simp add: sample_simps)
  moreover have "request_sig ?env (se_credential ?self) now rid = Inr ''sig''"
    "HostForSite (cr_site (se_credential ?self)) = Inr kHostCN" for now rid
    by (simp_all add: new_SentenceRecognizer_def sample_simps)
  ultimately show ?thesis
    using Recognize_exchange [of ?env sample_sentence_request sample_sentence_result ?self ?w "''sig''"
        kHostCN "''q''" "''r''"]
    by (fastforce simp: sample_world_def)
qed


definition mistyped_docs :: "(string \<times> json) list" where
  "mistyped_docs = [(''q'', sentence_request_json sample_sentence_request),
     (''r'', JObj [(''Response'', JObj [(''AudioDuration'', JStr ''oops'')])])]"


text \<open>
  Local audio is sent whole: \<^verbatim>\<open>RecognizeData\<close> refuses no audio and more than 3 MiB of it
  before anything is sent; otherwise it recognizes a request of source type 1 whose data
  decodes to exactly the audio and whose length field is the number of its bytes, with
  every other option at its default.
\<close>

lemma RecognizeData_audio:
  "if data = [] then RecognizeData env self data fmt engine w = (Inl (ASRError 1001 ''audio data is empty''), w)
   else if 3145728 < int (length data)
   then RecognizeData env self data fmt engine w = (Inl (ASRError 1001 ''audio data exceeds 3MB limit''), w)
   else \<exists>q. RecognizeData env self data fmt engine w = Recognize env self q w \<and>
          Base64Decode (sq_data q) = Inr data \<and> sq_data_len q = int (length data) \<and>
          sq_source_type q = 1 \<and> sentence_request_ok q = (engine \<noteq> [] \<and> fmt \<noteq> []) \<and>
          sentence_request_fits q"
proof -
  let ?q = "with_audio data (new_SentenceRecognitionRequest \<lparr> sq_eng_service_type := engine,
          sq_voice_format := fmt \<rparr>)"
  have "Base64Decode (sq_data ?q) = Inr data" by (simp add: with_audio_def Base64Decode_Encode)
  moreover have "sentence_request_ok ?q = (engine \<noteq> [] \<and> fmt \<noteq> [])" if "data \<noteq> []"
    using that Base64Encode_nonempty [of data]
    by (auto simp: sentence_request_ok_def with_audio_def source_types new_SentenceRecognitionRequest_def)
  moreover have "sentence_request_fits ?q" if "int (length data) \<le> 3145728"
    using that by (simp add: sentence_request_fits_def with_audio_def source_types
        new_SentenceRecognitionRequest_def in_i32_def in_i64_def)
  ultimately show ?thesis
    by (auto simp: RecognizeData_def kMaxAudioSize_def invalid_param_def kErrInvalidParam_def
        intro!: exI [of _ ?q]) (simp_all add: with_audio_def source_types)
qed

text \<open>
  The one failure of \<^verbatim>\<open>Recognize\<close> that is not an \<^verbatim>\<open>ASRError\<close>: a request with a string
  that the JSON library cannot print (invalid UTF-8 in an option) is not caught by the
  validator, and the library's exception leaves \<^verbatim>\<open>Recognize\<close> as it is; nothing is sent.
\<close>

lemma Recognize_unprintable:
  assumes "sentence_request_ok req" and "jl_dump (se_json env) (sentence_request_json req) = Inl (StdException e)"
    and "cr_user_sig (se_credential self) \<noteq> []" and "HostForSite (cr_site (se_credential self)) = Inr h"
  shows "\<exists>w'. Recognize env self req w = (Inl (StdException e), w') \<and> wd_log w' = wd_log w"
proof -
  obtain url where u: "api_url env (se_credential self) (se_endpoint self) ''/v1/SentenceRecognition''
      (GenerateUuid (fst (wd_uuid w (wd_ids w))) (snd (wd_uuid w (wd_ids w)))) (wd_time w (wd_ids w)) = Inr url"
    using Resolve_endpoints [OF assms(4), of "se_endpoint self"] by (simp add: api_url_def)
  have "Recognize env self req w = (Inl (StdException e), w \<lparr> wd_ids := Suc (wd_ids w) \<rparr>)"
    using assms(2,3) u
    by (simp add: Recognize_valid [OF assms(1)] SerializeSentenceRequest_def api_request_def Let_def
        request_sig_def bindW_def)
  then show ?thesis by simp
qed

theorem Recognize_unprintable_witness:
  "\<exists>w'. Recognize (sample_env []) (new_SentenceRecognizer sample_credential) sample_sentence_request
     (sample_world []) = (Inl (StdException ''invalid UTF-8''), w') \<and> wd_log w' = []"
proof -
  have "sentence_request_ok sample_sentence_request"
    by (simp add: sentence_request_ok_def sample_sentence_request_def new_SentenceRecognitionRequest_def)
  moreover have "cr_user_sig (se_credential (new_SentenceRecognizer sample_credential)) \<noteq> []"
    by (simp add: new_SentenceRecognizer_def sample_credential_def set_user_sig_def)
  ultimately show ?thesis
    using Recognize_unprintable [of sample_sentence_request "sample_env []" "''invalid UTF-8''"
        "new_SentenceRecognizer sample_credential" kHostCN "sample_world []"]
    by (simp add: sample_simps doc_lib_def new_SentenceRecognizer_def sample_world_def)
qed

end
