(* ===== verification/Polling.thy ===== *)
theory Polling
  imports HttpClient
begin

text \<open>
  The loop of \<^verbatim>\<open>WaitForResultWithInterval\<close>, which both file recognizers spell out: query
  the task, return on success, throw on failure, throw when the deadline has passed, sleep.
  The loop has no bound of its own, so it is a partial function: None means that it never
  returns. The locale \<open>poller\<close> is what it relies on in the query, and shows that it
  returns and how many queries it makes.
\<close>

definition kTaskStatusWaiting :: int where "kTaskStatusWaiting = 0"
definition kTaskStatusRunning :: int where "kTaskStatusRunning = 1"
definition kTaskStatusSuccess :: int where "kTaskStatusSuccess = 2"
definition kTaskStatusFailed :: int where "kTaskStatusFailed = 3"

lemmas task_status = kTaskStatusWaiting_def kTaskStatusRunning_def kTaskStatusSuccess_def
  kTaskStatusFailed_def

text \<open>One pass: \<open>Inl\<close> leaves the loop with the outcome, \<open>Inr\<close> goes on.\<close>

definition poll_pass ::
  "'s sdk \<Rightarrow> ('s \<Rightarrow> int) \<Rightarrow> ('s \<Rightarrow> exn) \<Rightarrow> ('s \<Rightarrow> exn) \<Rightarrow> int \<Rightarrow> int \<Rightarrow> world \<Rightarrow>
     ('s result + unit) \<times> world" where
  "poll_pass describe status failed late deadline interval w =
     (case describe w of
        (Inl e, w1) \<Rightarrow> (Inl (Inl e), w1)
      | (Inr s, w1) \<Rightarrow>
          if status s = kTaskStatusSuccess then (Inl (Inr s), w1)
          else if status s = kTaskStatusFailed then (Inl (Inl (failed s)), w1)
          else (case steady_now w1 of (now, w2) \<Rightarrow>
            if now > deadline then (Inl (Inl (late s)), w2)
            else (Inr (), sleep_for interval w2)))"

partial_function (option) wait_loop ::
  "'s sdk \<Rightarrow> ('s \<Rightarrow> int) \<Rightarrow> ('s \<Rightarrow> exn) \<Rightarrow> ('s \<Rightarrow> exn) \<Rightarrow> int \<Rightarrow> int \<Rightarrow> world \<Rightarrow>
     ('s result \<times> world) option" where
  "wait_loop describe status failed late deadline interval w =
     (case poll_pass describe status failed late deadline interval w of
        (Inl r, w') \<Rightarrow> Some (r, w')
      | (Inr _, w') \<Rightarrow> wait_loop describe status failed late deadline interval w')"

declare wait_loop.simps [code]

text \<open>The deadline is fixed before the first query.\<close>

definition wait_for_result ::
  "'s sdk \<Rightarrow> ('s \<Rightarrow> int) \<Rightarrow> ('s \<Rightarrow> exn) \<Rightarrow> ('s \<Rightarrow> exn) \<Rightarrow> int \<Rightarrow> int \<Rightarrow> world \<Rightarrow>
     ('s result \<times> world) option" where
  "wait_for_result describe status failed late interval timeout w =
     (case steady_now w of (now, w1) \<Rightarrow>
        wait_loop describe status failed late (now + ns_of_ms timeout) interval w1)"

section \<open>What a pass does\<close>

lemma poll_pass_exit:
  assumes "poll_pass d st f l dl i w = (Inl r, w')"
  shows "(case r of Inr s \<Rightarrow> d w = (Inr s, w') \<and> st s = 2
        | Inl e \<Rightarrow> d w = (Inl e, w') \<or> (\<exists>s w1. d w = (Inr s, w1) \<and>
            (st s = 3 \<and> e = f s \<or> st s \<noteq> 2 \<and> st s \<noteq> 3 \<and> e = l s \<and>
               dl < fst (steady_now w1))))"
  using assms
  by (auto simp: poll_pass_def steady_now_def task_status split: prod.splits sum.splits if_splits)

lemma poll_pass_again:
  assumes "poll_pass d st f l dl i w = (Inr u, w')"
  obtains s w1 where "d w = (Inr s, w1)" and "st s \<noteq> 2" and "st s \<noteq> 3"
    and "wd_steady w1 (wd_ticks w1) + wd_slept w1 \<le> dl"
    and "w' = sleep_for i (w1 \<lparr> wd_ticks := Suc (wd_ticks w1) \<rparr>)"
  using assms
  by (auto simp: poll_pass_def steady_now_def task_status split: prod.splits sum.splits if_splits)

text \<open>A loop that returns does so from its last pass.\<close>

lemma wait_loop_last:
  assumes "wait_loop d st f l dl i w = Some (r, w')"
  shows "\<exists>v. poll_pass d st f l dl i v = (Inl r, w')"
proof -
  have "\<exists>v. poll_pass d st f l dl i v = (Inl (fst rw), snd rw)"
    if "wait_loop d st f l dl i w = Some rw" for rw
    by (rule wait_loop.raw_induct [OF _ that]) (auto split: prod.splits sum.splits)
  from this [OF assms] show ?thesis by simp
qed

section \<open>The interface to the query\<close>

text \<open>
  The loop relies on one thing in the query: it makes at most one request and leaves the
  clock to the loop.
\<close>

locale poller =
  fixes describe :: "'s sdk" and status :: "'s \<Rightarrow> int"
    and failed :: "'s \<Rightarrow> exn" and late :: "'s \<Rightarrow> exn"
  assumes describe_one: "requests_at_most 1 describe"
begin

abbreviation loop where "loop \<equiv> wait_loop describe status failed late"
abbreviation "pass1 \<equiv> poll_pass describe status failed late"

lemma again_world:
  assumes "pass1 dl i w = (Inr u, w')"
  shows "wd_steady w' = wd_steady w" "wd_ticks w' = Suc (wd_ticks w)"
    "wd_slept w' = wd_slept w + max 0 (ns_of_ms i)" "wd_requests w' \<le> wd_requests w + 1"
    "wd_steady w (wd_ticks w) + wd_slept w \<le> dl"
proof -
  obtain s w1 where d: "describe w = (Inr s, w1)"
    and b: "wd_steady w1 (wd_ticks w1) + wd_slept w1 \<le> dl"
    and w': "w' = sleep_for i (w1 \<lparr> wd_ticks := Suc (wd_ticks w1) \<rparr>)"
    using poll_pass_again [OF assms] by metis
  have "time_kept 1 w w1"
    using describe_one d unfolding requests_at_most_def by (metis snd_conv)
  then show "wd_steady w' = wd_steady w" "wd_ticks w' = Suc (wd_ticks w)"
    "wd_slept w' = wd_slept w + max 0 (ns_of_ms i)" "wd_requests w' \<le> wd_requests w + 1"
    "wd_steady w (wd_ticks w) + wd_slept w \<le> dl"
    using b w' by (auto simp: time_kept_def sleep_for_def)
qed

lemma exit_world:
  assumes "pass1 dl i w = (Inl r, w')"
  shows "wd_requests w' \<le> wd_requests w + 1"
proof -
  obtain r1 w1 where d: "describe w = (r1, w1)" by (metis surj_pair)
  then have "time_kept 1 w w1"
    using describe_one unfolding requests_at_most_def by (metis snd_conv)
  moreover have "wd_requests w' = wd_requests w1"
    using assms d by (auto simp: poll_pass_def steady_now_def split: sum.splits if_splits)
  ultimately show ?thesis by (simp add: time_kept_def)
qed

text \<open>
  With a positive interval and a clock that does not run backwards the time slept alone
  passes the deadline, so the loop returns, after at most one query per interval and one
  more.
\<close>

lemma loop_returns:
  assumes "0 < i" and "mono (wd_steady w)"
    and "dl < wd_steady w (wd_ticks w) + wd_slept w + int k * ns_of_ms i"
  shows "\<exists>r w'. loop dl i w = Some (r, w') \<and> wd_requests w' \<le> wd_requests w + k + 1"
  using assms(2,3)
proof (induction k arbitrary: w)
  case 0
  obtain v w1 where p: "pass1 dl i w = (v, w1)" by (metis surj_pair)
  then obtain r where "v = Inl r" using again_world(5) "0.prems"(2) by (cases v) fastforce+
  with p exit_world show ?case by (fastforce simp: wait_loop.simps [of _ _ _ _ dl i w])
next
  case (Suc k)
  obtain v w1 where p: "pass1 dl i w = (v, w1)" by (metis surj_pair)
  show ?case
  proof (cases v)
    case (Inl r)
    with p exit_world show ?thesis by (fastforce simp: wait_loop.simps [of _ _ _ _ dl i w])
  next
    case (Inr u)
    note a = again_world [OF p [unfolded Inr]]
    have step: "wd_steady w (wd_ticks w) \<le> wd_steady w1 (wd_ticks w1)"
      using monoD [OF Suc.prems(1), of "wd_ticks w" "Suc (wd_ticks w)"] a(1,2) by simp
    have "ns_of_ms i > 0" using assms(1) by (simp add: ns_of_ms_def)
    then have "dl < wd_steady w1 (wd_ticks w1) + wd_slept w1 + int k * ns_of_ms i"
      using Suc.prems(2) step a(3) by (simp add: algebra_simps)
    moreover have "mono (wd_steady w1)" using Suc.prems(1) a(1) by simp
    ultimately obtain r w' where "loop dl i w1 = Some (r, w')"
        and "wd_requests w' \<le> wd_requests w1 + k + 1"
      using Suc.IH by blast
    with p Inr a(4) show ?thesis by (fastforce simp: wait_loop.simps [of _ _ _ _ dl i w])
  qed
qed

lemma wait_returns:
  assumes "0 < i" and "mono (wd_steady w)"
  shows "\<exists>r w'. wait_for_result describe status failed late i t w = Some (r, w') \<and>
     wd_requests w' \<le> wd_requests w + nat (t div i + 1) + 1"
proof -
  let ?w1 = "w \<lparr> wd_ticks := Suc (wd_ticks w) \<rparr>" and ?k = "nat (t div i + 1)"
  let ?now = "wd_steady w (wd_ticks w) + wd_slept w"
  have "t < (t div i + 1) * i"
    using assms(1) by (metis add.commute mult.commute pos_mod_bound mult_div_mod_eq
        add_strict_left_mono distrib_left mult.right_neutral)
  also have "\<dots> \<le> int ?k * i" using assms(1) by (simp add: mult_right_mono)
  finally have "ns_of_ms t < int ?k * ns_of_ms i" by (simp add: ns_of_ms_def)
  moreover have "wd_steady w (wd_ticks w) \<le> wd_steady w (Suc (wd_ticks w))"
    using assms(2) by (simp add: monoD)
  ultimately have "?now + ns_of_ms t < wd_steady ?w1 (wd_ticks ?w1) + wd_slept ?w1 + int ?k * ns_of_ms i"
    by simp
  then obtain r w' where "loop (?now + ns_of_ms t) i ?w1 = Some (r, w')"
      and "wd_requests w' \<le> wd_requests ?w1 + ?k + 1"
    using loop_returns [of i ?w1 "?now + ns_of_ms t" ?k] assms by fastforce
  then show ?thesis by (simp add: wait_for_result_def steady_now_def)
qed

text \<open>A result is a successful status, as the last query reported it.\<close>

lemma loop_result:
  assumes "loop dl i w = Some (Inr s, w')"
  shows "status s = 2 \<and> (\<exists>v. describe v = (Inr s, w'))"
proof -
  obtain v where "pass1 dl i v = (Inl (Inr s), w')" using wait_loop_last [OF assms] by blast
  from poll_pass_exit [OF this] show ?thesis by auto
qed

text \<open>An error is the query's own, the task's failure, or the timeout with the clock past it.\<close>

lemma loop_error:
  assumes "loop dl i w = Some (Inl e, w')"
  shows "(\<exists>v. describe v = (Inl e, w')) \<or>
    (\<exists>v s w1. describe v = (Inr s, w1) \<and> (status s = 3 \<and> e = failed s \<or>
       status s \<noteq> 2 \<and> status s \<noteq> 3 \<and> e = late s \<and> dl < fst (steady_now w1)))"
proof -
  obtain v where "pass1 dl i v = (Inl (Inl e), w')" using wait_loop_last [OF assms] by blast
  from poll_pass_exit [OF this] show ?thesis by auto
qed

lemma wait_outcome:
  assumes "wait_for_result describe status failed late i t w = Some (r, w')"
  shows "case r of
       Inr s \<Rightarrow> status s = 2 \<and> (\<exists>v. describe v = (Inr s, w'))
     | Inl e \<Rightarrow> (\<exists>v. describe v = (Inl e, w')) \<or>
         (\<exists>v s w1. describe v = (Inr s, w1) \<and> (status s = 3 \<and> e = failed s \<or>
            status s \<noteq> 2 \<and> status s \<noteq> 3 \<and> e = late s))"
proof -
  obtain dl w0 where l: "loop dl i w0 = Some (r, w')"
    using assms by (auto simp: wait_for_result_def steady_now_def)
  show ?thesis
  proof (cases r)
    case (Inl e)
    with loop_error [of dl i w0 e w'] l show ?thesis by auto
  next
    case (Inr s)
    with loop_result [of dl i w0 s w'] l show ?thesis by auto
  qed
qed

lemma wait_ends:
  assumes "0 < i" and "0 \<le> t" and "mono (wd_steady w)"
  shows "\<exists>r w'. wait_for_result describe status failed late i t w = Some (r, w') \<and>
    wd_requests w' \<le> wd_requests w + nat (t div i) + 2 \<and>
    (case r of
       Inr s \<Rightarrow> status s = 2 \<and> (\<exists>v. describe v = (Inr s, w'))
     | Inl e \<Rightarrow> (\<exists>v. describe v = (Inl e, w')) \<or>
         (\<exists>v s w1. describe v = (Inr s, w1) \<and> (status s = 3 \<and> e = failed s \<or>
            status s \<noteq> 2 \<and> status s \<noteq> 3 \<and> e = late s)))"
proof -
  obtain r w' where r: "wait_for_result describe status failed late i t w = Some (r, w')"
    and n: "wd_requests w' \<le> wd_requests w + nat (t div i + 1) + 1"
    using wait_returns [OF assms(1,3)] by blast
  have "0 \<le> t div i" using assms(1,2) by (simp add: pos_imp_zdiv_nonneg_iff)
  then have "wd_requests w' \<le> wd_requests w + nat (t div i) + 2"
    using n by (simp add: nat_add_distrib)
  with r wait_outcome [OF r] show ?thesis by blast
qed

end

end
