(* ===== verification/FileRecognizer.thy ===== *)
theory FileRecognizer
  imports Wire Polling Params Responses
begin

text \<open>
  Recognition of long recordings over HTTP: \<^verbatim>\<open>include/trtc_asr/file_recognizer.h\<close> and
  \<^verbatim>\<open>src/file_recognizer.cc\<close>. A task is created, queried and waited for; the waiting loop is
  the one of \<open>Polling\<close>. \<open>read_task_request\<close> and \<open>task_status_json\<close> are the service's side.
\<close>

record SentenceWords =
  fw_word :: string
  fw_offset_start_ms :: int
  fw_offset_end_ms :: int

record SentenceDetail =
  sd_final_sentence :: string
  sd_slice_sentence :: string
  sd_written_text :: string
  sd_start_ms :: int
  sd_end_ms :: int
  sd_words_num :: int
  sd_words :: "SentenceWords list"
  sd_speech_speed :: dbl
  sd_silence_time :: int
  sd_speaker_id :: int
  sd_speaker_role_name :: string
  sd_channel_id :: int
  sd_language :: string

record TaskStatus =
  ts_rec_task_id :: string
  ts_status :: int
  ts_status_str :: string
  ts_progress :: int
  ts_result :: string
  ts_error_msg :: string
  ts_result_detail :: "SentenceDetail list"
  ts_audio_duration :: dbl

record CreateRecTaskRequest =
  cq_engine_model_type :: string
  cq_channel_num :: int
  cq_res_text_format :: int
  cq_source_type :: int
  cq_url :: string
  cq_data :: string
  cq_data_len :: int
  cq_callback_url :: string
  cq_filter_dirty :: int
  cq_filter_modal :: int
  cq_filter_punc :: int
  cq_convert_num_mode :: int
  cq_hotword_id :: string
  cq_hotword_list :: string
  cq_customization_id :: string
  cq_replace_text_id :: string
  cq_language :: string
  cq_speaker_diarization :: int
  cq_speaker_number :: int
  cq_speaker_roles :: "SpeakerRole list"
  cq_voiceprint_ids :: "string list"
  cq_vad_silence_ms :: int
  cq_vad_level :: "int option"
  cq_noise_threshold :: "dbl option"

definition new_CreateRecTaskRequest :: CreateRecTaskRequest where
  "new_CreateRecTaskRequest =
     \<lparr>
       cq_engine_model_type = [], cq_channel_num = 0, cq_res_text_format = 0, cq_source_type = 0,
       cq_url = [], cq_data = [], cq_data_len = 0, cq_callback_url = [], cq_filter_dirty = 0,
       cq_filter_modal = 0, cq_filter_punc = 0, cq_convert_num_mode = 0, cq_hotword_id = [],
       cq_hotword_list = [], cq_customization_id = [], cq_replace_text_id = [], cq_language = [],
       cq_speaker_diarization = 0, cq_speaker_number = 0, cq_speaker_roles = [],
       cq_voiceprint_ids = [], cq_vad_silence_ms = 0, cq_vad_level = None,
       cq_noise_threshold = None \<rparr>"

record FileRecognizer =
  fr_credential :: Credential
  fr_endpoint :: string
  fr_timeout_seconds :: int

definition kMaxFileSize :: int where "kMaxFileSize = 5 * 1024 * 1024"

definition new_FileRecognizer :: "Credential \<Rightarrow> FileRecognizer" where
  "new_FileRecognizer cred = \<lparr> fr_credential = cred, fr_endpoint = [], fr_timeout_seconds = 60 \<rparr>"

definition FileSetEndpoint :: "string \<Rightarrow> FileRecognizer \<Rightarrow> FileRecognizer" where
  "FileSetEndpoint ep r = r \<lparr> fr_endpoint := ep \<rparr>"

section \<open>Reading a status\<close>

definition PickInt :: "json \<Rightarrow> string \<Rightarrow> string \<Rightarrow> int result" where
  "PickInt j primary fallback =
     (case jfind j primary of
        Some v \<Rightarrow> if v \<noteq> JNull then get_i64 v else
          (case jfind j fallback of Some u \<Rightarrow> if u \<noteq> JNull then get_i64 u else Inr 0 | None \<Rightarrow> Inr 0)
      | None \<Rightarrow>
          (case jfind j fallback of Some u \<Rightarrow> if u \<noteq> JNull then get_i64 u else Inr 0 | None \<Rightarrow> Inr 0))"

definition ParseSentenceWords :: "json \<Rightarrow> SentenceWords result" where
  "ParseSentenceWords w =
     bindE (value_str w ''Word'') (\<lambda>word.
     bindE (PickInt w ''StartTime'' ''OffsetStartMs'') (\<lambda>start_ms.
     bindE (PickInt w ''EndTime'' ''OffsetEndMs'') (\<lambda>end_ms.
     Inr \<lparr> fw_word = word, fw_offset_start_ms = start_ms, fw_offset_end_ms = end_ms \<rparr>)))"

definition ParseSentenceDetail :: "json \<Rightarrow> SentenceDetail result" where
  "ParseSentenceDetail j =
     bindE (value_str j ''FinalSentence'') (\<lambda>final_sentence.
     bindE (value_str j ''SliceSentence'') (\<lambda>slice_sentence.
     bindE (value_str j ''WrittenText'') (\<lambda>written_text.
     bindE (value_i64 j ''StartMs'') (\<lambda>start_ms.
     bindE (value_i64 j ''EndMs'') (\<lambda>end_ms.
     bindE (value_i32 j ''WordsNum'') (\<lambda>words_num.
     bindE (value_f64 j ''SpeechSpeed'') (\<lambda>speech_speed.
     bindE (value_i64 j ''SilenceTime'') (\<lambda>silence_time.
     bindE (value_i32 j ''SpeakerId'') (\<lambda>speaker_id.
     bindE (value_str j ''SpeakerRoleName'') (\<lambda>speaker_role_name.
     bindE (value_i32 j ''ChannelId'') (\<lambda>channel_id.
     bindE (value_str j ''Language'') (\<lambda>language.
     bindE (case jmember is_array j ''Words'' of
              None \<Rightarrow> Inr [] | Some a \<Rightarrow> mapE ParseSentenceWords (elements a)) (\<lambda>words.
     Inr \<lparr>
       sd_final_sentence = final_sentence, sd_slice_sentence = slice_sentence,
       sd_written_text = written_text, sd_start_ms = start_ms, sd_end_ms = end_ms,
       sd_words_num = words_num, sd_words = words, sd_speech_speed = speech_speed,
       sd_silence_time = silence_time, sd_speaker_id = speaker_id,
       sd_speaker_role_name = speaker_role_name, sd_channel_id = channel_id,
       sd_language = language \<rparr>)))))))))))))"

definition ParseTaskStatus :: "json \<Rightarrow> TaskStatus result" where
  "ParseTaskStatus j =
     bindE (value_str j ''RecTaskId'') (\<lambda>rec_task_id.
     bindE (value_i32 j ''Status'') (\<lambda>status.
     bindE (value_str j ''StatusStr'') (\<lambda>status_str.
     bindE (value_i32 j ''Progress'') (\<lambda>progress.
     bindE (value_str j ''Result'') (\<lambda>result.
     bindE (value_str j ''ErrorMsg'') (\<lambda>error_msg.
     bindE (value_f64 j ''AudioDuration'') (\<lambda>audio_duration.
     bindE (case jmember is_array j ''ResultDetail'' of
              None \<Rightarrow> Inr [] | Some a \<Rightarrow> mapE ParseSentenceDetail (elements a)) (\<lambda>result_detail.
     Inr \<lparr>
       ts_rec_task_id = rec_task_id, ts_status = status, ts_status_str = status_str,
       ts_progress = progress, ts_result = result, ts_error_msg = error_msg,
       ts_result_detail = result_detail, ts_audio_duration = audio_duration \<rparr>))))))))"

section \<open>Serialising a request\<close>

definition task_request_json :: "json \<Rightarrow> CreateRecTaskRequest \<Rightarrow> json" where
  "task_request_json roles req = JObj (
     jput_opt_dbl ''NoiseThreshold'' (cq_noise_threshold req) (
     jput_opt_int ''VadLevel'' (cq_vad_level req) (
     jput_int ''VadSilenceMs'' (cq_vad_silence_ms req) (
     jput_strs ''VoiceprintIds'' (cq_voiceprint_ids req) (
     put_if (cq_speaker_roles req \<noteq> []) ''SpeakerRoles'' roles (
     jput_int ''SpeakerNumber'' (cq_speaker_number req) (
     jput_int ''SpeakerDiarization'' (cq_speaker_diarization req) (
     jput_str ''Language'' (cq_language req) (
     jput_str ''ReplaceTextId'' (cq_replace_text_id req) (
     jput_str ''CustomizationId'' (cq_customization_id req) (
     jput_str ''HotwordList'' (cq_hotword_list req) (
     jput_str ''HotwordId'' (cq_hotword_id req) (
     jput_int ''ConvertNumMode'' (cq_convert_num_mode req) (
     jput_int ''FilterPunc'' (cq_filter_punc req) (
     jput_int ''FilterModal'' (cq_filter_modal req) (
     jput_int ''FilterDirty'' (cq_filter_dirty req) (
     jput_str ''CallbackUrl'' (cq_callback_url req) (
     jput_int ''DataLen'' (cq_data_len req) (
     jput_str ''Data'' (cq_data req) (
     jput_str ''Url'' (cq_url req) (
     mput ''SourceType'' (JInt (cq_source_type req)) (
     mput ''ResTextFormat'' (JInt (cq_res_text_format req)) (
     mput ''ChannelNum'' (JInt (cq_channel_num req)) (
     mput ''EngineModelType'' (JStr (cq_engine_model_type req)) []))))))))))))))))))))))))"

text \<open>The roles are printed by the shared helper and parsed again into the body.\<close>

definition SerializeTaskRequest :: "json_lib \<Rightarrow> CreateRecTaskRequest \<Rightarrow> string result" where
  "SerializeTaskRequest jl req =
     bindE (if cq_speaker_roles req \<noteq> []
            then bindE (SerializeSpeakerRoles jl (cq_speaker_roles req)) (jl_parse jl)
            else Inr JNull) (\<lambda>roles.
     jl_dump jl (task_request_json roles req))"

definition ValidateCreateRequest :: "CreateRecTaskRequest \<Rightarrow> unit result" where
  "ValidateCreateRequest req =
     bindE (throw_if (cq_engine_model_type req = []) (invalid_param ''EngineModelType is required'')) (\<lambda>_.
     bindE (throw_if (cq_channel_num req \<le> 0) (invalid_param ''ChannelNum must be positive'')) (\<lambda>_.
     bindE (throw_if (cq_source_type req = 0 \<and> cq_url req = [])
       (invalid_param ''Url is required when SourceType=0'')) (\<lambda>_.
     bindE (throw_if (cq_source_type req = 1 \<and> cq_data req = [])
       (invalid_param ''Data is required when SourceType=1'')) (\<lambda>_.
     bindE (ValidateSpeakerDiarization (cq_speaker_diarization req) (cq_speaker_number req)
              (cq_speaker_roles req) (cq_voiceprint_ids req)) (\<lambda>_.
     ValidateVadTuning (cq_vad_level req) (cq_noise_threshold req))))))"

section \<open>The operations\<close>

definition DoRequest :: "sdk_env \<Rightarrow> FileRecognizer \<Rightarrow> string \<Rightarrow> string \<Rightarrow> string sdk" where
  "DoRequest env self path json_body =
     api_request env (fr_credential self) (fr_endpoint self) (fr_timeout_seconds self) path (Inr json_body)"

definition CreateTask :: "sdk_env \<Rightarrow> FileRecognizer \<Rightarrow> CreateRecTaskRequest \<Rightarrow> string sdk" where
  "CreateTask env self req =
     bindW (liftW (ValidateCreateRequest req)) (\<lambda>_.
     bindW (liftW (SerializeTaskRequest (se_json env) req)) (\<lambda>json_body.
     bindW (DoRequest env self ''/v1/CreateRecTask'' json_body) (\<lambda>resp_body.
     bindW (liftW (ParseApiEnvelope (se_json env) resp_body)) (\<lambda>response.
     bindW (liftW (rethrow_as kErrReadFailed ''unmarshal response failed: ''
              (case jmember is_object response ''Data'' of
                 None \<Rightarrow> Inr [] | Some d \<Rightarrow> value_str d ''RecTaskId''))) (\<lambda>task_id.
     liftW (if task_id = [] then Inl (ASRError kErrServerError ''empty RecTaskId in response'')
            else Inr task_id))))))"

text \<open>The audio of a request.\<close>

definition with_file :: "u8 list \<Rightarrow> CreateRecTaskRequest \<Rightarrow> CreateRecTaskRequest" where
  "with_file data req =
     req \<lparr> cq_source_type := 1, cq_data := Base64Encode data, cq_data_len := int (length data) \<rparr>"

definition CreateTaskFromData ::
  "sdk_env \<Rightarrow> FileRecognizer \<Rightarrow> u8 list \<Rightarrow> string \<Rightarrow> string \<Rightarrow> string sdk" where
  "CreateTaskFromData env self data voice_format engine_model_type =
     bindW (liftW (throw_if (data = []) (invalid_param ''audio data is empty''))) (\<lambda>_.
     bindW (liftW (throw_if (int (length data) > kMaxFileSize)
       (invalid_param ''audio data exceeds 5MB limit''))) (\<lambda>_.
     CreateTask env self (with_file data
       (new_CreateRecTaskRequest \<lparr> cq_engine_model_type := engine_model_type, cq_channel_num := 1,
          cq_res_text_format := 1 \<rparr>))))"

definition CreateTaskFromURL :: "sdk_env \<Rightarrow> FileRecognizer \<Rightarrow> string \<Rightarrow> string \<Rightarrow> string sdk" where
  "CreateTaskFromURL env self recording_url engine_model_type =
     bindW (liftW (throw_if (recording_url = []) (invalid_param ''audio URL is empty''))) (\<lambda>_.
     CreateTask env self
       (new_CreateRecTaskRequest \<lparr> cq_engine_model_type := engine_model_type, cq_channel_num := 1,
          cq_res_text_format := 1, cq_source_type := 0, cq_url := recording_url \<rparr>))"

text \<open>The request is passed by pointer and written to; what it holds afterwards is returned.\<close>

definition CreateTaskFromDataWithOptions ::
  "sdk_env \<Rightarrow> FileRecognizer \<Rightarrow> u8 list \<Rightarrow> CreateRecTaskRequest option \<Rightarrow> world \<Rightarrow>
     (string result \<times> world) \<times> CreateRecTaskRequest option" where
  "CreateTaskFromDataWithOptions env self raw_data req w =
     (case req of
        None \<Rightarrow> ((Inl (invalid_param ''request is null''), w), None)
      | Some q \<Rightarrow>
          if raw_data = [] then ((Inl (invalid_param ''audio data is empty''), w), Some q)
          else if int (length raw_data) > kMaxFileSize
          then ((Inl (invalid_param ''audio data exceeds 5MB limit''), w), Some q)
          else (CreateTask env self (with_file raw_data q) w, Some (with_file raw_data q)))"

definition DescribeTaskStatus :: "sdk_env \<Rightarrow> FileRecognizer \<Rightarrow> string \<Rightarrow> TaskStatus sdk" where
  "DescribeTaskStatus env self rec_task_id =
     bindW (liftW (throw_if (rec_task_id = []) (invalid_param ''RecTaskId is empty''))) (\<lambda>_.
     bindW (liftW (jl_dump (se_json env) (JObj (mput ''RecTaskId'' (JStr rec_task_id) [])))) (\<lambda>json_body.
     bindW (DoRequest env self ''/v1/DescribeTaskStatus'' json_body) (\<lambda>resp_body.
     bindW (liftW (ParseApiEnvelope (se_json env) resp_body)) (\<lambda>response.
     liftW (case jmember is_object response ''Data'' of
              None \<Rightarrow> Inl (ASRError kErrServerError ''empty response from server'')
            | Some d \<Rightarrow> rethrow_as kErrReadFailed ''unmarshal response failed: '' (ParseTaskStatus d))))))"

definition task_failed :: "TaskStatus \<Rightarrow> exn" where
  "task_failed s = ASRError kErrServerError
     (''task failed: '' @ ts_error_msg s @ '' (RecTaskId: '' @ ts_rec_task_id s @ '')'')"

definition task_late :: "string \<Rightarrow> int \<Rightarrow> TaskStatus \<Rightarrow> exn" where
  "task_late rec_task_id timeout s = ASRError kErrTimeout
     (''task not completed within '' @ to_string timeout @ ''ms (RecTaskId: '' @ rec_task_id @
      '', Status: '' @ ts_status_str s @ '')'')"

text \<open>Interval and timeout in milliseconds.\<close>

definition WaitForResultWithInterval ::
  "sdk_env \<Rightarrow> FileRecognizer \<Rightarrow> string \<Rightarrow> int \<Rightarrow> int \<Rightarrow> world \<Rightarrow> (TaskStatus result \<times> world) option" where
  "WaitForResultWithInterval env self rec_task_id interval timeout =
     wait_for_result (DescribeTaskStatus env self rec_task_id) ts_status task_failed
       (task_late rec_task_id timeout) interval timeout"

definition WaitForResult ::
  "sdk_env \<Rightarrow> FileRecognizer \<Rightarrow> string \<Rightarrow> world \<Rightarrow> (TaskStatus result \<times> world) option" where
  "WaitForResult env self rec_task_id = WaitForResultWithInterval env self rec_task_id 1000 (10 * 60 * 1000)"

section \<open>The service's side\<close>

definition roles_json :: "SpeakerRole list \<Rightarrow> json" where
  "roles_json roles = JArr (map role_json roles)"

definition read_role :: "json \<Rightarrow> SpeakerRole result" where
  "read_role j = bindE (value_str j ''RoleName'') (\<lambda>n. bindE (value_str j ''AudioUrl'') (\<lambda>u.
     Inr \<lparr> role_name = n, audio_url = u \<rparr>))"

definition read_roles :: "json \<Rightarrow> string \<Rightarrow> SpeakerRole list result" where
  "read_roles j k = (case jmember is_array j k of None \<Rightarrow> Inr [] | Some a \<Rightarrow> mapE read_role (elements a))"

definition read_task_request :: "json \<Rightarrow> CreateRecTaskRequest result" where
  "read_task_request j =
     bindE (value_str j ''EngineModelType'') (\<lambda>xenginemodeltype.
     bindE (value_i32 j ''ChannelNum'') (\<lambda>xchannelnum.
     bindE (value_i32 j ''ResTextFormat'') (\<lambda>xrestextformat.
     bindE (value_i32 j ''SourceType'') (\<lambda>xsourcetype.
     bindE (value_str j ''Url'') (\<lambda>xurl.
     bindE (value_str j ''Data'') (\<lambda>xdata.
     bindE (value_i64 j ''DataLen'') (\<lambda>xdatalen.
     bindE (value_str j ''CallbackUrl'') (\<lambda>xcallbackurl.
     bindE (value_i32 j ''FilterDirty'') (\<lambda>xfilterdirty.
     bindE (value_i32 j ''FilterModal'') (\<lambda>xfiltermodal.
     bindE (value_i32 j ''FilterPunc'') (\<lambda>xfilterpunc.
     bindE (value_i32 j ''ConvertNumMode'') (\<lambda>xconvertnummode.
     bindE (value_str j ''HotwordId'') (\<lambda>xhotwordid.
     bindE (value_str j ''HotwordList'') (\<lambda>xhotwordlist.
     bindE (value_str j ''CustomizationId'') (\<lambda>xcustomizationid.
     bindE (value_str j ''ReplaceTextId'') (\<lambda>xreplacetextid.
     bindE (value_str j ''Language'') (\<lambda>xlanguage.
     bindE (value_i32 j ''SpeakerDiarization'') (\<lambda>xspeakerdiarization.
     bindE (value_i32 j ''SpeakerNumber'') (\<lambda>xspeakernumber.
     bindE (read_roles j ''SpeakerRoles'') (\<lambda>xspeakerroles.
     bindE (field_strs j ''VoiceprintIds'') (\<lambda>xvoiceprintids.
     bindE (value_i32 j ''VadSilenceMs'') (\<lambda>xvadsilencems.
     bindE (field_opt get_i32 j ''VadLevel'') (\<lambda>xvadlevel.
     bindE (field_opt get_f64 j ''NoiseThreshold'') (\<lambda>xnoisethreshold.
     Inr \<lparr>
       cq_engine_model_type = xenginemodeltype, cq_channel_num = xchannelnum,
       cq_res_text_format = xrestextformat, cq_source_type = xsourcetype, cq_url = xurl,
       cq_data = xdata, cq_data_len = xdatalen, cq_callback_url = xcallbackurl,
       cq_filter_dirty = xfilterdirty, cq_filter_modal = xfiltermodal,
       cq_filter_punc = xfilterpunc, cq_convert_num_mode = xconvertnummode,
       cq_hotword_id = xhotwordid, cq_hotword_list = xhotwordlist,
       cq_customization_id = xcustomizationid, cq_replace_text_id = xreplacetextid,
       cq_language = xlanguage, cq_speaker_diarization = xspeakerdiarization,
       cq_speaker_number = xspeakernumber, cq_speaker_roles = xspeakerroles,
       cq_voiceprint_ids = xvoiceprintids, cq_vad_silence_ms = xvadsilencems,
       cq_vad_level = xvadlevel, cq_noise_threshold = xnoisethreshold \<rparr>))))))))))))))))))))))))"

definition task_request_fits :: "CreateRecTaskRequest \<Rightarrow> bool" where
  "task_request_fits q \<longleftrightarrow> in_i64 (cq_data_len q) \<and> pred_option in_i32 (cq_vad_level q) \<and>
     pred_option (\<lambda>d. json_wf (JFloat d)) (cq_noise_threshold q) \<and> list_all in_i32
      [
       cq_channel_num q, cq_res_text_format q, cq_source_type q, cq_filter_dirty q,
       cq_filter_modal q, cq_filter_punc q, cq_convert_num_mode q, cq_speaker_diarization q,
       cq_speaker_number q, cq_vad_silence_ms q]"

text \<open>Word offsets have two spellings on the wire; \<open>legacy\<close> is the older one.\<close>

definition words_json :: "bool \<Rightarrow> SentenceWords \<Rightarrow> json" where
  "words_json legacy w = JObj
     (if legacy
      then [(''OffsetEndMs'', JInt (fw_offset_end_ms w)), (''OffsetStartMs'', JInt (fw_offset_start_ms w)),
            (''Word'', JStr (fw_word w))]
      else [(''EndTime'', JInt (fw_offset_end_ms w)), (''StartTime'', JInt (fw_offset_start_ms w)),
            (''Word'', JStr (fw_word w))])"

definition detail_json :: "bool \<Rightarrow> SentenceDetail \<Rightarrow> json" where
  "detail_json legacy d = JObj [
     (''ChannelId'', JInt (sd_channel_id d)), (''EndMs'', JInt (sd_end_ms d)),
     (''FinalSentence'', JStr (sd_final_sentence d)), (''Language'', JStr (sd_language d)),
     (''SilenceTime'', JInt (sd_silence_time d)),
     (''SliceSentence'', JStr (sd_slice_sentence d)), (''SpeakerId'', JInt (sd_speaker_id d)),
     (''SpeakerRoleName'', JStr (sd_speaker_role_name d)),
     (''SpeechSpeed'', JFloat (sd_speech_speed d)), (''StartMs'', JInt (sd_start_ms d)),
     (''Words'', JArr (map (words_json legacy) (sd_words d))),
     (''WordsNum'', JInt (sd_words_num d)), (''WrittenText'', JStr (sd_written_text d))]"

definition task_status_json :: "bool \<Rightarrow> TaskStatus \<Rightarrow> json" where
  "task_status_json legacy s = JObj [
     (''AudioDuration'', JFloat (ts_audio_duration s)), (''ErrorMsg'', JStr (ts_error_msg s)),
     (''Progress'', JInt (ts_progress s)), (''RecTaskId'', JStr (ts_rec_task_id s)),
     (''Result'', JStr (ts_result s)),
     (''ResultDetail'', JArr (map (detail_json legacy) (ts_result_detail s))),
     (''Status'', JInt (ts_status s)), (''StatusStr'', JStr (ts_status_str s))]"

definition detail_fits :: "SentenceDetail \<Rightarrow> bool" where
  "detail_fits d \<longleftrightarrow> in_i64 (sd_start_ms d) \<and> in_i64 (sd_end_ms d) \<and> in_i32 (sd_words_num d) \<and>
     in_i64 (sd_silence_time d) \<and> in_i32 (sd_speaker_id d) \<and> in_i32 (sd_channel_id d) \<and>
     list_all (\<lambda>w. in_i64 (fw_offset_start_ms w) \<and> in_i64 (fw_offset_end_ms w)) (sd_words d)"

definition status_fits :: "TaskStatus \<Rightarrow> bool" where
  "status_fits s \<longleftrightarrow> in_i32 (ts_status s) \<and> in_i32 (ts_progress s) \<and> list_all detail_fits (ts_result_detail s)"

section \<open>Lemmas\<close>

lemma case_roles_member:
  "(case (if rs \<noteq> [] then Some (JArr (map f rs)) else None) of None \<Rightarrow> None
      | Some v \<Rightarrow> if is_array v then Some v else None) =
   (if rs \<noteq> [] then Some (JArr (map f rs)) else None)"
  by simp

lemma read_role_json: "mapE read_role (map role_json roles) = Inr roles"
  by (intro mapE_inverse) (simp add: read_role_def role_json_def)

lemma task_members:
  "value_str (task_request_json (roles_json (cq_speaker_roles q)) q) ''EngineModelType'' = Inr (cq_engine_model_type q)"
  "in_i32 (cq_channel_num q) \<Longrightarrow> value_i32 (task_request_json (roles_json (cq_speaker_roles q)) q) ''ChannelNum'' = Inr (cq_channel_num q)"
  "in_i32 (cq_res_text_format q) \<Longrightarrow> value_i32 (task_request_json (roles_json (cq_speaker_roles q)) q) ''ResTextFormat'' = Inr (cq_res_text_format q)"
  "in_i32 (cq_source_type q) \<Longrightarrow> value_i32 (task_request_json (roles_json (cq_speaker_roles q)) q) ''SourceType'' = Inr (cq_source_type q)"
  "value_str (task_request_json (roles_json (cq_speaker_roles q)) q) ''Url'' = Inr (cq_url q)"
  "value_str (task_request_json (roles_json (cq_speaker_roles q)) q) ''Data'' = Inr (cq_data q)"
  "in_i64 (cq_data_len q) \<Longrightarrow> value_i64 (task_request_json (roles_json (cq_speaker_roles q)) q) ''DataLen'' = Inr (cq_data_len q)"
  "value_str (task_request_json (roles_json (cq_speaker_roles q)) q) ''CallbackUrl'' = Inr (cq_callback_url q)"
  "in_i32 (cq_filter_dirty q) \<Longrightarrow> value_i32 (task_request_json (roles_json (cq_speaker_roles q)) q) ''FilterDirty'' = Inr (cq_filter_dirty q)"
  "in_i32 (cq_filter_modal q) \<Longrightarrow> value_i32 (task_request_json (roles_json (cq_speaker_roles q)) q) ''FilterModal'' = Inr (cq_filter_modal q)"
  "in_i32 (cq_filter_punc q) \<Longrightarrow> value_i32 (task_request_json (roles_json (cq_speaker_roles q)) q) ''FilterPunc'' = Inr (cq_filter_punc q)"
  "in_i32 (cq_convert_num_mode q) \<Longrightarrow> value_i32 (task_request_json (roles_json (cq_speaker_roles q)) q) ''ConvertNumMode'' = Inr (cq_convert_num_mode q)"
  "value_str (task_request_json (roles_json (cq_speaker_roles q)) q) ''HotwordId'' = Inr (cq_hotword_id q)"
  "value_str (task_request_json (roles_json (cq_speaker_roles q)) q) ''HotwordList'' = Inr (cq_hotword_list q)"
  "value_str (task_request_json (roles_json (cq_speaker_roles q)) q) ''CustomizationId'' = Inr (cq_customization_id q)"
  "value_str (task_request_json (roles_json (cq_speaker_roles q)) q) ''ReplaceTextId'' = Inr (cq_replace_text_id q)"
  "value_str (task_request_json (roles_json (cq_speaker_roles q)) q) ''Language'' = Inr (cq_language q)"
  "in_i32 (cq_speaker_diarization q) \<Longrightarrow> value_i32 (task_request_json (roles_json (cq_speaker_roles q)) q) ''SpeakerDiarization'' = Inr (cq_speaker_diarization q)"
  "in_i32 (cq_speaker_number q) \<Longrightarrow> value_i32 (task_request_json (roles_json (cq_speaker_roles q)) q) ''SpeakerNumber'' = Inr (cq_speaker_number q)"
  "read_roles (task_request_json (roles_json (cq_speaker_roles q)) q) ''SpeakerRoles'' = Inr (cq_speaker_roles q)"
  "field_strs (task_request_json (roles_json (cq_speaker_roles q)) q) ''VoiceprintIds'' = Inr (cq_voiceprint_ids q)"
  "in_i32 (cq_vad_silence_ms q) \<Longrightarrow> value_i32 (task_request_json (roles_json (cq_speaker_roles q)) q) ''VadSilenceMs'' = Inr (cq_vad_silence_ms q)"
  "pred_option in_i32 (cq_vad_level q) \<Longrightarrow> field_opt get_i32 (task_request_json (roles_json (cq_speaker_roles q)) q) ''VadLevel'' = Inr (cq_vad_level q)"
  "field_opt get_f64 (task_request_json (roles_json (cq_speaker_roles q)) q) ''NoiseThreshold'' = Inr (cq_noise_threshold q)"
  by (simp_all add: task_request_json_def member_reads read_roles_def field_strs_def field_opt_def
      roles_json_def case_roles_member read_role_json del: mput.simps)
    (auto split: option.split)

lemma read_task_request_json:
  "task_request_fits q \<Longrightarrow> read_task_request (task_request_json (roles_json (cq_speaker_roles q)) q) = Inr q"
  by (simp add: read_task_request_def task_request_fits_def task_members)

lemma roles_json_wf: "json_wf (roles_json roles)"
  by (simp add: roles_json_def list_all_iff role_json_wf)

lemma task_request_wf: "task_request_fits q \<Longrightarrow> json_wf (task_request_json (roles_json roles) q)"
  unfolding task_request_json_def
  by (rule json_wf_obj) (simp_all add: roles_json_wf task_request_fits_def del: mput.simps)

lemma SerializeTaskRequest_ok:
  assumes "json_lib_ok jl" and "SerializeTaskRequest jl q = Inr body"
  shows "jl_dump jl (task_request_json (roles_json (cq_speaker_roles q)) q) = Inr body"
proof (cases "cq_speaker_roles q = []")
  case True
  with assms show ?thesis by (simp add: SerializeTaskRequest_def task_request_json_def put_if_def)
next
  case False
  then obtain t roles where "jl_dump jl (roles_json (cq_speaker_roles q)) = Inr t"
      and "jl_parse jl t = Inr roles" and "jl_dump jl (task_request_json roles q) = Inr body"
    using assms(2) by (auto simp: SerializeTaskRequest_def SerializeSpeakerRoles_def roles_json_def bindE_Inr_iff)
  moreover then have "roles = roles_json (cq_speaker_roles q)"
    using assms(1) roles_json_wf unfolding json_lib_ok_def by (metis sum.inject(2))
  ultimately show ?thesis by simp
qed

lemma PickInt_words:
  assumes "in_i64 (fw_offset_start_ms w)" and "in_i64 (fw_offset_end_ms w)"
  shows "ParseSentenceWords (words_json legacy w) = Inr w"
  using assms by (cases legacy) (simp_all add: ParseSentenceWords_def words_json_def PickInt_def)

lemma ParseSentenceDetail_json:
  assumes "detail_fits d"
  shows "ParseSentenceDetail (detail_json legacy d) = Inr d"
proof -
  have "mapE ParseSentenceWords (map (words_json legacy) (sd_words d)) = Inr (sd_words d)"
    using assms by (intro mapE_inverse PickInt_words) (auto simp: detail_fits_def list_all_iff)
  with assms show ?thesis
    by (simp add: ParseSentenceDetail_def detail_json_def detail_fits_def)
qed

lemma ParseTaskStatus_json:
  assumes "status_fits s"
  shows "ParseTaskStatus (task_status_json legacy s) = Inr s"
proof -
  have "mapE ParseSentenceDetail (map (detail_json legacy) (ts_result_detail s)) = Inr (ts_result_detail s)"
    using assms by (intro mapE_inverse ParseSentenceDetail_json) (auto simp: status_fits_def list_all_iff)
  with assms show ?thesis
    by (simp add: ParseTaskStatus_def task_status_json_def status_fits_def)
qed

lemma PickInt_defined: "json_safe j \<Longrightarrow> no_undefined (PickInt j a b)"
  by (auto simp: PickInt_def intro!: get_i64_defined dest: json_safe_jfind split: option.split)

lemma ParseSentenceWords_defined: "json_safe j \<Longrightarrow> no_undefined (ParseSentenceWords j)"
  unfolding ParseSentenceWords_def
  by (intro no_undefined_bindE values_defined PickInt_defined) simp_all

lemma ParseSentenceDetail_defined: "json_safe j \<Longrightarrow> no_undefined (ParseSentenceDetail j)"
  unfolding ParseSentenceDetail_def
  by (intro no_undefined_bindE values_defined array_member_defined ParseSentenceWords_defined) simp_all

lemma ParseTaskStatus_defined: "json_safe j \<Longrightarrow> no_undefined (ParseTaskStatus j)"
  unfolding ParseTaskStatus_def
  by (intro no_undefined_bindE values_defined array_member_defined ParseSentenceDetail_defined) simp_all

end
