(* ===== verification/V3Common.thy ===== *)
theory V3Common
  imports Wire Params
begin

text \<open>
  What the v3 interfaces share (\<^verbatim>\<open>src/v3.cc\<close>): the constants of \<^verbatim>\<open>include/trtc_asr/v3.h\<close>,
  the local validators, the body with its \<^verbatim>\<open>auth\<close> and \<^verbatim>\<open>params\<close> blocks, and the POST that
  returns a flat response. Names that v2 has as well carry the suffix \<open>_v3\<close>.
\<close>

definition kSourceTypeUrl_v3 :: int where "kSourceTypeUrl_v3 = 0"
definition kSourceTypeData_v3 :: int where "kSourceTypeData_v3 = 1"
definition kMaxVoiceIdLen :: int where "kMaxVoiceIdLen = 128"
definition kMinMaxSpeakTime :: int where "kMinMaxSpeakTime = 5000"
definition kMaxMaxSpeakTime :: int where "kMaxMaxSpeakTime = 90000"
definition kMinVadSilenceTimeMs :: int where "kMinVadSilenceTimeMs = 240"
definition kMaxVadSilenceTimeMs :: int where "kMaxVadSilenceTimeMs = 2000"
definition kStartFrameMaxBytes :: int where "kStartFrameMaxBytes = 64 * 1024"
definition kStreamFrameMaxBytes :: int where "kStreamFrameMaxBytes = 256 * 1024"
definition kAckTimeout :: int where "kAckTimeout = 5000"
definition kSpeakerContextAckTimeout :: int where "kSpeakerContextAckTimeout = 15000"

lemmas source_types_v3 = kSourceTypeUrl_v3_def kSourceTypeData_v3_def

definition NewCredential_v3 :: "int \<Rightarrow> string \<Rightarrow> Credential" where
  "NewCredential_v3 sdk_app_id secret_key = new_Credential 0 sdk_app_id secret_key"

record AudioURLItem =
  au_index :: int
  au_url :: string
  au_label :: string

section \<open>Validators\<close>

text \<open>\<^verbatim>\<open>url.find("http://") != 0 && url.find("https://") != 0\<close> is rejected.\<close>

definition http_prefix :: "string \<Rightarrow> bool" where
  "http_prefix u \<longleftrightarrow> find_str ''http://'' u = Some 0 \<or> find_str ''https://'' u = Some 0"

text \<open>The loop over the allowed values that builds the message.\<close>

fun enum_list :: "int list \<Rightarrow> string" where
  "enum_list [] = []"
| "enum_list [i] = to_string i"
| "enum_list (i # j # is) = to_string i @ '', '' @ enum_list (j # is)"

definition ValidateEnumOption_v3 :: "string \<Rightarrow> int \<Rightarrow> int list \<Rightarrow> unit result" where
  "ValidateEnumOption_v3 name value allowed =
     (if value \<in> set allowed then Inr ()
      else let list = enum_list allowed
           in Inl (invalid_param (name @ '' must be one of ['' @ list @ ''], got '' @ to_string value)))"

lemma enum_list_join: "enum_list is = join_ints is"
  by (induction "is" rule: enum_list.induct) simp_all

lemma ValidateEnumOption_v3_same: "ValidateEnumOption_v3 = ValidateEnumOption"
  by (simp add: fun_eq_iff ValidateEnumOption_v3_def ValidateEnumOption_def enum_list_join)

definition ValidateVadTuning_v3 :: "int option \<Rightarrow> dbl option \<Rightarrow> unit result" where
  "ValidateVadTuning_v3 vad_level noise_threshold =
     bindE (case vad_level of
              None \<Rightarrow> Inr ()
            | Some l \<Rightarrow> throw_if (l \<noteq> 0 \<and> l \<noteq> 1)
                (invalid_param (''VadLevel must be 0 (high recall) or 1 (far-field filtering), got '' @
                   to_string l))) (\<lambda>_.
     case noise_threshold of
       None \<Rightarrow> Inr ()
     | Some v \<Rightarrow> throw_if (\<not> dbl_between 0 4 v)
         (invalid_param (''NoiseThreshold must be between 0.0 and 4.0, got '' @ fmt_f 6 v)))"

definition ValidateSpeakerContext :: "int \<Rightarrow> int \<Rightarrow> unit result" where
  "ValidateSpeakerContext mode diarization =
     bindE (throw_if (mode \<noteq> kSpeakerContextOff \<and> mode \<noteq> kSpeakerContextSync \<and> mode \<noteq> kSpeakerContextAsync)
       (invalid_param (''EnableSpeakerContext must be 0 (off), 1 (sync) or 2 (async), got '' @
          to_string mode))) (\<lambda>_.
     throw_if (mode \<noteq> kSpeakerContextOff \<and> diarization = kSpeakerDiarizationOff)
       (invalid_param ''EnableSpeakerContext requires SpeakerDiarization=1 or 3''))"

fun validate_roles_v3 :: "nat \<Rightarrow> SpeakerRole list \<Rightarrow> unit result" where
  "validate_roles_v3 i [] = Inr ()"
| "validate_roles_v3 i (r # rs) =
     bindE (throw_if (role_name r = [])
       (invalid_param (''SpeakerRoles['' @ to_string_nat i @ ''].RoleName is empty''))) (\<lambda>_.
     bindE (throw_if (\<not> http_prefix (audio_url r))
       (invalid_param (''SpeakerRoles['' @ to_string_nat i @ ''].AudioURL must be a valid http/https URL'')))
       (\<lambda>_. validate_roles_v3 (Suc i) rs))"

definition ValidateSpeakerDiarization_v3 ::
  "int \<Rightarrow> int \<Rightarrow> SpeakerRole list \<Rightarrow> string list \<Rightarrow> unit result" where
  "ValidateSpeakerDiarization_v3 mode speaker_number roles voiceprint_ids =
     bindE (throw_if (mode \<noteq> kSpeakerDiarizationOff \<and> mode \<noteq> 1 \<and> mode \<noteq> kSpeakerDiarizationVoiceprint)
       (invalid_param (''SpeakerDiarization must be 0 (off), 1 (cluster) or 3 (voiceprint), got '' @
          to_string mode))) (\<lambda>_.
     bindE (throw_if (speaker_number < 0)
       (invalid_param (''SpeakerNumber must be >= 0 (0 = auto detection), got '' @
          to_string speaker_number))) (\<lambda>_.
     bindE (throw_if (mode \<noteq> kSpeakerDiarizationVoiceprint \<and> (roles \<noteq> [] \<or> voiceprint_ids \<noteq> []))
       (invalid_param ''SpeakerRoles/VoiceprintIds require SpeakerDiarization=3'')) (\<lambda>_.
     bindE (validate_roles_v3 0 roles) (\<lambda>_.
     validate_voiceprints 0 voiceprint_ids))))"

fun validate_audio_items :: "nat \<Rightarrow> int list \<Rightarrow> AudioURLItem list \<Rightarrow> unit result" where
  "validate_audio_items i seen [] = Inr ()"
| "validate_audio_items i seen (it # items) =
     bindE (throw_if (au_index it < 0)
       (invalid_param (''AudioURLs['' @ to_string_nat i @ ''].Index must be non-negative''))) (\<lambda>_.
     bindE (throw_if (au_index it \<in> set seen)
       (invalid_param (''AudioURLs index duplicated: '' @ to_string (au_index it)))) (\<lambda>_.
     bindE (throw_if (\<not> http_prefix (au_url it))
       (invalid_param (''AudioURLs['' @ to_string_nat i @ ''].URL must be a valid http/https URL''))) (\<lambda>_.
     validate_audio_items (Suc i) (seen @ [au_index it]) items)))"

definition ValidateAudioURLs :: "int \<Rightarrow> string \<Rightarrow> string \<Rightarrow> AudioURLItem list \<Rightarrow> unit result" where
  "ValidateAudioURLs source_type url data audio_urls =
     bindE (throw_if (source_type \<noteq> kSourceTypeUrl_v3 \<or> url \<noteq> [] \<or> data \<noteq> [])
       (invalid_param ''AudioURLs cannot be used together with non-zero sourceType, url or data'')) (\<lambda>_.
     validate_audio_items 0 [] audio_urls)"

section \<open>The offline body and its POST\<close>

text \<open>\<^verbatim>\<open>j[k] = v\<close> on a value that may not be an object.\<close>

definition jassign :: "string \<Rightarrow> json \<Rightarrow> json \<Rightarrow> json result" where
  "jassign k v j =
     (case j of
        JObj m \<Rightarrow> Inr (JObj (mput k v m))
      | JNull \<Rightarrow> Inr (JObj [(k, v)])
      | _ \<Rightarrow> Inl (type_error 305 (''cannot use operator[] with a string argument with '' @ type_name j)))"

definition sdk_info_json :: "build_target \<Rightarrow> json" where
  "sdk_info_json b = JObj (map (\<lambda>(k, v). (k, JStr v)) (SdkReportParams b))"

definition OfflineEnvelope :: "sdk_env \<Rightarrow> Credential \<Rightarrow> int \<Rightarrow> string \<Rightarrow> json \<Rightarrow> json result" where
  "OfflineEnvelope env cred now request_id params =
     bindE (request_sig env cred now request_id) (\<lambda>user_sig.
     bindE (jassign ''sdk_info'' (sdk_info_json (se_build env)) params) (\<lambda>params.
     Inr (JObj (mput ''params'' params
           (mput ''auth'' (JObj (mput ''request_id'' (JStr request_id)
              (mput ''usersig'' (JStr user_sig)
              (mput ''sdkappid'' (JStr (to_string (cr_sdk_app_id cred))) [])))) [])))))"

text \<open>Decoding a response: what \<^verbatim>\<open>PostFlat\<close> does after the POST.\<close>

definition flat_response :: "json_lib \<Rightarrow> HttpResponse \<Rightarrow> json result" where
  "flat_response jl resp =
     bindE (rethrow_as kErrServerError (''invalid response (http '' @ to_string (hp_status resp) @ ''): '')
              (jl_parse jl (hp_body resp))) (\<lambda>data.
     bindE (throw_if (\<not> is_object data)
       (ASRError kErrServerError (''invalid response (http '' @ to_string (hp_status resp) @
          ''): not a JSON object''))) (\<lambda>_.
     bindE (value_i32 data ''code'') (\<lambda>code.
     bindE (throw_if ((hp_status resp < 200 \<or> hp_status resp > 299) \<and> code = 0)
       (ASRError kErrServerError (''http '' @ to_string (hp_status resp) @ '' with non-v3 response body: '' @
          take 256 (hp_body resp) @ (if length (hp_body resp) > 256 then ''...'' else [])))) (\<lambda>_.
     Inr data))))"

text \<open>The error pointer passed to \<^verbatim>\<open>HttpPost\<close> is \<^verbatim>\<open>nullptr\<close>.\<close>

definition PostFlat :: "sdk_env \<Rightarrow> Credential \<Rightarrow> string \<Rightarrow> string \<Rightarrow> json \<Rightarrow> int \<Rightarrow> json sdk" where
  "PostFlat env cred endpoint path body timeout =
     bindW (liftW (ResolveHTTPEndpoint endpoint (cr_site cred))) (\<lambda>origin.
     bindW (liftW (jl_dump (se_json env) body)) (\<lambda>txt.
     bindW (HttpPost env (origin @ path) txt [''Content-Type: application/json; charset=utf-8'']
              timeout None) (\<lambda>(resp, _).
     liftW (flat_response (se_json env) resp))))"

text \<open>\<^verbatim>\<open>ServerError\<close> reads the body too, and may throw itself.\<close>

definition ServerError :: "json \<Rightarrow> exn result" where
  "ServerError data =
     bindE (value_i32 data ''code'') (\<lambda>code.
     bindE (value_str data ''message'') (\<lambda>message.
     bindE (value_str data ''request_id'') (\<lambda>request_id.
     Inr (ASRError code (message @
       (if request_id \<noteq> [] then '' (request_id: '' @ request_id @ '')'' else []))))))"

definition CheckCode :: "json \<Rightarrow> unit result" where
  "CheckCode data =
     bindE (value_i32 data ''code'') (\<lambda>code.
     if code \<noteq> 0 then bindE (ServerError data) Inl else Inr ())"

text \<open>A call: id, envelope, POST and code check, as every offline operation makes it.\<close>

definition call_v3 :: "sdk_env \<Rightarrow> Credential \<Rightarrow> string \<Rightarrow> int \<Rightarrow> string \<Rightarrow> json \<Rightarrow> json sdk" where
  "call_v3 env cred endpoint timeout path params w =
     (let n = wd_ids w;
          request_id = GenerateUuid (fst (wd_uuid w n)) (snd (wd_uuid w n))
      in bindW (liftW (OfflineEnvelope env cred (wd_sig_time w n) request_id params)) (\<lambda>body.
         bindW (PostFlat env cred endpoint path body timeout) (\<lambda>data.
         bindW (liftW (CheckCode data)) (\<lambda>_.
         liftW (Inr data)))) (w \<lparr> wd_ids := Suc n \<rparr>))"

section \<open>What the validators accept\<close>

lemma find_str_0: "find_str p s = Some 0 \<longleftrightarrow> prefix p s"
  by (cases s) auto

lemma http_prefix_iff: "http_prefix u \<longleftrightarrow> prefix ''http://'' u \<or> prefix ''https://'' u"
  by (simp add: http_prefix_def find_str_0)

definition role_ok_v3 :: "SpeakerRole \<Rightarrow> bool" where
  "role_ok_v3 r \<longleftrightarrow> role_name r \<noteq> [] \<and> http_prefix (audio_url r)"

definition diarization_ok_v3 :: "int \<Rightarrow> int \<Rightarrow> SpeakerRole list \<Rightarrow> string list \<Rightarrow> bool" where
  "diarization_ok_v3 mode n roles ids \<longleftrightarrow>
     mode \<in> {0, 1, 3} \<and> 0 \<le> n \<and> (roles = [] \<and> ids = [] \<or> mode = 3) \<and>
     list_all role_ok_v3 roles \<and> [] \<notin> set ids"

definition audio_urls_ok :: "int \<Rightarrow> string \<Rightarrow> string \<Rightarrow> AudioURLItem list \<Rightarrow> bool" where
  "audio_urls_ok source_type url data items \<longleftrightarrow> source_type = 0 \<and> url = [] \<and> data = [] \<and>
     distinct (map au_index items) \<and> list_all (\<lambda>it. 0 \<le> au_index it \<and> http_prefix (au_url it)) items"

lemma checks_ValidateVadTuning_v3:
  "checks (ValidateVadTuning_v3 level noise)
     (pred_option (\<lambda>l. l = 0 \<or> l = 1) level \<and> pred_option (dbl_between 0 4) noise)"
  unfolding ValidateVadTuning_v3_def
  by (rule checks_bindE) (auto simp: checks_def invalid_param_def throw_if_def split: option.split)

lemma checks_ValidateSpeakerContext:
  "checks (ValidateSpeakerContext mode diarization) (mode \<in> {0, 1, 2} \<and> (mode = 0 \<or> diarization \<noteq> 0))"
  unfolding ValidateSpeakerContext_def
  by (rule checks_iff [OF checks_bindE [OF checks_throw_if checks_throw_if]]) (auto simp: speaker_modes)

lemma checks_validate_roles_v3: "checks (validate_roles_v3 i roles) (list_all role_ok_v3 roles)"
proof (induction roles arbitrary: i)
  case (Cons r rs)
  then show ?case
    by (auto simp: checks_def role_ok_v3_def invalid_param_def throw_if_def)
qed (simp add: checks_def)

lemma checks_ValidateSpeakerDiarization_v3:
  "checks (ValidateSpeakerDiarization_v3 mode n roles ids) (diarization_ok_v3 mode n roles ids)"
  unfolding ValidateSpeakerDiarization_v3_def
  by (rule checks_iff [OF checks_bindE [OF checks_throw_if checks_bindE [OF checks_throw_if
        checks_bindE [OF checks_throw_if checks_bindE [OF checks_validate_roles_v3
        checks_validate_voiceprints]]]]])
    (auto simp: diarization_ok_v3_def speaker_modes list_all_iff)

lemma checks_validate_audio_items:
  "checks (validate_audio_items i seen items)
     (distinct (map au_index items) \<and> set seen \<inter> au_index ` set items = {} \<and>
      list_all (\<lambda>it. 0 \<le> au_index it \<and> http_prefix (au_url it)) items)"
proof (induction items arbitrary: i seen)
  case (Cons it items)
  have "checks (validate_audio_items i seen (it # items))
    (\<not> au_index it < 0 \<and> \<not> au_index it \<in> set seen \<and> \<not> \<not> http_prefix (au_url it) \<and>
     distinct (map au_index items) \<and> set (seen @ [au_index it]) \<inter> au_index ` set items = {} \<and>
     list_all (\<lambda>it. 0 \<le> au_index it \<and> http_prefix (au_url it)) items)"
    unfolding validate_audio_items.simps
    by (intro checks_bindE checks_throw_if Cons.IH)
  then show ?case by (rule checks_iff) auto
qed (simp add: checks_def)

lemma checks_ValidateAudioURLs:
  "checks (ValidateAudioURLs source_type url data items) (audio_urls_ok source_type url data items)"
  unfolding ValidateAudioURLs_def
  by (rule checks_iff [OF checks_bindE [OF checks_throw_if checks_validate_audio_items]])
    (auto simp: audio_urls_ok_def source_types_v3)

end
