(* ===== verification/V3Transcribe.thy ===== *)
theory V3Transcribe
  imports V3Common Responses
begin

text \<open>
  One-shot recognition over the v3 interface: \<^verbatim>\<open>POST /v3/transcribe\<close> of \<^verbatim>\<open>src/v3.cc\<close>.
  \<open>read_transcribe\<close> and \<open>transcribe_json\<close> are the service's side of the exchange.
\<close>

record TranscribeRequest =
  tq_engine_model_type :: string
  tq_source_type :: int
  tq_voice_format :: string
  tq_url :: string
  tq_data :: string
  tq_data_len :: int
  tq_word_info :: int
  tq_filter_dirty :: int
  tq_filter_modal :: int
  tq_filter_punc :: int
  tq_convert_num_mode :: int
  tq_hotword_id :: string
  tq_customization_id :: string
  tq_hotword_list :: string
  tq_input_sample_rate :: int
  tq_needvad :: "int option"
  tq_vad_silence_time :: "int option"
  tq_language :: string
  tq_speaker_diarization :: int
  tq_speaker_number :: int

definition new_TranscribeRequest :: TranscribeRequest where
  "new_TranscribeRequest =
     \<lparr>
       tq_engine_model_type = [], tq_source_type = kSourceTypeData_v3, tq_voice_format = ''pcm'',
       tq_url = [], tq_data = [], tq_data_len = 0, tq_word_info = 0, tq_filter_dirty = 0,
       tq_filter_modal = 0, tq_filter_punc = 0, tq_convert_num_mode = 0, tq_hotword_id = [],
       tq_customization_id = [], tq_hotword_list = [], tq_input_sample_rate = 0,
       tq_needvad = None, tq_vad_silence_time = None, tq_language = [],
       tq_speaker_diarization = 0, tq_speaker_number = 0 \<rparr>"

record Word =
  vw_word :: string
  vw_start_time :: int
  vw_end_time :: int

record TranscribeResponse =
  tr_code :: int
  tr_message :: string
  tr_request_id :: string
  tr_result :: string
  tr_audio_duration :: int
  tr_language :: string
  tr_language_b47 :: string
  tr_word_size :: int
  tr_word_list :: "Word list"

record SentenceRecognizer_v3 =
  s3_credential :: Credential
  s3_endpoint :: string
  s3_timeout :: int

definition new_SentenceRecognizer_v3 :: "Credential \<Rightarrow> SentenceRecognizer_v3" where
  "new_SentenceRecognizer_v3 cred = \<lparr> s3_credential = cred, s3_endpoint = [], s3_timeout = 30 \<rparr>"

definition SetEndpoint_s3 :: "string \<Rightarrow> SentenceRecognizer_v3 \<Rightarrow> SentenceRecognizer_v3" where
  "SetEndpoint_s3 endpoint self = self \<lparr> s3_endpoint := endpoint \<rparr>"

definition SetTimeout_s3 :: "int \<Rightarrow> SentenceRecognizer_v3 \<Rightarrow> SentenceRecognizer_v3" where
  "SetTimeout_s3 timeout self = self \<lparr> s3_timeout := timeout \<rparr>"

section \<open>The wire\<close>

definition TranscribeRequestToWire :: "TranscribeRequest \<Rightarrow> json" where
  "TranscribeRequestToWire req = JObj (
     put_if (tq_speaker_diarization req \<noteq> 0 \<and> tq_speaker_number req \<noteq> 0) ''speaker_number'' (JInt (tq_speaker_number req)) (
     jput_int ''speaker_diarization'' (tq_speaker_diarization req) (
     jput_str ''language'' (tq_language req) (
     jput_opt_int ''vad_silence_time'' (tq_vad_silence_time req) (
     jput_opt_int ''needvad'' (tq_needvad req) (
     jput_int ''input_sample_rate'' (tq_input_sample_rate req) (
     jput_str ''hotword_list'' (tq_hotword_list req) (
     jput_str ''customization_id'' (tq_customization_id req) (
     jput_str ''hotword_id'' (tq_hotword_id req) (
     jput_int ''convert_num_mode'' (tq_convert_num_mode req) (
     jput_int ''filter_punc'' (tq_filter_punc req) (
     jput_int ''filter_modal'' (tq_filter_modal req) (
     jput_int ''filter_dirty'' (tq_filter_dirty req) (
     jput_int ''word_info'' (tq_word_info req) (
     put_if (tq_source_type req \<noteq> kSourceTypeUrl_v3) ''data_len'' (JInt (tq_data_len req)) (
     put_if (tq_source_type req \<noteq> kSourceTypeUrl_v3) ''data'' (JStr (tq_data req)) (
     put_if (tq_source_type req = kSourceTypeUrl_v3) ''url'' (JStr (tq_url req)) (
     mput ''voice_format'' (JStr (tq_voice_format req)) (
     mput ''source_type'' (JInt (tq_source_type req)) (
     mput ''engine_model_type'' (JStr (tq_engine_model_type req)) []))))))))))))))))))))"

definition ValidateTranscribe :: "TranscribeRequest \<Rightarrow> unit result" where
  "ValidateTranscribe req =
     bindE (throw_if (tq_engine_model_type req = []) (invalid_param ''engine_model_type is required'')) (\<lambda>_.
     bindE (throw_if (tq_voice_format req = []) (invalid_param ''voice_format is required'')) (\<lambda>_.
     bindE (throw_if (tq_source_type req = kSourceTypeUrl_v3 \<and> tq_url req = [])
       (invalid_param ''url is required when source_type=0'')) (\<lambda>_.
     bindE (throw_if (tq_source_type req = kSourceTypeData_v3 \<and> tq_data req = [])
       (invalid_param ''data is required when source_type=1'')) (\<lambda>_.
     bindE (if tq_speaker_diarization req \<noteq> 0 \<or> tq_speaker_number req \<noteq> 0
            then ValidateSpeakerDiarization_v3 (tq_speaker_diarization req) (tq_speaker_number req) [] []
            else Inr ()) (\<lambda>_.
     bindE (case tq_needvad req of None \<Rightarrow> Inr () | Some v \<Rightarrow> ValidateEnumOption_v3 ''needvad'' v [0, 1]) (\<lambda>_.
     ValidateEnumOption_v3 ''input_sample_rate'' (tq_input_sample_rate req) [0, 8000]))))))"

definition WordFromJson :: "json \<Rightarrow> Word result" where
  "WordFromJson j =
     bindE (value_str j ''word'') (\<lambda>word.
     bindE (value_i32 j ''start_time'') (\<lambda>start_time.
     bindE (value_i32 j ''end_time'') (\<lambda>end_time.
     Inr \<lparr> vw_word = word, vw_start_time = start_time, vw_end_time = end_time \<rparr>)))"

definition TranscribeResponseFromJson :: "json \<Rightarrow> TranscribeResponse result" where
  "TranscribeResponseFromJson j =
     bindE (value_i32 j ''code'') (\<lambda>xcode.
     bindE (value_str j ''message'') (\<lambda>xmessage.
     bindE (value_str j ''request_id'') (\<lambda>xrequestid.
     bindE (value_str j ''result'') (\<lambda>xresult.
     bindE (value_i32 j ''audio_duration'') (\<lambda>xaudioduration.
     bindE (value_str j ''language'') (\<lambda>xlanguage.
     bindE (value_str j ''language_b47'') (\<lambda>xlanguageb47.
     bindE (value_i32 j ''word_size'') (\<lambda>xwordsize.
     bindE (case jmember is_array j ''word_list'' of
              None \<Rightarrow> Inr [] | Some a \<Rightarrow> mapE WordFromJson (elements a)) (\<lambda>xwordlist.
     Inr \<lparr>
       tr_code = xcode, tr_message = xmessage, tr_request_id = xrequestid, tr_result = xresult,
       tr_audio_duration = xaudioduration, tr_language = xlanguage,
       tr_language_b47 = xlanguageb47, tr_word_size = xwordsize, tr_word_list = xwordlist \<rparr>)))))))))"

section \<open>The operations\<close>

definition Recognize_v3 ::
  "sdk_env \<Rightarrow> SentenceRecognizer_v3 \<Rightarrow> TranscribeRequest \<Rightarrow> TranscribeResponse sdk" where
  "Recognize_v3 env self req =
     bindW (liftW (ValidateTranscribe req)) (\<lambda>_.
     bindW (call_v3 env (s3_credential self) (s3_endpoint self) (s3_timeout self) ''/v3/transcribe''
              (TranscribeRequestToWire req)) (\<lambda>data.
     liftW (TranscribeResponseFromJson data)))"

definition with_audio_v3 :: "u8 list \<Rightarrow> TranscribeRequest \<Rightarrow> TranscribeRequest" where
  "with_audio_v3 data req =
     req \<lparr> tq_source_type := kSourceTypeData_v3, tq_data := Base64Encode data,
           tq_data_len := int (length data) \<rparr>"

definition RecognizeData_v3 ::
  "sdk_env \<Rightarrow> SentenceRecognizer_v3 \<Rightarrow> u8 list \<Rightarrow> string \<Rightarrow> string \<Rightarrow> TranscribeResponse sdk" where
  "RecognizeData_v3 env self data voice_format engine_model_type =
     bindW (liftW (throw_if (data = []) (invalid_param ''audio data is empty''))) (\<lambda>_.
     bindW (liftW (throw_if (int (length data) > 3 * 1024 * 1024)
       (invalid_param ''audio data exceeds 3MB limit''))) (\<lambda>_.
     Recognize_v3 env self (with_audio_v3 data
       (new_TranscribeRequest \<lparr> tq_engine_model_type := engine_model_type,
          tq_voice_format := voice_format \<rparr>))))"

definition RecognizeDataWithOptions_v3 ::
  "sdk_env \<Rightarrow> SentenceRecognizer_v3 \<Rightarrow> u8 list \<Rightarrow> TranscribeRequest option \<Rightarrow> world \<Rightarrow>
     (TranscribeResponse result \<times> world) \<times> TranscribeRequest option" where
  "RecognizeDataWithOptions_v3 env self data req w =
     (case req of
        None \<Rightarrow> ((Inl (invalid_param ''request is null''), w), None)
      | Some q \<Rightarrow>
          if data = [] then ((Inl (invalid_param ''audio data is empty''), w), Some q)
          else if int (length data) > 3 * 1024 * 1024
          then ((Inl (invalid_param ''audio data exceeds 3MB limit''), w), Some q)
          else (Recognize_v3 env self (with_audio_v3 data q) w, Some (with_audio_v3 data q)))"

definition RecognizeUrl_v3 ::
  "sdk_env \<Rightarrow> SentenceRecognizer_v3 \<Rightarrow> string \<Rightarrow> string \<Rightarrow> string \<Rightarrow> TranscribeResponse sdk" where
  "RecognizeUrl_v3 env self recording_url voice_format engine_model_type =
     bindW (liftW (throw_if (recording_url = []) (invalid_param ''audio URL is empty''))) (\<lambda>_.
     Recognize_v3 env self
       (new_TranscribeRequest \<lparr> tq_engine_model_type := engine_model_type,
          tq_source_type := kSourceTypeUrl_v3, tq_voice_format := voice_format,
          tq_url := recording_url \<rparr>))"

section \<open>The service's side\<close>

definition read_transcribe :: "json \<Rightarrow> TranscribeRequest result" where
  "read_transcribe j =
     bindE (value_str j ''engine_model_type'') (\<lambda>xenginemodeltype.
     bindE (value_i32 j ''source_type'') (\<lambda>xsourcetype.
     bindE (value_str j ''voice_format'') (\<lambda>xvoiceformat.
     bindE (value_str j ''url'') (\<lambda>xurl.
     bindE (value_str j ''data'') (\<lambda>xdata.
     bindE (value_i64 j ''data_len'') (\<lambda>xdatalen.
     bindE (value_i32 j ''word_info'') (\<lambda>xwordinfo.
     bindE (value_i32 j ''filter_dirty'') (\<lambda>xfilterdirty.
     bindE (value_i32 j ''filter_modal'') (\<lambda>xfiltermodal.
     bindE (value_i32 j ''filter_punc'') (\<lambda>xfilterpunc.
     bindE (value_i32 j ''convert_num_mode'') (\<lambda>xconvertnummode.
     bindE (value_str j ''hotword_id'') (\<lambda>xhotwordid.
     bindE (value_str j ''customization_id'') (\<lambda>xcustomizationid.
     bindE (value_str j ''hotword_list'') (\<lambda>xhotwordlist.
     bindE (value_i32 j ''input_sample_rate'') (\<lambda>xinputsamplerate.
     bindE (field_opt get_i32 j ''needvad'') (\<lambda>xneedvad.
     bindE (field_opt get_i32 j ''vad_silence_time'') (\<lambda>xvadsilencetime.
     bindE (value_str j ''language'') (\<lambda>xlanguage.
     bindE (value_i32 j ''speaker_diarization'') (\<lambda>xspeakerdiarization.
     bindE (value_i32 j ''speaker_number'') (\<lambda>xspeakernumber.
     Inr \<lparr>
       tq_engine_model_type = xenginemodeltype, tq_source_type = xsourcetype,
       tq_voice_format = xvoiceformat, tq_url = xurl, tq_data = xdata, tq_data_len = xdatalen,
       tq_word_info = xwordinfo, tq_filter_dirty = xfilterdirty, tq_filter_modal = xfiltermodal,
       tq_filter_punc = xfilterpunc, tq_convert_num_mode = xconvertnummode,
       tq_hotword_id = xhotwordid, tq_customization_id = xcustomizationid,
       tq_hotword_list = xhotwordlist, tq_input_sample_rate = xinputsamplerate,
       tq_needvad = xneedvad, tq_vad_silence_time = xvadsilencetime, tq_language = xlanguage,
       tq_speaker_diarization = xspeakerdiarization, tq_speaker_number = xspeakernumber \<rparr>))))))))))))))))))))"

definition word_json_v3 :: "Word \<Rightarrow> json" where
  "word_json_v3 w = JObj [(''end_time'', JInt (vw_end_time w)), (''start_time'', JInt (vw_start_time w)),
     (''word'', JStr (vw_word w))]"

definition word_fits_v3 :: "Word \<Rightarrow> bool" where
  "word_fits_v3 w \<longleftrightarrow> in_i32 (vw_start_time w) \<and> in_i32 (vw_end_time w)"

definition transcribe_json :: "TranscribeResponse \<Rightarrow> json" where
  "transcribe_json r = JObj [
     (''audio_duration'', JInt (tr_audio_duration r)), (''code'', JInt (tr_code r)),
     (''language'', JStr (tr_language r)), (''language_b47'', JStr (tr_language_b47 r)),
     (''message'', JStr (tr_message r)), (''request_id'', JStr (tr_request_id r)),
     (''result'', JStr (tr_result r)), (''word_list'', JArr (map word_json_v3 (tr_word_list r))),
     (''word_size'', JInt (tr_word_size r))]"

definition transcribe_fits :: "TranscribeResponse \<Rightarrow> bool" where
  "transcribe_fits r \<longleftrightarrow> in_i32 (tr_code r) \<and> in_i32 (tr_audio_duration r) \<and> in_i32 (tr_word_size r) \<and>
     list_all word_fits_v3 (tr_word_list r)"

text \<open>
  A request is canonical when the members that are sent only in one mode hold nothing in
  the other; it fits when its integers fit their fields.
\<close>

definition transcribe_canonical :: "TranscribeRequest \<Rightarrow> bool" where
  "transcribe_canonical q \<longleftrightarrow>
     (if tq_source_type q = 0 then tq_data q = [] \<and> tq_data_len q = 0 else tq_url q = []) \<and>
     (tq_speaker_diarization q \<noteq> 0 \<or> tq_speaker_number q = 0)"

definition transcribe_request_fits :: "TranscribeRequest \<Rightarrow> bool" where
  "transcribe_request_fits q \<longleftrightarrow> in_i64 (tq_data_len q) \<and> pred_option in_i32 (tq_needvad q) \<and>
     pred_option in_i32 (tq_vad_silence_time q) \<and> list_all in_i32
      [
       tq_source_type q, tq_word_info q, tq_filter_dirty q, tq_filter_modal q, tq_filter_punc q,
       tq_convert_num_mode q, tq_input_sample_rate q, tq_speaker_diarization q,
       tq_speaker_number q]"

section \<open>Lemmas\<close>

lemma transcribe_wf: "json_wf (TranscribeRequestToWire q)"
  unfolding TranscribeRequestToWire_def by (rule json_wf_obj) (simp_all del: mput.simps)

lemma transcribe_members:
  "value_str (TranscribeRequestToWire q) ''engine_model_type'' = Inr (tq_engine_model_type q)"
  "in_i32 (tq_source_type q) \<Longrightarrow> value_i32 (TranscribeRequestToWire q) ''source_type'' = Inr (tq_source_type q)"
  "value_str (TranscribeRequestToWire q) ''voice_format'' = Inr (tq_voice_format q)"
  "transcribe_canonical q \<Longrightarrow> value_str (TranscribeRequestToWire q) ''url'' = Inr (tq_url q)"
  "transcribe_canonical q \<Longrightarrow> value_str (TranscribeRequestToWire q) ''data'' = Inr (tq_data q)"
  "transcribe_canonical q \<Longrightarrow> in_i64 (tq_data_len q) \<Longrightarrow> value_i64 (TranscribeRequestToWire q) ''data_len'' = Inr (tq_data_len q)"
  "in_i32 (tq_word_info q) \<Longrightarrow> value_i32 (TranscribeRequestToWire q) ''word_info'' = Inr (tq_word_info q)"
  "in_i32 (tq_filter_dirty q) \<Longrightarrow> value_i32 (TranscribeRequestToWire q) ''filter_dirty'' = Inr (tq_filter_dirty q)"
  "in_i32 (tq_filter_modal q) \<Longrightarrow> value_i32 (TranscribeRequestToWire q) ''filter_modal'' = Inr (tq_filter_modal q)"
  "in_i32 (tq_filter_punc q) \<Longrightarrow> value_i32 (TranscribeRequestToWire q) ''filter_punc'' = Inr (tq_filter_punc q)"
  "in_i32 (tq_convert_num_mode q) \<Longrightarrow> value_i32 (TranscribeRequestToWire q) ''convert_num_mode'' = Inr (tq_convert_num_mode q)"
  "value_str (TranscribeRequestToWire q) ''hotword_id'' = Inr (tq_hotword_id q)"
  "value_str (TranscribeRequestToWire q) ''customization_id'' = Inr (tq_customization_id q)"
  "value_str (TranscribeRequestToWire q) ''hotword_list'' = Inr (tq_hotword_list q)"
  "in_i32 (tq_input_sample_rate q) \<Longrightarrow> value_i32 (TranscribeRequestToWire q) ''input_sample_rate'' = Inr (tq_input_sample_rate q)"
  "pred_option in_i32 (tq_needvad q) \<Longrightarrow> field_opt get_i32 (TranscribeRequestToWire q) ''needvad'' = Inr (tq_needvad q)"
  "pred_option in_i32 (tq_vad_silence_time q) \<Longrightarrow> field_opt get_i32 (TranscribeRequestToWire q) ''vad_silence_time'' = Inr (tq_vad_silence_time q)"
  "value_str (TranscribeRequestToWire q) ''language'' = Inr (tq_language q)"
  "in_i32 (tq_speaker_diarization q) \<Longrightarrow> value_i32 (TranscribeRequestToWire q) ''speaker_diarization'' = Inr (tq_speaker_diarization q)"
  "transcribe_canonical q \<Longrightarrow> in_i32 (tq_speaker_number q) \<Longrightarrow> value_i32 (TranscribeRequestToWire q) ''speaker_number'' = Inr (tq_speaker_number q)"
  by (simp_all add: TranscribeRequestToWire_def member_reads field_opt_def source_types_v3 del: mput.simps)
    (auto simp: transcribe_canonical_def split: option.split if_splits)

lemma read_transcribe_wire:
  "transcribe_canonical q \<Longrightarrow> transcribe_request_fits q \<Longrightarrow>
   read_transcribe (TranscribeRequestToWire q) = Inr q"
  by (simp add: read_transcribe_def transcribe_request_fits_def transcribe_members)

lemma WordFromJson_json: "word_fits_v3 w \<Longrightarrow> WordFromJson (word_json_v3 w) = Inr w"
  by (simp add: WordFromJson_def word_json_v3_def word_fits_v3_def)

lemma TranscribeResponseFromJson_json:
  assumes "transcribe_fits r"
  shows "TranscribeResponseFromJson (transcribe_json r) = Inr r"
proof -
  have "mapE WordFromJson (map word_json_v3 (tr_word_list r)) = Inr (tr_word_list r)"
    using assms by (intro mapE_inverse WordFromJson_json) (auto simp: transcribe_fits_def list_all_iff)
  with assms show ?thesis
    by (simp add: TranscribeResponseFromJson_def transcribe_json_def transcribe_fits_def)
qed

end
