(* ===== verification/V3File.thy ===== *)
theory V3File
  imports V3Transcribe Polling
begin

text \<open>
  Recognition of long recordings over the v3 interface: \<^verbatim>\<open>/v3/create_transcription\<close> and
  \<^verbatim>\<open>/v3/describe_transcription\<close> of \<^verbatim>\<open>src/v3.cc\<close>, with the waiting loop of \<open>Polling\<close>.
\<close>

record CreateTranscriptionRequest =
  ct_engine_model_type :: string
  ct_channel_num :: int
  ct_res_text_format :: int
  ct_source_type :: int
  ct_url :: string
  ct_data :: string
  ct_data_len :: int
  ct_audio_urls :: "AudioURLItem list"
  ct_callback_url :: string
  ct_speaker_diarization :: int
  ct_speaker_number :: int
  ct_voiceprint_ids :: "string list"
  ct_speaker_roles :: "SpeakerRole list"
  ct_hotword_id :: string
  ct_customization_id :: string
  ct_hotword_list :: string
  ct_keyword_lib_id_list :: "string list"
  ct_replace_text_id :: string
  ct_convert_num_mode :: int
  ct_filter_dirty :: int
  ct_filter_punc :: int
  ct_filter_modal :: int
  ct_sentence_max_length :: int
  ct_extra :: string
  ct_vad_silence_ms :: int
  ct_vad_level :: "int option"
  ct_noise_threshold :: "dbl option"
  ct_language :: string

definition new_CreateTranscriptionRequest :: CreateTranscriptionRequest where
  "new_CreateTranscriptionRequest =
     \<lparr>
       ct_engine_model_type = [], ct_channel_num = 1, ct_res_text_format = 1,
       ct_source_type = kSourceTypeData_v3, ct_url = [], ct_data = [], ct_data_len = 0,
       ct_audio_urls = [], ct_callback_url = [], ct_speaker_diarization = 0,
       ct_speaker_number = 0, ct_voiceprint_ids = [], ct_speaker_roles = [], ct_hotword_id = [],
       ct_customization_id = [], ct_hotword_list = [], ct_keyword_lib_id_list = [],
       ct_replace_text_id = [], ct_convert_num_mode = 0, ct_filter_dirty = 0, ct_filter_punc = 0,
       ct_filter_modal = 0, ct_sentence_max_length = 0, ct_extra = [], ct_vad_silence_ms = 0,
       ct_vad_level = None, ct_noise_threshold = None, ct_language = [] \<rparr>"

record SentenceDetail_v3 =
  dv_final_sentence :: string
  dv_slice_sentence :: string
  dv_written_text :: string
  dv_start_ms :: int
  dv_end_ms :: int
  dv_words_num :: int
  dv_words :: "Word list"
  dv_speech_speed :: dbl
  dv_speaker_id :: int
  dv_channel_id :: int
  dv_speaker_role_name :: string
  dv_silence_time :: int
  dv_language :: string
  dv_language_b47 :: string

record TranscriptionStatus =
  tv_code :: int
  tv_message :: string
  tv_request_id :: string
  tv_transcription_id :: string
  tv_status :: int
  tv_status_str :: string
  tv_progress :: int
  tv_audio_duration :: dbl
  tv_result :: string
  tv_result_detail :: "SentenceDetail_v3 list"
  tv_error_msg :: string

record FileRecognizer_v3 =
  f3_credential :: Credential
  f3_endpoint :: string
  f3_timeout :: int

definition new_FileRecognizer_v3 :: "Credential \<Rightarrow> FileRecognizer_v3" where
  "new_FileRecognizer_v3 cred = \<lparr> f3_credential = cred, f3_endpoint = [], f3_timeout = 60 \<rparr>"

definition SetEndpoint_f3 :: "string \<Rightarrow> FileRecognizer_v3 \<Rightarrow> FileRecognizer_v3" where
  "SetEndpoint_f3 endpoint self = self \<lparr> f3_endpoint := endpoint \<rparr>"

definition SetTimeout_f3 :: "int \<Rightarrow> FileRecognizer_v3 \<Rightarrow> FileRecognizer_v3" where
  "SetTimeout_f3 timeout self = self \<lparr> f3_timeout := timeout \<rparr>"

section \<open>The wire\<close>

text \<open>The piece's URL is stored under the key \<^verbatim>\<open>req.url\<close>.\<close>

definition item_json :: "AudioURLItem \<Rightarrow> json" where
  "item_json it = JObj (jput_str ''label'' (au_label it) (mput ''req.url'' (JStr (au_url it))
     (mput ''index'' (JInt (au_index it)) [])))"

definition role_json_v3 :: "SpeakerRole \<Rightarrow> json" where
  "role_json_v3 role =
     JObj (mput ''audio_url'' (JStr (audio_url role)) (mput ''role_name'' (JStr (role_name role)) []))"

definition CreateTranscriptionRequestToWire :: "CreateTranscriptionRequest \<Rightarrow> json" where
  "CreateTranscriptionRequestToWire req =
    (let voiceprint = (ct_speaker_diarization req = kSpeakerDiarizationVoiceprint) in JObj (
     jput_str ''language'' (ct_language req) (
     jput_opt_dbl ''noise_threshold'' (ct_noise_threshold req) (
     jput_opt_int ''vad_level'' (ct_vad_level req) (
     jput_int ''vad_silence_ms'' (ct_vad_silence_ms req) (
     jput_str ''extra'' (ct_extra req) (
     jput_int ''sentence_max_length'' (ct_sentence_max_length req) (
     jput_int ''filter_modal'' (ct_filter_modal req) (
     jput_int ''filter_punc'' (ct_filter_punc req) (
     jput_int ''filter_dirty'' (ct_filter_dirty req) (
     jput_int ''convert_num_mode'' (ct_convert_num_mode req) (
     jput_str ''replace_text_id'' (ct_replace_text_id req) (
     jput_strs ''keyword_lib_id_list'' (ct_keyword_lib_id_list req) (
     jput_str ''hotword_list'' (ct_hotword_list req) (
     jput_str ''customization_id'' (ct_customization_id req) (
     jput_str ''hotword_id'' (ct_hotword_id req) (
     put_if (voiceprint \<and> ct_speaker_roles req \<noteq> []) ''speaker_roles''
        (JArr (map role_json_v3 (ct_speaker_roles req))) (
     put_if (voiceprint \<and> ct_voiceprint_ids req \<noteq> []) ''voiceprint_ids''
        (JArr (map JStr (ct_voiceprint_ids req))) (
     put_if (ct_speaker_diarization req \<noteq> 0 \<and> ct_speaker_number req \<noteq> 0) ''speaker_number'' (JInt (ct_speaker_number req)) (
     jput_int ''speaker_diarization'' (ct_speaker_diarization req) (
     jput_str ''callback_url'' (ct_callback_url req) (
     put_if (ct_audio_urls req \<noteq> []) ''audio_urls'' (JArr (map item_json (ct_audio_urls req))) (
     put_if (ct_source_type req = kSourceTypeData_v3 \<and> ct_data req \<noteq> []) ''data_len'' (JInt (ct_data_len req)) (
     put_if (ct_source_type req = kSourceTypeData_v3 \<and> ct_data req \<noteq> []) ''data'' (JStr (ct_data req)) (
     put_if (ct_source_type req = kSourceTypeUrl_v3 \<and> ct_url req \<noteq> []) ''url'' (JStr (ct_url req)) (
     mput ''source_type'' (JInt (ct_source_type req)) (
     mput ''res_text_format'' (JInt (ct_res_text_format req)) (
     mput ''channel_num'' (JInt (ct_channel_num req)) (
     mput ''engine_model_type'' (JStr (ct_engine_model_type req)) [])))))))))))))))))))))))))))))"

definition ValidateTranscription :: "CreateTranscriptionRequest \<Rightarrow> unit result" where
  "ValidateTranscription req =
     bindE (throw_if (ct_engine_model_type req = []) (invalid_param ''engine_model_type is required'')) (\<lambda>_.
     bindE (throw_if (ct_channel_num req \<noteq> 1 \<and> ct_channel_num req \<noteq> 2)
       (invalid_param ''channel_num must be 1 or 2'')) (\<lambda>_.
     bindE (throw_if (ct_res_text_format req < 0 \<or> ct_res_text_format req > 3)
       (invalid_param (''res_text_format must be one of [0, 1, 2, 3], got '' @
          to_string (ct_res_text_format req)))) (\<lambda>_.
     bindE (throw_if (ct_channel_num req = 2 \<and> ct_speaker_diarization req \<noteq> 0)
       (invalid_param (''speaker_diarization is not supported for stereo (channel_num=2); '' @
          ''sentences carry channel_id instead''))) (\<lambda>_.
     bindE (if ct_audio_urls req \<noteq> []
            then ValidateAudioURLs (ct_source_type req) (ct_url req) (ct_data req) (ct_audio_urls req)
            else bindE (throw_if (ct_source_type req = kSourceTypeUrl_v3 \<and> ct_url req = [])
                   (invalid_param ''url is required when source_type=0'')) (\<lambda>_.
                 throw_if (ct_source_type req = kSourceTypeData_v3 \<and> ct_data req = [])
                   (invalid_param ''data is required when source_type=1''))) (\<lambda>_.
     bindE (ValidateSpeakerDiarization_v3 (ct_speaker_diarization req) (ct_speaker_number req)
              (ct_speaker_roles req) (ct_voiceprint_ids req)) (\<lambda>_.
     ValidateVadTuning_v3 (ct_vad_level req) (ct_noise_threshold req)))))))"

definition SentenceDetailFromJson :: "json \<Rightarrow> SentenceDetail_v3 result" where
  "SentenceDetailFromJson j =
     bindE (value_str j ''final_sentence'') (\<lambda>xfinalsentence.
     bindE (value_str j ''slice_sentence'') (\<lambda>xslicesentence.
     bindE (value_str j ''written_text'') (\<lambda>xwrittentext.
     bindE (value_i32 j ''start_ms'') (\<lambda>xstartms.
     bindE (value_i32 j ''end_ms'') (\<lambda>xendms.
     bindE (value_i32 j ''words_num'') (\<lambda>xwordsnum.
     bindE (case jmember is_array j ''words'' of
              None \<Rightarrow> Inr [] | Some a \<Rightarrow> mapE WordFromJson (elements a)) (\<lambda>xwords.
     bindE (value_f64 j ''speech_speed'') (\<lambda>xspeechspeed.
     bindE (value_i32 j ''speaker_id'') (\<lambda>xspeakerid.
     bindE (value_i32 j ''channel_id'') (\<lambda>xchannelid.
     bindE (value_str j ''speaker_role_name'') (\<lambda>xspeakerrolename.
     bindE (value_i32 j ''silence_time'') (\<lambda>xsilencetime.
     bindE (value_str j ''language'') (\<lambda>xlanguage.
     bindE (value_str j ''language_b47'') (\<lambda>xlanguageb47.
     Inr \<lparr>
       dv_final_sentence = xfinalsentence, dv_slice_sentence = xslicesentence,
       dv_written_text = xwrittentext, dv_start_ms = xstartms, dv_end_ms = xendms,
       dv_words_num = xwordsnum, dv_words = xwords, dv_speech_speed = xspeechspeed,
       dv_speaker_id = xspeakerid, dv_channel_id = xchannelid,
       dv_speaker_role_name = xspeakerrolename, dv_silence_time = xsilencetime,
       dv_language = xlanguage, dv_language_b47 = xlanguageb47 \<rparr>))))))))))))))"

definition TranscriptionStatusFromJson :: "json \<Rightarrow> TranscriptionStatus result" where
  "TranscriptionStatusFromJson j =
     bindE (value_i32 j ''code'') (\<lambda>xcode.
     bindE (value_str j ''message'') (\<lambda>xmessage.
     bindE (value_str j ''request_id'') (\<lambda>xrequestid.
     bindE (value_str j ''transcription_id'') (\<lambda>xtranscriptionid.
     bindE (value_i32 j ''status'') (\<lambda>xstatus.
     bindE (value_str j ''status_str'') (\<lambda>xstatusstr.
     bindE (value_i32 j ''progress'') (\<lambda>xprogress.
     bindE (value_f64 j ''audio_duration'') (\<lambda>xaudioduration.
     bindE (value_str j ''result'') (\<lambda>xresult.
     bindE (case jmember is_array j ''result_detail'' of
              None \<Rightarrow> Inr [] | Some a \<Rightarrow> mapE SentenceDetailFromJson (elements a)) (\<lambda>xresultdetail.
     bindE (value_str j ''error_msg'') (\<lambda>xerrormsg.
     Inr \<lparr>
       tv_code = xcode, tv_message = xmessage, tv_request_id = xrequestid,
       tv_transcription_id = xtranscriptionid, tv_status = xstatus, tv_status_str = xstatusstr,
       tv_progress = xprogress, tv_audio_duration = xaudioduration, tv_result = xresult,
       tv_result_detail = xresultdetail, tv_error_msg = xerrormsg \<rparr>)))))))))))"

section \<open>The operations\<close>

definition CreateTask_v3 :: "sdk_env \<Rightarrow> FileRecognizer_v3 \<Rightarrow> CreateTranscriptionRequest \<Rightarrow> string sdk" where
  "CreateTask_v3 env self req =
     bindW (liftW (ValidateTranscription req)) (\<lambda>_.
     bindW (call_v3 env (f3_credential self) (f3_endpoint self) (f3_timeout self)
              ''/v3/create_transcription'' (CreateTranscriptionRequestToWire req)) (\<lambda>data.
     bindW (liftW (value_str data ''transcription_id'')) (\<lambda>tid.
     liftW (if tid = [] then Inl (ASRError kErrServerError ''empty transcription_id in response'')
            else Inr tid))))"

definition with_file_v3 :: "u8 list \<Rightarrow> CreateTranscriptionRequest \<Rightarrow> CreateTranscriptionRequest" where
  "with_file_v3 data req =
     req \<lparr> ct_source_type := kSourceTypeData_v3, ct_data := Base64Encode data,
           ct_data_len := int (length data) \<rparr>"

definition CreateTaskFromData_v3 ::
  "sdk_env \<Rightarrow> FileRecognizer_v3 \<Rightarrow> u8 list \<Rightarrow> string \<Rightarrow> string sdk" where
  "CreateTaskFromData_v3 env self data engine_model_type =
     bindW (liftW (throw_if (data = []) (invalid_param ''audio data is empty''))) (\<lambda>_.
     bindW (liftW (throw_if (int (length data) > 5 * 1024 * 1024)
       (invalid_param ''audio data exceeds 5MB limit''))) (\<lambda>_.
     CreateTask_v3 env self (with_file_v3 data
       (new_CreateTranscriptionRequest \<lparr> ct_engine_model_type := engine_model_type,
          ct_channel_num := 1, ct_res_text_format := 1 \<rparr>))))"

definition CreateTaskFromDataWithOptions_v3 ::
  "sdk_env \<Rightarrow> FileRecognizer_v3 \<Rightarrow> u8 list \<Rightarrow> CreateTranscriptionRequest option \<Rightarrow> world \<Rightarrow>
     (string result \<times> world) \<times> CreateTranscriptionRequest option" where
  "CreateTaskFromDataWithOptions_v3 env self data req w =
     (case req of
        None \<Rightarrow> ((Inl (invalid_param ''request is null''), w), None)
      | Some q \<Rightarrow>
          if data = [] then ((Inl (invalid_param ''audio data is empty''), w), Some q)
          else if int (length data) > 5 * 1024 * 1024
          then ((Inl (invalid_param ''audio data exceeds 5MB limit''), w), Some q)
          else (CreateTask_v3 env self (with_file_v3 data q) w, Some (with_file_v3 data q)))"

definition CreateTaskFromUrl_v3 :: "sdk_env \<Rightarrow> FileRecognizer_v3 \<Rightarrow> string \<Rightarrow> string \<Rightarrow> string sdk" where
  "CreateTaskFromUrl_v3 env self recording_url engine_model_type =
     bindW (liftW (throw_if (recording_url = []) (invalid_param ''audio URL is empty''))) (\<lambda>_.
     CreateTask_v3 env self
       (new_CreateTranscriptionRequest \<lparr> ct_engine_model_type := engine_model_type, ct_channel_num := 1,
          ct_res_text_format := 1, ct_source_type := kSourceTypeUrl_v3, ct_url := recording_url \<rparr>))"

definition DescribeTask :: "sdk_env \<Rightarrow> FileRecognizer_v3 \<Rightarrow> string \<Rightarrow> TranscriptionStatus sdk" where
  "DescribeTask env self transcription_id =
     bindW (liftW (throw_if (transcription_id = []) (invalid_param ''transcription_id is empty''))) (\<lambda>_.
     bindW (call_v3 env (f3_credential self) (f3_endpoint self) (f3_timeout self)
              ''/v3/describe_transcription''
              (JObj (mput ''transcription_id'' (JStr transcription_id) []))) (\<lambda>data.
     liftW (TranscriptionStatusFromJson data)))"

definition task_failed_v3 :: "TranscriptionStatus \<Rightarrow> exn" where
  "task_failed_v3 s = ASRError kErrServerError
     (''task failed: '' @ tv_error_msg s @ '' (transcription_id: '' @ tv_transcription_id s @ '')'')"

definition task_late_v3 :: "string \<Rightarrow> int \<Rightarrow> TranscriptionStatus \<Rightarrow> exn" where
  "task_late_v3 transcription_id timeout s = ASRError kErrTimeout
     (''task not completed within '' @ to_string timeout @ ''ms (transcription_id: '' @ transcription_id @
      '', Status: '' @ tv_status_str s @ '')'')"

definition WaitForResultWithInterval_v3 ::
  "sdk_env \<Rightarrow> FileRecognizer_v3 \<Rightarrow> string \<Rightarrow> int \<Rightarrow> int \<Rightarrow> world \<Rightarrow>
     (TranscriptionStatus result \<times> world) option" where
  "WaitForResultWithInterval_v3 env self transcription_id interval timeout =
     wait_for_result (DescribeTask env self transcription_id) tv_status task_failed_v3
       (task_late_v3 transcription_id timeout) interval timeout"

definition WaitForResult_v3 ::
  "sdk_env \<Rightarrow> FileRecognizer_v3 \<Rightarrow> string \<Rightarrow> world \<Rightarrow> (TranscriptionStatus result \<times> world) option" where
  "WaitForResult_v3 env self transcription_id =
     WaitForResultWithInterval_v3 env self transcription_id 1000 (600 * 1000)"

section \<open>The service's side\<close>

definition read_item :: "json \<Rightarrow> AudioURLItem result" where
  "read_item j = bindE (value_i64 j ''index'') (\<lambda>i. bindE (value_str j ''url'') (\<lambda>u.
     bindE (value_str j ''label'') (\<lambda>l. Inr \<lparr> au_index = i, au_url = u, au_label = l \<rparr>)))"

definition read_role_v3 :: "json \<Rightarrow> SpeakerRole result" where
  "read_role_v3 j = bindE (value_str j ''role_name'') (\<lambda>n. bindE (value_str j ''audio_url'') (\<lambda>u.
     Inr \<lparr> role_name = n, audio_url = u \<rparr>))"

text \<open>A piece as it arrives: its URL travels under another key than the one the service reads.\<close>

definition lost_url :: "AudioURLItem \<Rightarrow> AudioURLItem" where
  "lost_url it = it \<lparr> au_url := [] \<rparr>"

definition field_list :: "(json \<Rightarrow> 'a result) \<Rightarrow> json \<Rightarrow> string \<Rightarrow> 'a list result" where
  "field_list rd j k = (case jmember is_array j k of None \<Rightarrow> Inr [] | Some a \<Rightarrow> mapE rd (elements a))"

definition read_transcription :: "json \<Rightarrow> CreateTranscriptionRequest result" where
  "read_transcription j =
     bindE (value_str j ''engine_model_type'') (\<lambda>xenginemodeltype.
     bindE (value_i32 j ''channel_num'') (\<lambda>xchannelnum.
     bindE (value_i32 j ''res_text_format'') (\<lambda>xrestextformat.
     bindE (value_i32 j ''source_type'') (\<lambda>xsourcetype.
     bindE (value_str j ''url'') (\<lambda>xurl.
     bindE (value_str j ''data'') (\<lambda>xdata.
     bindE (value_i64 j ''data_len'') (\<lambda>xdatalen.
     bindE (field_list read_item j ''audio_urls'') (\<lambda>xaudiourls.
     bindE (value_str j ''callback_url'') (\<lambda>xcallbackurl.
     bindE (value_i32 j ''speaker_diarization'') (\<lambda>xspeakerdiarization.
     bindE (value_i32 j ''speaker_number'') (\<lambda>xspeakernumber.
     bindE (field_strs j ''voiceprint_ids'') (\<lambda>xvoiceprintids.
     bindE (field_list read_role_v3 j ''speaker_roles'') (\<lambda>xspeakerroles.
     bindE (value_str j ''hotword_id'') (\<lambda>xhotwordid.
     bindE (value_str j ''customization_id'') (\<lambda>xcustomizationid.
     bindE (value_str j ''hotword_list'') (\<lambda>xhotwordlist.
     bindE (field_strs j ''keyword_lib_id_list'') (\<lambda>xkeywordlibidlist.
     bindE (value_str j ''replace_text_id'') (\<lambda>xreplacetextid.
     bindE (value_i32 j ''convert_num_mode'') (\<lambda>xconvertnummode.
     bindE (value_i32 j ''filter_dirty'') (\<lambda>xfilterdirty.
     bindE (value_i32 j ''filter_punc'') (\<lambda>xfilterpunc.
     bindE (value_i32 j ''filter_modal'') (\<lambda>xfiltermodal.
     bindE (value_i32 j ''sentence_max_length'') (\<lambda>xsentencemaxlength.
     bindE (value_str j ''extra'') (\<lambda>xextra.
     bindE (value_i32 j ''vad_silence_ms'') (\<lambda>xvadsilencems.
     bindE (field_opt get_i32 j ''vad_level'') (\<lambda>xvadlevel.
     bindE (field_opt get_f64 j ''noise_threshold'') (\<lambda>xnoisethreshold.
     bindE (value_str j ''language'') (\<lambda>xlanguage.
     Inr \<lparr>
       ct_engine_model_type = xenginemodeltype, ct_channel_num = xchannelnum,
       ct_res_text_format = xrestextformat, ct_source_type = xsourcetype, ct_url = xurl,
       ct_data = xdata, ct_data_len = xdatalen, ct_audio_urls = xaudiourls,
       ct_callback_url = xcallbackurl, ct_speaker_diarization = xspeakerdiarization,
       ct_speaker_number = xspeakernumber, ct_voiceprint_ids = xvoiceprintids,
       ct_speaker_roles = xspeakerroles, ct_hotword_id = xhotwordid,
       ct_customization_id = xcustomizationid, ct_hotword_list = xhotwordlist,
       ct_keyword_lib_id_list = xkeywordlibidlist, ct_replace_text_id = xreplacetextid,
       ct_convert_num_mode = xconvertnummode, ct_filter_dirty = xfilterdirty,
       ct_filter_punc = xfilterpunc, ct_filter_modal = xfiltermodal,
       ct_sentence_max_length = xsentencemaxlength, ct_extra = xextra,
       ct_vad_silence_ms = xvadsilencems, ct_vad_level = xvadlevel,
       ct_noise_threshold = xnoisethreshold, ct_language = xlanguage \<rparr>))))))))))))))))))))))))))))"

definition detail_json_v3 :: "SentenceDetail_v3 \<Rightarrow> json" where
  "detail_json_v3 d = JObj [
     (''channel_id'', JInt (dv_channel_id d)), (''end_ms'', JInt (dv_end_ms d)),
     (''final_sentence'', JStr (dv_final_sentence d)), (''language'', JStr (dv_language d)),
     (''language_b47'', JStr (dv_language_b47 d)), (''silence_time'', JInt (dv_silence_time d)),
     (''slice_sentence'', JStr (dv_slice_sentence d)), (''speaker_id'', JInt (dv_speaker_id d)),
     (''speaker_role_name'', JStr (dv_speaker_role_name d)),
     (''speech_speed'', JFloat (dv_speech_speed d)), (''start_ms'', JInt (dv_start_ms d)),
     (''words'', JArr (map word_json_v3 (dv_words d))), (''words_num'', JInt (dv_words_num d)),
     (''written_text'', JStr (dv_written_text d))]"

definition transcription_json :: "TranscriptionStatus \<Rightarrow> json" where
  "transcription_json s = JObj [
     (''audio_duration'', JFloat (tv_audio_duration s)), (''code'', JInt (tv_code s)),
     (''error_msg'', JStr (tv_error_msg s)), (''message'', JStr (tv_message s)),
     (''progress'', JInt (tv_progress s)), (''request_id'', JStr (tv_request_id s)),
     (''result'', JStr (tv_result s)),
     (''result_detail'', JArr (map detail_json_v3 (tv_result_detail s))),
     (''status'', JInt (tv_status s)), (''status_str'', JStr (tv_status_str s)),
     (''transcription_id'', JStr (tv_transcription_id s))]"

definition detail_fits_v3 :: "SentenceDetail_v3 \<Rightarrow> bool" where
  "detail_fits_v3 d \<longleftrightarrow> in_i32 (dv_start_ms d) \<and> in_i32 (dv_end_ms d) \<and> in_i32 (dv_words_num d) \<and>
     in_i32 (dv_speaker_id d) \<and> in_i32 (dv_channel_id d) \<and> in_i32 (dv_silence_time d) \<and>
     list_all word_fits_v3 (dv_words d)"

definition transcription_fits :: "TranscriptionStatus \<Rightarrow> bool" where
  "transcription_fits s \<longleftrightarrow> in_i32 (tv_code s) \<and> in_i32 (tv_status s) \<and> in_i32 (tv_progress s) \<and>
     list_all detail_fits_v3 (tv_result_detail s)"

text \<open>
  A request is canonical when the members that are sent only in one mode hold nothing in
  the others; it fits when its integers fit their fields.
\<close>

definition transcription_canonical :: "CreateTranscriptionRequest \<Rightarrow> bool" where
  "transcription_canonical q \<longleftrightarrow>
     (ct_source_type q = 0 \<or> ct_url q = []) \<and>
     (ct_source_type q = 1 \<or> ct_data q = []) \<and> (ct_data q \<noteq> [] \<or> ct_data_len q = 0) \<and>
     (ct_speaker_diarization q \<noteq> 0 \<or> ct_speaker_number q = 0) \<and>
     (ct_speaker_diarization q = 3 \<or> ct_voiceprint_ids q = [] \<and> ct_speaker_roles q = [])"

definition transcription_request_fits :: "CreateTranscriptionRequest \<Rightarrow> bool" where
  "transcription_request_fits q \<longleftrightarrow> in_i64 (ct_data_len q) \<and> pred_option in_i32 (ct_vad_level q) \<and>
     pred_option (\<lambda>d. json_wf (JFloat d)) (ct_noise_threshold q) \<and>
     list_all (\<lambda>it. in_i64 (au_index it)) (ct_audio_urls q) \<and> list_all in_i32
      [
       ct_channel_num q, ct_res_text_format q, ct_source_type q, ct_speaker_diarization q,
       ct_speaker_number q, ct_convert_num_mode q, ct_filter_dirty q, ct_filter_punc q,
       ct_filter_modal q, ct_sentence_max_length q, ct_vad_silence_ms q]"

section \<open>Lemmas\<close>

lemma read_role_json_v3: "mapE read_role_v3 (map role_json_v3 roles) = Inr roles"
  by (intro mapE_inverse) (simp add: read_role_v3_def role_json_v3_def)

lemma read_item_json: "in_i64 (au_index it) \<Longrightarrow> read_item (item_json it) = Inr (lost_url it)"
  by (cases it) (simp add: read_item_def item_json_def lost_url_def jput_str_def put_if_def)

lemma read_items_json:
  "list_all (\<lambda>it. in_i64 (au_index it)) items \<Longrightarrow>
   mapE read_item (map item_json items) = Inr (map lost_url items)"
  by (induction items) (simp_all add: read_item_json)

lemma case_array_member:
  "(case (if c then Some (JArr xs) else None) of None \<Rightarrow> None
      | Some v \<Rightarrow> if is_array v then Some v else None) = (if c then Some (JArr xs) else None)"
  by simp

lemma transcription_members:
  "value_str (CreateTranscriptionRequestToWire q) ''engine_model_type'' = Inr (ct_engine_model_type q)"
  "in_i32 (ct_channel_num q) \<Longrightarrow> value_i32 (CreateTranscriptionRequestToWire q) ''channel_num'' = Inr (ct_channel_num q)"
  "in_i32 (ct_res_text_format q) \<Longrightarrow> value_i32 (CreateTranscriptionRequestToWire q) ''res_text_format'' = Inr (ct_res_text_format q)"
  "in_i32 (ct_source_type q) \<Longrightarrow> value_i32 (CreateTranscriptionRequestToWire q) ''source_type'' = Inr (ct_source_type q)"
  "transcription_canonical q \<Longrightarrow> value_str (CreateTranscriptionRequestToWire q) ''url'' = Inr (ct_url q)"
  "transcription_canonical q \<Longrightarrow> value_str (CreateTranscriptionRequestToWire q) ''data'' = Inr (ct_data q)"
  "transcription_canonical q \<Longrightarrow> in_i64 (ct_data_len q) \<Longrightarrow> value_i64 (CreateTranscriptionRequestToWire q) ''data_len'' = Inr (ct_data_len q)"
  "list_all (\<lambda>it. in_i64 (au_index it)) (ct_audio_urls q) \<Longrightarrow>
     field_list read_item (CreateTranscriptionRequestToWire q) ''audio_urls'' = Inr (map lost_url (ct_audio_urls q))"
  "value_str (CreateTranscriptionRequestToWire q) ''callback_url'' = Inr (ct_callback_url q)"
  "in_i32 (ct_speaker_diarization q) \<Longrightarrow> value_i32 (CreateTranscriptionRequestToWire q) ''speaker_diarization'' = Inr (ct_speaker_diarization q)"
  "transcription_canonical q \<Longrightarrow> in_i32 (ct_speaker_number q) \<Longrightarrow> value_i32 (CreateTranscriptionRequestToWire q) ''speaker_number'' = Inr (ct_speaker_number q)"
  "transcription_canonical q \<Longrightarrow> field_strs (CreateTranscriptionRequestToWire q) ''voiceprint_ids'' = Inr (ct_voiceprint_ids q)"
  "transcription_canonical q \<Longrightarrow> field_list read_role_v3 (CreateTranscriptionRequestToWire q) ''speaker_roles'' = Inr (ct_speaker_roles q)"
  "value_str (CreateTranscriptionRequestToWire q) ''hotword_id'' = Inr (ct_hotword_id q)"
  "value_str (CreateTranscriptionRequestToWire q) ''customization_id'' = Inr (ct_customization_id q)"
  "value_str (CreateTranscriptionRequestToWire q) ''hotword_list'' = Inr (ct_hotword_list q)"
  "field_strs (CreateTranscriptionRequestToWire q) ''keyword_lib_id_list'' = Inr (ct_keyword_lib_id_list q)"
  "value_str (CreateTranscriptionRequestToWire q) ''replace_text_id'' = Inr (ct_replace_text_id q)"
  "in_i32 (ct_convert_num_mode q) \<Longrightarrow> value_i32 (CreateTranscriptionRequestToWire q) ''convert_num_mode'' = Inr (ct_convert_num_mode q)"
  "in_i32 (ct_filter_dirty q) \<Longrightarrow> value_i32 (CreateTranscriptionRequestToWire q) ''filter_dirty'' = Inr (ct_filter_dirty q)"
  "in_i32 (ct_filter_punc q) \<Longrightarrow> value_i32 (CreateTranscriptionRequestToWire q) ''filter_punc'' = Inr (ct_filter_punc q)"
  "in_i32 (ct_filter_modal q) \<Longrightarrow> value_i32 (CreateTranscriptionRequestToWire q) ''filter_modal'' = Inr (ct_filter_modal q)"
  "in_i32 (ct_sentence_max_length q) \<Longrightarrow> value_i32 (CreateTranscriptionRequestToWire q) ''sentence_max_length'' = Inr (ct_sentence_max_length q)"
  "value_str (CreateTranscriptionRequestToWire q) ''extra'' = Inr (ct_extra q)"
  "in_i32 (ct_vad_silence_ms q) \<Longrightarrow> value_i32 (CreateTranscriptionRequestToWire q) ''vad_silence_ms'' = Inr (ct_vad_silence_ms q)"
  "pred_option in_i32 (ct_vad_level q) \<Longrightarrow> field_opt get_i32 (CreateTranscriptionRequestToWire q) ''vad_level'' = Inr (ct_vad_level q)"
  "field_opt get_f64 (CreateTranscriptionRequestToWire q) ''noise_threshold'' = Inr (ct_noise_threshold q)"
  "value_str (CreateTranscriptionRequestToWire q) ''language'' = Inr (ct_language q)"
  by (simp_all add: CreateTranscriptionRequestToWire_def Let_def member_reads field_opt_def field_strs_def
      field_list_def case_array_member read_role_json_v3
      read_items_json source_types_v3 speaker_modes del: mput.simps)
    (auto simp: transcription_canonical_def split: option.split if_splits)

lemma read_transcription_wire:
  "transcription_canonical q \<Longrightarrow> transcription_request_fits q \<Longrightarrow>
   read_transcription (CreateTranscriptionRequestToWire q) =
     Inr (q \<lparr> ct_audio_urls := map lost_url (ct_audio_urls q) \<rparr>)"
  by (simp add: read_transcription_def transcription_request_fits_def transcription_members)

lemma item_wf [simp]: "json_wf (item_json it)" "json_wf (role_json_v3 role)"
  unfolding item_json_def role_json_v3_def by (rule json_wf_obj; simp del: mput.simps)+

lemma transcription_wf:
  "transcription_request_fits q \<Longrightarrow> json_wf (CreateTranscriptionRequestToWire q)"
  unfolding CreateTranscriptionRequestToWire_def Let_def
  by (rule json_wf_obj) (simp_all add: transcription_request_fits_def list_all_iff del: mput.simps)

lemma SentenceDetailFromJson_json:
  assumes "detail_fits_v3 d"
  shows "SentenceDetailFromJson (detail_json_v3 d) = Inr d"
proof -
  have "mapE WordFromJson (map word_json_v3 (dv_words d)) = Inr (dv_words d)"
    using assms by (intro mapE_inverse WordFromJson_json) (auto simp: detail_fits_v3_def list_all_iff)
  with assms show ?thesis
    by (simp add: SentenceDetailFromJson_def detail_json_v3_def detail_fits_v3_def)
qed

lemma TranscriptionStatusFromJson_json:
  assumes "transcription_fits s"
  shows "TranscriptionStatusFromJson (transcription_json s) = Inr s"
proof -
  have "mapE SentenceDetailFromJson (map detail_json_v3 (tv_result_detail s)) = Inr (tv_result_detail s)"
    using assms
    by (intro mapE_inverse SentenceDetailFromJson_json) (auto simp: transcription_fits_def list_all_iff)
  with assms show ?thesis
    by (simp add: TranscriptionStatusFromJson_def transcription_json_def transcription_fits_def)
qed

end
