(* ===== verification/AudioIntake.thy ===== *)
theory AudioIntake
  imports SentenceRecognizer FileRecognizer V3Transcribe V3File
begin

text \<open>
  Local audio: what the four \<^verbatim>\<open>...FromData\<close> and \<^verbatim>\<open>...DataWithOptions\<close> operations, of the sentence
  and the file recognizers in v2 and v3, have in common, as one contract.
\<close>

section \<open>The contract\<close>

text \<open>
  \<open>takes_audio limit run bare data_of length_of source_of submit\<close>: \<open>submit\<close> turns audio away, without
  sending and without touching the caller's request, when there is no request, no audio or
  too much of it; any other audio is put into the caller's request, every other option of it
  (\<open>bare\<close>) kept, and the request is run. A request that is used again keeps nothing of the
  audio it carried before.
\<close>

definition takes_audio ::
  "int \<Rightarrow> ('q \<Rightarrow> 'a sdk) \<Rightarrow> ('q \<Rightarrow> 'q) \<Rightarrow> ('q \<Rightarrow> string) \<Rightarrow> ('q \<Rightarrow> int) \<Rightarrow> ('q \<Rightarrow> int) \<Rightarrow>
     (u8 list \<Rightarrow> 'q option \<Rightarrow> world \<Rightarrow> ('a result \<times> world) \<times> 'q option) \<Rightarrow> bool" where
  "takes_audio limit run bare data_of length_of source_of submit \<longleftrightarrow>
     (\<forall>data w. \<exists>msg. submit data None w = ((Inl (ASRError 1001 msg), w), None)) \<and>
     (\<forall>data q w. data = [] \<or> limit < int (length data) \<longrightarrow>
        (\<exists>msg. submit data (Some q) w = ((Inl (ASRError 1001 msg), w), Some q))) \<and>
     (\<forall>data q w. data \<noteq> [] \<and> int (length data) \<le> limit \<longrightarrow>
        (\<exists>q'. submit data (Some q) w = (run q' w, Some q') \<and> Base64Decode (data_of q') = Inr data \<and>
          length_of q' = int (length data) \<and> source_of q' = 1 \<and> bare q' = bare q)) \<and>
     (\<forall>data data2 q q' w w2. snd (submit data (Some q) w) = Some q' \<longrightarrow>
        submit data2 (Some q') w2 = submit data2 (Some q) w2 \<or> data2 = [] \<or> limit < int (length data2))"

locale audio_operation =
  fixes limit :: int and too_long :: string and run :: "'q \<Rightarrow> 'a sdk" and fill :: "u8 list \<Rightarrow> 'q \<Rightarrow> 'q"
    and bare :: "'q \<Rightarrow> 'q" and data_of :: "'q \<Rightarrow> string" and length_of source_of :: "'q \<Rightarrow> int"
    and submit :: "u8 list \<Rightarrow> 'q option \<Rightarrow> world \<Rightarrow> ('a result \<times> world) \<times> 'q option"
  assumes no_request: "submit data None w = ((Inl (invalid_param ''request is null''), w), None)"
    and request: "submit data (Some q) w =
      (if data = [] then ((Inl (invalid_param ''audio data is empty''), w), Some q)
       else if limit < int (length data) then ((Inl (invalid_param too_long), w), Some q)
       else (run (fill data q) w, Some (fill data q)))"
    and filled: "data_of (fill data q) = Base64Encode data" "length_of (fill data q) = int (length data)"
      "source_of (fill data q) = 1" "bare (fill data q) = bare q"
    and refilled: "fill data2 (fill data q) = fill data2 q"
begin

lemma refused:
  assumes "data = [] \<or> limit < int (length data)"
  shows "\<exists>msg. submit data (Some q) w = ((Inl (ASRError 1001 msg), w), Some q)"
  using assms by (auto simp: request invalid_param_def kErrInvalidParam_def)

lemma taken:
  assumes "data \<noteq> []" and "int (length data) \<le> limit"
  shows "submit data (Some q) w = (run (fill data q) w, Some (fill data q))"
  using assms by (simp add: request)

lemma after_submit: "snd (submit data (Some q) w) \<in> {Some q, Some (fill data q)}"
  by (simp add: request)

lemma contract: "takes_audio limit run bare data_of length_of source_of submit"
  unfolding takes_audio_def
proof (intro conjI allI impI)
  show "\<exists>msg. submit data None w = ((Inl (ASRError 1001 msg), w), None)" for data w
    by (simp add: no_request invalid_param_def kErrInvalidParam_def)
  show "\<exists>msg. submit data (Some q) w = ((Inl (ASRError 1001 msg), w), Some q)"
    if "data = [] \<or> limit < int (length data)" for data q w
    using that by (rule refused)
  show "\<exists>q'. submit data (Some q) w = (run q' w, Some q') \<and> Base64Decode (data_of q') = Inr data \<and>
      length_of q' = int (length data) \<and> source_of q' = 1 \<and> bare q' = bare q"
    if "data \<noteq> [] \<and> int (length data) \<le> limit" for data q w
    using that by (intro exI [of _ "fill data q"]) (simp add: taken filled Base64Decode_Encode)
  show "submit data2 (Some q') w2 = submit data2 (Some q) w2 \<or> data2 = [] \<or> limit < int (length data2)"
    if "snd (submit data (Some q) w) = Some q'" for data data2 q q' w w2
    using after_submit [of data q w] that by (auto simp: request refilled)
qed

end

section \<open>The four operations\<close>

definition bare_sentence :: "SentenceRecognitionRequest \<Rightarrow> SentenceRecognitionRequest" where
  "bare_sentence q = q \<lparr> sq_source_type := 0, sq_data := [], sq_data_len := 0 \<rparr>"

definition bare_task :: "CreateRecTaskRequest \<Rightarrow> CreateRecTaskRequest" where
  "bare_task q = q \<lparr> cq_source_type := 0, cq_data := [], cq_data_len := 0 \<rparr>"

definition bare_transcribe :: "TranscribeRequest \<Rightarrow> TranscribeRequest" where
  "bare_transcribe q = q \<lparr> tq_source_type := 0, tq_data := [], tq_data_len := 0 \<rparr>"

definition bare_transcription :: "CreateTranscriptionRequest \<Rightarrow> CreateTranscriptionRequest" where
  "bare_transcription q = q \<lparr> ct_source_type := 0, ct_data := [], ct_data_len := 0 \<rparr>"

interpretation sentence_audio:
  audio_operation 3145728 "''audio data exceeds 3MB limit''" "Recognize env self" with_audio bare_sentence
    sq_data sq_data_len sq_source_type "RecognizeDataWithOptions env self"
  for env self
  by unfold_locales
    (simp_all add: RecognizeDataWithOptions_def with_audio_def bare_sentence_def source_types kMaxAudioSize_def)

interpretation task_audio:
  audio_operation 5242880 "''audio data exceeds 5MB limit''" "CreateTask env self" with_file bare_task
    cq_data cq_data_len cq_source_type "CreateTaskFromDataWithOptions env self"
  for env self
  by unfold_locales
    (simp_all add: CreateTaskFromDataWithOptions_def with_file_def bare_task_def kMaxFileSize_def)

interpretation transcribe_audio:
  audio_operation 3145728 "''audio data exceeds 3MB limit''" "Recognize_v3 env self" with_audio_v3 bare_transcribe
    tq_data tq_data_len tq_source_type "RecognizeDataWithOptions_v3 env self"
  for env self
  by unfold_locales
    (simp_all add: RecognizeDataWithOptions_v3_def with_audio_v3_def bare_transcribe_def source_types_v3)

interpretation transcription_audio:
  audio_operation 5242880 "''audio data exceeds 5MB limit''" "CreateTask_v3 env self" with_file_v3 bare_transcription
    ct_data ct_data_len ct_source_type "CreateTaskFromDataWithOptions_v3 env self"
  for env self
  by unfold_locales
    (simp_all add: CreateTaskFromDataWithOptions_v3_def with_file_v3_def bare_transcription_def source_types_v3)

text \<open>
  The short forms are the long ones on a default request: \<^verbatim>\<open>RecognizeData\<close> and
  \<^verbatim>\<open>CreateTaskFromData\<close>, in v2 and v3, give the result, the error and the traffic that the
  form with options gives for a new request with only the engine and the format set, for a
  file also one channel and text format 1. The format given to the v2 file form has no effect.
\<close>

lemma short_forms_are_defaults:
  "RecognizeData env sr data fmt engine w =
     fst (RecognizeDataWithOptions env sr data
       (Some (new_SentenceRecognitionRequest \<lparr> sq_eng_service_type := engine, sq_voice_format := fmt \<rparr>)) w) \<and>
   CreateTaskFromData env fr data fmt engine w =
     fst (CreateTaskFromDataWithOptions env fr data
       (Some (new_CreateRecTaskRequest \<lparr> cq_engine_model_type := engine, cq_channel_num := 1,
          cq_res_text_format := 1 \<rparr>)) w) \<and>
   RecognizeData_v3 env sr3 data fmt engine w =
     fst (RecognizeDataWithOptions_v3 env sr3 data
       (Some (new_TranscribeRequest \<lparr> tq_engine_model_type := engine, tq_voice_format := fmt \<rparr>)) w) \<and>
   CreateTaskFromData_v3 env fr3 data engine w =
     fst (CreateTaskFromDataWithOptions_v3 env fr3 data
       (Some (new_CreateTranscriptionRequest \<lparr> ct_engine_model_type := engine, ct_channel_num := 1,
          ct_res_text_format := 1 \<rparr>)) w)"
  by (simp add: RecognizeData_def sentence_audio.request kMaxAudioSize_def
      CreateTaskFromData_def task_audio.request kMaxFileSize_def
      RecognizeData_v3_def transcribe_audio.request CreateTaskFromData_v3_def transcription_audio.request
      bindW_def liftW_def)

section \<open>Properties\<close>

text \<open>
  Claim C28. Local audio is sent whole or not at all, by all four operations that take it: 3 MiB
  for a sentence, 5 MiB for a file. No request, no audio or too much of it is refused with
  error 1001, nothing is sent and the caller's request is as it was. Any other audio goes
  into the caller's request in a form that decodes to exactly the audio, with its length and
  the source type for data, every other option kept, and that request is run. The request
  can be used again for other audio as if it were new.
\<close>

theorem local_audio_taken:
  "takes_audio (3 * 1024 * 1024) (Recognize env sr) bare_sentence sq_data sq_data_len sq_source_type
     (RecognizeDataWithOptions env sr) \<and>
   takes_audio (5 * 1024 * 1024) (CreateTask env fr) bare_task cq_data cq_data_len cq_source_type
     (CreateTaskFromDataWithOptions env fr) \<and>
   takes_audio (3 * 1024 * 1024) (Recognize_v3 env sr3) bare_transcribe tq_data tq_data_len tq_source_type
     (RecognizeDataWithOptions_v3 env sr3) \<and>
   takes_audio (5 * 1024 * 1024) (CreateTask_v3 env fr3) bare_transcription ct_data ct_data_len ct_source_type
     (CreateTaskFromDataWithOptions_v3 env fr3)"
  using sentence_audio.contract task_audio.contract transcribe_audio.contract transcription_audio.contract
  by simp

text \<open>
  Claim C29. Audio from the caller to the service and the text back: with audio of a size that is
  taken, an engine and a format, a usable ticket and site, and a service that answers 200 with a
  result, exactly one POST is made and that result is returned; what the service reads from
  the body decodes to exactly the audio, says its length, and has the caller's options.
\<close>

theorem sentence_audio_exchange:
  assumes "json_lib_ok (se_json env)" and "data \<noteq> []" and "int (length data) \<le> 3 * 1024 * 1024"
    and "sq_eng_service_type req \<noteq> []" and "sq_voice_format req \<noteq> []" and "sentence_request_fits req"
    and "sentence_result_fits res"
    and "request_sig env (se_credential self) (wd_sig_time w (wd_ids w))
           (GenerateUuid (fst (wd_uuid w (wd_ids w))) (snd (wd_uuid w (wd_ids w)))) = Inr sig"
    and "HostForSite (cr_site (se_credential self)) = Inr h"
    and "jl_dump (se_json env) (sentence_request_json (with_audio data req)) = Inr body"
    and "wd_curl w (wd_requests w) = CurlDone 200 answer"
    and "jl_parse (se_json env) answer = Inr (JObj [(''Response'', sentence_result_json res)])"
  shows "\<exists>q w' j r. fst (RecognizeDataWithOptions env self data (Some req) w) = (Inr res, w') \<and>
     wd_log w' = wd_log w @ [q] \<and>
     api_post env (se_credential self) (se_endpoint self) (se_timeout_seconds self)
       ''/v1/SentenceRecognition'' body w q \<and>
     jl_parse (se_json env) (hr_body q) = Inr j \<and> read_sentence_request j = Inr r \<and>
     Base64Decode (sq_data r) = Inr data \<and> sq_data_len r = int (length data) \<and> sq_source_type r = 1 \<and>
     bare_sentence r = bare_sentence req"
proof -
  let ?r = "with_audio data req"
  have "sentence_request_ok ?r"
    using assms(2,4,5) Base64Encode_nonempty [of data]
    by (auto simp: sentence_request_ok_def with_audio_def source_types)
  moreover have "sentence_request_fits ?r"
    using assms(3,6) by (simp add: sentence_request_fits_def with_audio_def source_types in_i32_def in_i64_def)
  moreover have "fst (RecognizeDataWithOptions env self data (Some req) w) = Recognize env self ?r w"
    using assms(2,3) by (simp add: sentence_audio.taken)
  moreover note Recognize_answered [OF _ assms(7-12)]
  moreover have "bare_sentence ?r = bare_sentence req" "Base64Decode (sq_data ?r) = Inr data"
    "sq_data_len ?r = int (length data)" "sq_source_type ?r = 1"
    by (simp_all add: sentence_audio.filled Base64Decode_Encode)
  ultimately show ?thesis using sentence_body_reads [OF assms(1) _ assms(10)] by metis
qed

definition sample_audio_docs :: "(string \<times> json) list" where
  "sample_audio_docs = [(''q'', sentence_request_json (with_audio [7, 9] sample_sentence_request)),
     (''r'', JObj [(''Response'', sentence_result_json sample_sentence_result)])]"

theorem sentence_audio_exchange_witness:
  "\<exists>q w' j r. fst (RecognizeDataWithOptions (sample_env sample_audio_docs) (new_SentenceRecognizer sample_credential)
     [7, 9] (Some sample_sentence_request) (sample_world [CurlDone 200 ''r''])) = (Inr sample_sentence_result, w') \<and>
     wd_log w' = [q] \<and> read_sentence_request j = Inr r \<and> Base64Decode (sq_data r) = Inr [7, 9]"
proof -
  let ?env = "sample_env sample_audio_docs" and ?w = "sample_world [CurlDone 200 ''r'']"
    and ?self = "new_SentenceRecognizer sample_credential"
  have "json_lib_ok (se_json ?env)"
    by (simp add: sample_simps sample_audio_docs_def doc_lib_ok)
  moreover have "sq_eng_service_type sample_sentence_request \<noteq> []" "sq_voice_format sample_sentence_request \<noteq> []"
    "sentence_request_fits sample_sentence_request" "sentence_result_fits sample_sentence_result"
    by (simp_all add: sentence_request_fits_def sample_sentence_request_def sentence_result_fits_def
        sample_sentence_result_def new_SentenceRecognitionRequest_def in_i32_def in_i64_def)
  moreover have "request_sig ?env (se_credential ?self) now rid = Inr ''sig''"
    "HostForSite (cr_site (se_credential ?self)) = Inr kHostCN" for now rid
    by (simp_all add: new_SentenceRecognizer_def sample_simps)
  moreover have "jl_dump (se_json ?env) (sentence_request_json (with_audio [7, 9] sample_sentence_request)) = Inr ''q''"
    "jl_parse (se_json ?env) ''r'' = Inr (JObj [(''Response'', sentence_result_json sample_sentence_result)])"
    by (simp_all add: sample_simps doc_lib_def sample_audio_docs_def)
  moreover have "wd_curl ?w (wd_requests ?w) = CurlDone 200 ''r''" "wd_log ?w = []"
    by (simp_all add: sample_simps sample_world_def)
  ultimately show ?thesis
    using sentence_audio_exchange [of ?env "[7, 9]" sample_sentence_request sample_sentence_result ?self ?w
        "''sig''" kHostCN "''q''" "''r''"]
    by fastforce
qed

end
