(* ===== verification/FileProps.thy ===== *)
theory FileProps
  imports FileRecognizer
begin

text \<open>
  Properties of the file recognizer: what reaches the service and comes back, the outcome of
  every failure, and the waiting loop, whose contract \<open>poller\<close> is interpreted on the query.
\<close>

section \<open>Validation\<close>

definition create_request_ok :: "CreateRecTaskRequest \<Rightarrow> bool" where
  "create_request_ok q \<longleftrightarrow> cq_engine_model_type q \<noteq> [] \<and> 0 < cq_channel_num q \<and>
     (cq_source_type q = 0 \<longrightarrow> cq_url q \<noteq> []) \<and> (cq_source_type q = 1 \<longrightarrow> cq_data q \<noteq> []) \<and>
     diarization_ok (cq_speaker_diarization q) (cq_speaker_number q) (cq_speaker_roles q)
       (cq_voiceprint_ids q) \<and> vad_ok (cq_vad_level q) (cq_noise_threshold q)"

lemma checks_ValidateCreateRequest: "checks (ValidateCreateRequest q) (create_request_ok q)"
  unfolding ValidateCreateRequest_def
  by (rule checks_iff [OF checks_bindE [OF checks_throw_if checks_bindE [OF checks_throw_if
        checks_bindE [OF checks_throw_if checks_bindE [OF checks_throw_if
        checks_bindE [OF checks_ValidateSpeakerDiarization checks_ValidateVadTuning]]]]]])
    (auto simp: create_request_ok_def)

lemma CreateTask_invalid:
  "\<not> create_request_ok q \<Longrightarrow> \<exists>msg. CreateTask env self q w = (Inl (ASRError 1001 msg), w)"
  using checks_fail [OF checks_ValidateCreateRequest [of q]]
  by (auto simp: CreateTask_def kErrInvalidParam_def)

lemma CreateTask_valid:
  "create_request_ok q \<Longrightarrow> CreateTask env self q =
     bindW (liftW (SerializeTaskRequest (se_json env) q)) (\<lambda>json_body.
     bindW (DoRequest env self ''/v1/CreateRecTask'' json_body) (\<lambda>resp_body.
     bindW (liftW (ParseApiEnvelope (se_json env) resp_body)) (\<lambda>response.
     bindW (liftW (rethrow_as kErrReadFailed ''unmarshal response failed: ''
              (case jmember is_object response ''Data'' of
                 None \<Rightarrow> Inr [] | Some d \<Rightarrow> value_str d ''RecTaskId''))) (\<lambda>task_id.
     liftW (if task_id = [] then Inl (ASRError kErrServerError ''empty RecTaskId in response'')
            else Inr task_id)))))"
  using checks_Inr [OF checks_ValidateCreateRequest [of q]] by (simp add: CreateTask_def fun_eq_iff)

section \<open>The query as a poller\<close>

lemma requests_at_most_tail:
  "requests_at_most n m \<Longrightarrow> (\<And>x. requests_at_most 0 (f x)) \<Longrightarrow> requests_at_most n (bindW m f)"
  using requests_at_most_bind [of n m 0 f] by simp

lemma Describe_one: "requests_at_most 1 (DescribeTaskStatus env self rid)"
  unfolding DescribeTaskStatus_def DoRequest_def
  by (intro requests_at_most_pure requests_at_most_tail [OF requests_at_most_api]
      requests_at_most_liftW)

interpretation file_poller:
  poller "DescribeTaskStatus env self rid" ts_status task_failed "task_late rid timeout"
  for env self rid timeout
  by unfold_locales (rule Describe_one)

section \<open>Properties\<close>

text \<open>
  Claim C30. Creating a task reaches the service intact: with a valid request whose numbers fit
  their fields, a usable ticket and site and a service that answers with a task id, exactly
  one POST is made, whose body the service reads back as the very request, the enrolment
  roles and the tri-state options included, and the id is returned.
\<close>

theorem CreateTask_exchange:
  assumes "json_lib_ok (se_json env)" and "create_request_ok req" and "task_request_fits req"
    and "request_sig env (fr_credential self) (wd_sig_time w (wd_ids w))
           (GenerateUuid (fst (wd_uuid w (wd_ids w))) (snd (wd_uuid w (wd_ids w)))) = Inr sig"
    and "HostForSite (cr_site (fr_credential self)) = Inr h"
    and "SerializeTaskRequest (se_json env) req = Inr body"
    and "wd_curl w (wd_requests w) = CurlDone 200 reply"
    and "jl_parse (se_json env) reply =
           Inr (JObj [(''Response'', JObj [(''Data'', JObj [(''RecTaskId'', JStr tid)])])])"
    and "tid \<noteq> []"
  shows "\<exists>q w' j. CreateTask env self req w = (Inr tid, w') \<and> wd_log w' = wd_log w @ [q] \<and>
     api_post env (fr_credential self) (fr_endpoint self) (fr_timeout_seconds self)
       ''/v1/CreateRecTask'' body w q \<and>
     jl_parse (se_json env) (hr_body q) = Inr j \<and> read_task_request j = Inr req"
proof -
  obtain q w' where r: "DoRequest env self ''/v1/CreateRecTask'' body w = (Inr reply, w')"
    and p: "api_post env (fr_credential self) (fr_endpoint self) (fr_timeout_seconds self)
      ''/v1/CreateRecTask'' body w q" and l: "wd_log w' = wd_log w @ [q]"
    using api_request_ok [OF assms(4,5,7)] unfolding DoRequest_def by blast
  have "ParseApiEnvelope (se_json env) reply = Inr (JObj [(''Data'', JObj [(''RecTaskId'', JStr tid)])])"
    using assms(8) by (simp add: ParseApiEnvelope_Inr_iff)
  then have "CreateTask env self req w = (Inr tid, w')"
    using assms(9) by (simp add: CreateTask_valid [OF assms(2)] assms(6) bindW_def r)
  moreover have "jl_parse (se_json env) body = Inr (task_request_json (roles_json (cq_speaker_roles req)) req)"
    using assms(1) SerializeTaskRequest_ok [OF assms(1,6)] task_request_wf [OF assms(3)]
    by (auto simp: json_lib_ok_def)
  ultimately show ?thesis
    using p l api_post_body [OF p] read_task_request_json [OF assms(3)] by metis
qed

definition sample_task_request :: CreateRecTaskRequest where
  "sample_task_request = new_CreateRecTaskRequest \<lparr> cq_engine_model_type := ''16k_zh'',
     cq_channel_num := 1, cq_url := ''http://a/b.wav'', cq_vad_level := Some 0 \<rparr>"

definition sample_task_docs :: "(string \<times> json) list" where
  "sample_task_docs = [(''q'', task_request_json (roles_json []) sample_task_request),
     (''r'', JObj [(''Response'', JObj [(''Data'', JObj [(''RecTaskId'', JStr ''t1'')])])])]"

lemma sample_task_ok:
  "create_request_ok sample_task_request" "task_request_fits sample_task_request"
  "SerializeTaskRequest (se_json (sample_env sample_task_docs)) sample_task_request = Inr ''q''"
  by (simp_all add: create_request_ok_def task_request_fits_def sample_task_request_def
      new_CreateRecTaskRequest_def in_i32_def in_i64_def diarization_ok_def vad_ok_def
      SerializeTaskRequest_def sample_simps doc_lib_def sample_task_docs_def task_request_json_def
      put_if_def speaker_modes)

theorem CreateTask_exchange_witness:
  "\<exists>w'. CreateTask (sample_env sample_task_docs) (new_FileRecognizer sample_credential)
     sample_task_request (sample_world [CurlDone 200 ''r'']) = (Inr ''t1'', w') \<and> length (wd_log w') = 1"
proof -
  let ?env = "sample_env sample_task_docs" and ?w = "sample_world [CurlDone 200 ''r'']"
    and ?self = "new_FileRecognizer sample_credential"
  have "json_lib_ok (se_json ?env)"
    by (simp add: sample_simps sample_task_docs_def doc_lib_ok)
  moreover have "jl_parse (se_json ?env) ''r'' =
      Inr (JObj [(''Response'', JObj [(''Data'', JObj [(''RecTaskId'', JStr ''t1'')])])])"
    by (simp add: sample_simps doc_lib_def sample_task_docs_def)
  moreover have "wd_curl ?w (wd_requests ?w) = CurlDone 200 ''r''"
    by (simp add: sample_simps)
  moreover have "request_sig ?env (fr_credential ?self) now rid = Inr ''sig''"
    "HostForSite (cr_site (fr_credential ?self)) = Inr kHostCN" for now rid
    by (simp_all add: new_FileRecognizer_def sample_simps)
  ultimately show ?thesis
    using CreateTask_exchange [of ?env sample_task_request ?self ?w "''sig''" kHostCN "''q''" "''r''" "''t1''"]
      sample_task_ok
    by (fastforce simp: sample_world_def)
qed

text \<open>
  A status query asks for the given task and reads the service's answer completely,
  every sentence and word included, in both spellings of the word offsets.
\<close>

theorem DescribeTaskStatus_exchange:
  assumes "json_lib_ok (se_json env)" and "rid \<noteq> []" and "status_fits s"
    and "request_sig env (fr_credential self) (wd_sig_time w (wd_ids w))
           (GenerateUuid (fst (wd_uuid w (wd_ids w))) (snd (wd_uuid w (wd_ids w)))) = Inr sig"
    and "HostForSite (cr_site (fr_credential self)) = Inr h"
    and "jl_dump (se_json env) (JObj [(''RecTaskId'', JStr rid)]) = Inr body"
    and "wd_curl w (wd_requests w) = CurlDone 200 reply"
    and "jl_parse (se_json env) reply =
           Inr (JObj [(''Response'', JObj [(''Data'', task_status_json legacy s)])])"
  shows "\<exists>q w'. DescribeTaskStatus env self rid w = (Inr s, w') \<and> wd_log w' = wd_log w @ [q] \<and>
     api_post env (fr_credential self) (fr_endpoint self) (fr_timeout_seconds self)
       ''/v1/DescribeTaskStatus'' body w q \<and>
     jl_parse (se_json env) (hr_body q) = Inr (JObj [(''RecTaskId'', JStr rid)])"
proof -
  obtain q w' where r: "DoRequest env self ''/v1/DescribeTaskStatus'' body w = (Inr reply, w')"
    and p: "api_post env (fr_credential self) (fr_endpoint self) (fr_timeout_seconds self)
      ''/v1/DescribeTaskStatus'' body w q" and l: "wd_log w' = wd_log w @ [q]"
    using api_request_ok [OF assms(4,5,7)] unfolding DoRequest_def by blast
  have "ParseApiEnvelope (se_json env) reply = Inr (JObj [(''Data'', task_status_json legacy s)])"
    using assms(8) by (simp add: ParseApiEnvelope_Inr_iff)
  moreover have "is_object (task_status_json legacy s)" by (simp add: task_status_json_def)
  ultimately have "DescribeTaskStatus env self rid w = (Inr s, w')"
    using assms(2,6) by (simp add: DescribeTaskStatus_def bindW_def r ParseTaskStatus_json [OF assms(3)])
  moreover have "jl_parse (se_json env) body = Inr (JObj [(''RecTaskId'', JStr rid)])"
    using assms(1,6) by (auto simp: json_lib_ok_def mwf_def)
  ultimately show ?thesis
    using p l api_post_body [OF p] by simp
qed

definition sample_status :: TaskStatus where
  "sample_status = \<lparr> ts_rec_task_id = ''t1'', ts_status = 2, ts_status_str = ''success'', ts_progress = 100,
     ts_result = ''hi'', ts_error_msg = [],
     ts_result_detail = [\<lparr> sd_final_sentence = ''hi'', sd_slice_sentence = [], sd_written_text = [],
       sd_start_ms = 0, sd_end_ms = 900, sd_words_num = 1,
       sd_words = [\<lparr> fw_word = ''hi'', fw_offset_start_ms = 0, fw_offset_end_ms = 900 \<rparr>],
       sd_speech_speed = Fin False 2, sd_silence_time = 0, sd_speaker_id = 1, sd_speaker_role_name = [],
       sd_channel_id = 0, sd_language = ''zh'' \<rparr>],
     ts_audio_duration = Fin False 1 \<rparr>"

definition sample_status_docs :: "bool \<Rightarrow> (string \<times> json) list" where
  "sample_status_docs legacy = [(''q'', JObj [(''RecTaskId'', JStr ''t1'')]),
     (''r'', JObj [(''Response'', JObj [(''Data'', task_status_json legacy sample_status)])])]"

lemma sample_status_fits: "status_fits sample_status"
  by (simp add: status_fits_def sample_status_def detail_fits_def in_i32_def in_i64_def)

lemma sample_status_lib:
  "json_lib_ok (se_json (sample_env (sample_status_docs legacy)))"
  "jl_dump (se_json (sample_env (sample_status_docs legacy))) (JObj [(''RecTaskId'', JStr ''t1'')]) = Inr ''q''"
  "jl_parse (se_json (sample_env (sample_status_docs legacy))) ''r'' =
     Inr (JObj [(''Response'', JObj [(''Data'', task_status_json legacy sample_status)])])"
  by (simp_all add: sample_simps sample_status_docs_def doc_lib_ok)
    (simp_all add: doc_lib_def)

theorem DescribeTaskStatus_exchange_witness:
  "\<exists>w'. DescribeTaskStatus (sample_env (sample_status_docs True)) (new_FileRecognizer sample_credential)
     ''t1'' (sample_world [CurlDone 200 ''r'']) = (Inr sample_status, w') \<and> length (wd_log w') = 1"
proof -
  let ?env = "sample_env (sample_status_docs True)" and ?w = "sample_world [CurlDone 200 ''r'']"
    and ?self = "new_FileRecognizer sample_credential"
  have "wd_curl ?w (wd_requests ?w) = CurlDone 200 ''r''"
    by (simp add: sample_simps)
  moreover have "request_sig ?env (fr_credential ?self) now rid = Inr ''sig''"
    "HostForSite (cr_site (fr_credential ?self)) = Inr kHostCN" for now rid
    by (simp_all add: new_FileRecognizer_def sample_simps)
  ultimately show ?thesis
    using DescribeTaskStatus_exchange [of ?env "''t1''" sample_status ?self ?w "''sig''" kHostCN "''q''" "''r''" True]
      sample_status_lib sample_status_fits
    by (fastforce simp: sample_world_def)
qed



end
