(* ===== verification/V3Props.thy ===== *)
theory V3Props
  imports V3File FileProps
begin

text \<open>
  Properties of the v3 offline interfaces: what is accepted, what reaches the service and
  comes back, the errors of the service and of the network, and the waiting loop.
\<close>

section \<open>A call\<close>

definition rid_v3 :: "world \<Rightarrow> string" where
  "rid_v3 w = GenerateUuid (fst (wd_uuid w (wd_ids w))) (snd (wd_uuid w (wd_ids w)))"

text \<open>The body of a call: its \<^verbatim>\<open>auth\<close> block, and the parameters with the telemetry added.\<close>

definition signed_body :: "sdk_env \<Rightarrow> Credential \<Rightarrow> string \<Rightarrow> string \<Rightarrow> json smap \<Rightarrow> json" where
  "signed_body env cred rid sig params =
     JObj (mput ''params'' (JObj (mput ''sdk_info'' (sdk_info_json (se_build env)) params))
       (mput ''auth'' (JObj (mput ''request_id'' (JStr rid) (mput ''usersig'' (JStr sig)
         (mput ''sdkappid'' (JStr (to_string (cr_sdk_app_id cred))) [])))) []))"

text \<open>Everything before the network succeeds, and \<open>body\<close> is the text that is posted.\<close>

definition sendable :: "sdk_env \<Rightarrow> Credential \<Rightarrow> world \<Rightarrow> json \<Rightarrow> string \<Rightarrow> string \<Rightarrow> bool" where
  "sendable env cred w params sig body \<longleftrightarrow>
     request_sig env cred (wd_sig_time w (wd_ids w)) (rid_v3 w) = Inr sig \<and>
     (\<exists>h. HostForSite (cr_site cred) = Inr h) \<and>
     (\<exists>m. params = JObj m \<and> jl_dump (se_json env) (signed_body env cred (rid_v3 w) sig m) = Inr body)"

text \<open>The POST of a call, as it is logged.\<close>

definition v3_post :: "Credential \<Rightarrow> string \<Rightarrow> int \<Rightarrow> string \<Rightarrow> string \<Rightarrow> http_request \<Rightarrow> bool" where
  "v3_post cred ep timeout path body q \<longleftrightarrow>
     (\<exists>origin. ResolveHTTPEndpoint ep (cr_site cred) = Inr origin \<and>
        q = \<lparr> hr_url = origin @ path, hr_body = body,
              hr_headers = [''Content-Type: application/json; charset=utf-8''], hr_timeout = timeout \<rparr>)"

definition checked_response :: "json_lib \<Rightarrow> HttpResponse \<Rightarrow> json result" where
  "checked_response jl resp = bindE (flat_response jl resp) (\<lambda>data. bindE (CheckCode data) (\<lambda>_. Inr data))"

lemma call_v3_sends:
  assumes "sendable env cred w params sig body"
  obtains origin where "ResolveHTTPEndpoint ep (cr_site cred) = Inr origin"
    and "call_v3 env cred ep timeout path params w =
     bindW (HttpPost env (origin @ path) body [''Content-Type: application/json; charset=utf-8''] timeout None)
        (\<lambda>(resp, _). liftW (checked_response (se_json env) resp)) (w \<lparr> wd_ids := Suc (wd_ids w) \<rparr>)"
proof -
  obtain h m where h: "HostForSite (cr_site cred) = Inr h" and m: "params = JObj m"
    and s: "request_sig env cred (wd_sig_time w (wd_ids w)) (rid_v3 w) = Inr sig"
    and b: "jl_dump (se_json env) (signed_body env cred (rid_v3 w) sig m) = Inr body"
    using assms by (auto simp: sendable_def)
  obtain origin where o: "ResolveHTTPEndpoint ep (cr_site cred) = Inr origin"
    using Resolve_endpoints [OF h] by blast
  have "OfflineEnvelope env cred (wd_sig_time w (wd_ids w)) (rid_v3 w) params =
      Inr (signed_body env cred (rid_v3 w) sig m)"
    by (simp add: OfflineEnvelope_def jassign_def s m signed_body_def del: mput.simps)
  then have "call_v3 env cred ep timeout path params w =
     bindW (HttpPost env (origin @ path) body [''Content-Type: application/json; charset=utf-8''] timeout None)
        (\<lambda>(resp, _). liftW (checked_response (se_json env) resp)) (w \<lparr> wd_ids := Suc (wd_ids w) \<rparr>)"
    by (simp add: call_v3_def rid_v3_def [symmetric] Let_def PostFlat_def o b checked_response_def bindW_def
        split: prod.splits sum.splits)
  with o that show ?thesis by blast
qed

lemma call_v3_answered:
  assumes "sendable env cred w params sig body" and "wd_curl w (wd_requests w) = CurlDone status reply"
  shows "\<exists>q w'. call_v3 env cred ep timeout path params w =
      (checked_response (se_json env) \<lparr> hp_status = status, hp_body = reply \<rparr>, w') \<and>
    wd_log w' = wd_log w @ [q] \<and> v3_post cred ep timeout path body q"
proof -
  obtain origin where o: "ResolveHTTPEndpoint ep (cr_site cred) = Inr origin"
    and c: "call_v3 env cred ep timeout path params w =
     bindW (HttpPost env (origin @ path) body [''Content-Type: application/json; charset=utf-8''] timeout None)
        (\<lambda>(resp, _). liftW (checked_response (se_json env) resp)) (w \<lparr> wd_ids := Suc (wd_ids w) \<rparr>)"
    using call_v3_sends [OF assms(1)] by metis
  show ?thesis
    by (simp add: c HttpPost_def Let_def assms(2) bindW_def v3_post_def o)
qed


lemma call_v3_unanswered:
  assumes "sendable env cred w params sig body"
    and "wd_curl w (wd_requests w) = CurlInitFailed \<or> wd_curl w (wd_requests w) = CurlFailed rc part"
  shows "\<exists>w'. call_v3 env cred ep timeout path params w = (Inl (Undefined ''null pointer write in HttpPost''), w')"
proof -
  obtain origin where c: "call_v3 env cred ep timeout path params w =
     bindW (HttpPost env (origin @ path) body [''Content-Type: application/json; charset=utf-8''] timeout None)
        (\<lambda>(resp, _). liftW (checked_response (se_json env) resp)) (w \<lparr> wd_ids := Suc (wd_ids w) \<rparr>)"
    using call_v3_sends [OF assms(1)] by metis
  show ?thesis
    using assms(2) by (auto simp: c HttpPost_def Let_def bindW_def set_err_def)
qed

text \<open>Reading a member is not disturbed by another one that was added.\<close>

lemma reads_past:
  "k \<noteq> k' \<Longrightarrow> value_str (JObj (mput k' v m)) k = value_str (JObj m) k"
  "k \<noteq> k' \<Longrightarrow> value_i32 (JObj (mput k' v m)) k = value_i32 (JObj m) k"
  "k \<noteq> k' \<Longrightarrow> value_i64 (JObj (mput k' v m)) k = value_i64 (JObj m) k"
  "k \<noteq> k' \<Longrightarrow> field_opt get_i32 (JObj (mput k' v m)) k = field_opt get_i32 (JObj m) k"
  "k \<noteq> k' \<Longrightarrow> field_opt get_f64 (JObj (mput k' v m)) k = field_opt get_f64 (JObj m) k"
  "k \<noteq> k' \<Longrightarrow> field_strs (JObj (mput k' v m)) k = field_strs (JObj m) k"
  "k \<noteq> k' \<Longrightarrow> field_list rd (JObj (mput k' v m)) k = field_list rd (JObj m) k"
  by (simp_all add: field_opt_def field_strs_def field_list_def
      del: mput.simps)

lemma read_transcribe_past: "read_transcribe (JObj (mput ''sdk_info'' v m)) = read_transcribe (JObj m)"
  by (simp add: read_transcribe_def reads_past del: mput.simps)

lemma read_transcription_past:
  "read_transcription (JObj (mput ''sdk_info'' v m)) = read_transcription (JObj m)"
  by (simp add: read_transcription_def reads_past del: mput.simps)

text \<open>
  The service's view of a body: the identity it authenticates, and the parameters.
\<close>

definition read_signed :: "(json \<Rightarrow> 'a result) \<Rightarrow> json \<Rightarrow> ((string \<times> string \<times> string) \<times> 'a) result" where
  "read_signed rd j =
     (case (jmember is_object j ''auth'', jmember is_object j ''params'') of
        (Some a, Some p) \<Rightarrow>
          bindE (value_str a ''sdkappid'') (\<lambda>app. bindE (value_str a ''usersig'') (\<lambda>sig.
          bindE (value_str a ''request_id'') (\<lambda>rid. bindE (rd p) (\<lambda>q. Inr ((app, sig, rid), q)))))
      | _ \<Rightarrow> Inl (ASRError 4002 ''bad request''))"

lemma read_signed_body:
  assumes "rd (JObj (mput ''sdk_info'' (sdk_info_json (se_build env)) m)) = Inr q"
  shows "read_signed rd (signed_body env cred rid sig m) = Inr ((to_string (cr_sdk_app_id cred), sig, rid), q)"
  by (simp add: read_signed_def signed_body_def assms del: mput.simps)

lemma sdk_info_wf: "json_wf (sdk_info_json b)"
  by (simp add: sdk_info_json_def SdkReportParams_def mwf_def)

lemma signed_body_wf: "json_wf (JObj m) \<Longrightarrow> json_wf (signed_body env cred rid sig m)"
  unfolding signed_body_def
  by (intro json_wf_obj mwf_mput all_values_mput)
    (auto intro!: json_wf_obj simp: sdk_info_wf all_values_def simp del: mput.simps)

lemma sendable_reads:
  assumes "sendable env cred w (JObj m) sig body" and "json_lib_ok (se_json env)" and "json_wf (JObj m)"
    and "rd (JObj (mput ''sdk_info'' (sdk_info_json (se_build env)) m)) = Inr q"
  shows "\<exists>j. jl_parse (se_json env) body = Inr j \<and>
    read_signed rd j = Inr ((to_string (cr_sdk_app_id cred), sig, rid_v3 w), q)"
proof -
  have "jl_dump (se_json env) (signed_body env cred (rid_v3 w) sig m) = Inr body"
    using assms(1) by (auto simp: sendable_def)
  then have "jl_parse (se_json env) body = Inr (signed_body env cred (rid_v3 w) sig m)"
    using assms(2) signed_body_wf [OF assms(3)] by (auto simp: json_lib_ok_def)
  then show ?thesis
    using read_signed_body [of rd, OF assms(4)] by blast
qed


section \<open>What is accepted\<close>

definition transcribe_ok :: "TranscribeRequest \<Rightarrow> bool" where
  "transcribe_ok q \<longleftrightarrow> tq_engine_model_type q \<noteq> [] \<and> tq_voice_format q \<noteq> [] \<and>
     (tq_source_type q = 0 \<longrightarrow> tq_url q \<noteq> []) \<and> (tq_source_type q = 1 \<longrightarrow> tq_data q \<noteq> []) \<and>
     diarization_ok_v3 (tq_speaker_diarization q) (tq_speaker_number q) [] [] \<and>
     pred_option (\<lambda>v. v \<in> {0, 1}) (tq_needvad q) \<and> tq_input_sample_rate q \<in> {0, 8000}"

definition transcription_ok :: "CreateTranscriptionRequest \<Rightarrow> bool" where
  "transcription_ok q \<longleftrightarrow> ct_engine_model_type q \<noteq> [] \<and> ct_channel_num q \<in> {1, 2} \<and>
     ct_res_text_format q \<in> {0..3} \<and> (ct_channel_num q = 1 \<or> ct_speaker_diarization q = 0) \<and>
     (if ct_audio_urls q \<noteq> [] then audio_urls_ok (ct_source_type q) (ct_url q) (ct_data q) (ct_audio_urls q)
      else (ct_source_type q = 0 \<longrightarrow> ct_url q \<noteq> []) \<and> (ct_source_type q = 1 \<longrightarrow> ct_data q \<noteq> [])) \<and>
     diarization_ok_v3 (ct_speaker_diarization q) (ct_speaker_number q) (ct_speaker_roles q)
       (ct_voiceprint_ids q) \<and>
     pred_option (\<lambda>l. l = 0 \<or> l = 1) (ct_vad_level q) \<and> pred_option (dbl_between 0 4) (ct_noise_threshold q)"

lemma checks_if: "(c \<Longrightarrow> checks m P) \<Longrightarrow> (\<not> c \<Longrightarrow> checks n Q) \<Longrightarrow>
    checks (if c then m else n) (if c then P else Q)"
  by simp

lemma checks_ValidateTranscribe: "checks (ValidateTranscribe q) (transcribe_ok q)"
proof -
  have d: "checks (if tq_speaker_diarization q \<noteq> 0 \<or> tq_speaker_number q \<noteq> 0
      then ValidateSpeakerDiarization_v3 (tq_speaker_diarization q) (tq_speaker_number q) [] [] else Inr ())
      (diarization_ok_v3 (tq_speaker_diarization q) (tq_speaker_number q) [] [])"
    using checks_ValidateSpeakerDiarization_v3 [of "tq_speaker_diarization q" "tq_speaker_number q" "[]" "[]"]
    by (auto simp: diarization_ok_v3_def checks_return)
  have v: "checks (case tq_needvad q of None \<Rightarrow> Inr () | Some v \<Rightarrow> ValidateEnumOption_v3 ''needvad'' v [0, 1])
      (pred_option (\<lambda>v. v \<in> {0, 1}) (tq_needvad q))"
    by (auto simp: ValidateEnumOption_v3_same checks_def checks_fail [OF checks_ValidateEnumOption] checks_Inr [OF checks_ValidateEnumOption]
        split: option.split)
  have r: "checks (ValidateEnumOption_v3 ''input_sample_rate'' (tq_input_sample_rate q) [0, 8000])
      (tq_input_sample_rate q \<in> {0, 8000})"
    unfolding ValidateEnumOption_v3_same by (rule checks_iff [OF checks_ValidateEnumOption]) auto
  show ?thesis
    unfolding ValidateTranscribe_def
    by (rule checks_iff, (rule d v r checks_throw_if checks_bindE)+) (auto simp: transcribe_ok_def source_types_v3)
qed

lemma checks_ValidateTranscription: "checks (ValidateTranscription q) (transcription_ok q)"
  unfolding ValidateTranscription_def
  by (rule checks_iff [OF checks_bindE [OF checks_throw_if checks_bindE [OF checks_throw_if
        checks_bindE [OF checks_throw_if checks_bindE [OF checks_throw_if
        checks_bindE [OF checks_if [OF checks_ValidateAudioURLs checks_bindE [OF checks_throw_if checks_throw_if]]
        checks_bindE [OF checks_ValidateSpeakerDiarization_v3 checks_ValidateVadTuning_v3]]]]]]])
    (auto simp: transcription_ok_def source_types_v3)


lemma Recognize_v3_invalid:
  "\<not> transcribe_ok q \<Longrightarrow> \<exists>msg. Recognize_v3 env self q w = (Inl (ASRError 1001 msg), w)"
  using checks_fail [OF checks_ValidateTranscribe [of q]] by (auto simp: Recognize_v3_def kErrInvalidParam_def)

lemma Recognize_v3_valid:
  "transcribe_ok q \<Longrightarrow> Recognize_v3 env self q =
     bindW (call_v3 env (s3_credential self) (s3_endpoint self) (s3_timeout self) ''/v3/transcribe''
              (TranscribeRequestToWire q)) (\<lambda>data. liftW (TranscribeResponseFromJson data))"
  using checks_Inr [OF checks_ValidateTranscribe [of q]] by (simp add: Recognize_v3_def fun_eq_iff)

lemma CreateTask_v3_valid:
  "transcription_ok q \<Longrightarrow> CreateTask_v3 env self q =
     bindW (call_v3 env (f3_credential self) (f3_endpoint self) (f3_timeout self)
              ''/v3/create_transcription'' (CreateTranscriptionRequestToWire q)) (\<lambda>data.
     bindW (liftW (value_str data ''transcription_id'')) (\<lambda>tid.
     liftW (if tid = [] then Inl (ASRError kErrServerError ''empty transcription_id in response'')
            else Inr tid)))"
  using checks_Inr [OF checks_ValidateTranscription [of q]] by (simp add: CreateTask_v3_def fun_eq_iff)

text \<open>What the response checks let through.\<close>

lemma value_i32_absent: "value_i32 (JObj m) k = Inr 0" if "mget m k = None"
  using that by simp

lemma flat_response_object:
  "jl_parse jl body = Inr (JObj m) \<Longrightarrow> value_i32 (JObj m) ''code'' = Inr code \<Longrightarrow>
   code \<noteq> 0 \<or> st \<in> {200..299} \<Longrightarrow> flat_response jl \<lparr> hp_status = st, hp_body = body \<rparr> = Inr (JObj m)"
  by (auto simp: flat_response_def throw_if_def)

lemma checked_response_Inr:
  assumes "checked_response jl \<lparr> hp_status = st, hp_body = body \<rparr> = Inr data"
  shows "jl_parse jl body = Inr data \<and> st \<in> {200..299} \<and> value_i32 data ''code'' = Inr 0"
proof -
  obtain code where "jl_parse jl body = Inr data" and "value_i32 data ''code'' = Inr code"
    and "code \<noteq> 0 \<or> st \<in> {200..299}" and c: "CheckCode data = Inr ()"
    using assms by (auto simp: checked_response_def flat_response_def bindE_Inr_iff throw_if_def split: if_splits)
  moreover have "code = 0"
    using c \<open>value_i32 data ''code'' = Inr code\<close>
    by (auto simp: CheckCode_def bindE_Inr_iff split: if_splits)
  ultimately show ?thesis by simp
qed

section \<open>Properties\<close>

text \<open>
  Claim C31. One-shot recognition over v3: with a valid request whose integers fit their
  fields, a usable ticket and site, and a service that answers 2xx with a result of code 0,
  exactly one POST is made; its body carries the application, the ticket and the request id
  in the auth block and, beside the telemetry, parameters that the service reads back as the
  very request; and the service's result is returned complete.
\<close>

theorem Recognize_v3_exchange:
  assumes "json_lib_ok (se_json env)" and "transcribe_ok req"
    and "transcribe_canonical req" and "transcribe_request_fits req"
    and "transcribe_fits res" and "tr_code res = 0" and "st \<in> {200..299}"
    and "sendable env (s3_credential self) w (TranscribeRequestToWire req) sig body"
    and "wd_curl w (wd_requests w) = CurlDone st reply"
    and "jl_parse (se_json env) reply = Inr (transcribe_json res)"
  shows "\<exists>q w' j. Recognize_v3 env self req w = (Inr res, w') \<and> wd_log w' = wd_log w @ [q] \<and>
     v3_post (s3_credential self) (s3_endpoint self) (s3_timeout self) ''/v3/transcribe'' body q \<and>
     jl_parse (se_json env) (hr_body q) = Inr j \<and>
     read_signed read_transcribe j =
       Inr ((to_string (cr_sdk_app_id (s3_credential self)), sig, rid_v3 w), req)"
proof -
  obtain m where m: "TranscribeRequestToWire req = JObj m" by (simp add: TranscribeRequestToWire_def del: mput.simps)
  obtain q w' where c: "call_v3 env (s3_credential self) (s3_endpoint self) (s3_timeout self) ''/v3/transcribe''
        (TranscribeRequestToWire req) w =
      (checked_response (se_json env) \<lparr> hp_status = st, hp_body = reply \<rparr>, w')"
    and l: "wd_log w' = wd_log w @ [q]"
    and p: "v3_post (s3_credential self) (s3_endpoint self) (s3_timeout self) ''/v3/transcribe'' body q"
    using call_v3_answered [OF assms(8,9)] by blast
  have "value_i32 (transcribe_json res) ''code'' = Inr 0"
    using assms(6) by (simp add: transcribe_json_def)
  then have "checked_response (se_json env) \<lparr> hp_status = st, hp_body = reply \<rparr> = Inr (transcribe_json res)"
    using assms(7,10) flat_response_object [of "se_json env" reply _ 0 st]
    by (simp add: checked_response_def CheckCode_def transcribe_json_def)
  then have "Recognize_v3 env self req w = (Inr res, w')"
    by (simp add: Recognize_v3_valid [OF assms(2)] bindW_def c TranscribeResponseFromJson_json [OF assms(5)])
  moreover have "\<exists>j. jl_parse (se_json env) body = Inr j \<and> read_signed read_transcribe j =
      Inr ((to_string (cr_sdk_app_id (s3_credential self)), sig, rid_v3 w), req)"
    using assms(1,8) transcribe_wf [of req] read_transcribe_wire [OF assms(3,4)] unfolding m
    by (intro sendable_reads) (simp_all only: read_transcribe_past)
  moreover have "hr_body q = body" using p by (auto simp: v3_post_def)
  ultimately show ?thesis using l p by blast
qed


definition sample_body :: "json \<Rightarrow> json" where
  "sample_body j = signed_body (sample_env []) sample_credential (GenerateUuid 0 0) ''sig''
     (case j of JObj m \<Rightarrow> m | _ \<Rightarrow> [])"

definition sample_docs_v3 :: "json \<Rightarrow> json \<Rightarrow> (string \<times> json) list" where
  "sample_docs_v3 params reply = [(''q'', sample_body params), (''r'', reply)]"

lemma signed_body_build: "signed_body (sample_env (d # docs)) = signed_body (sample_env [])"
  by (simp add: fun_eq_iff signed_body_def sample_env_def)

lemma sample_v3:
  "json_lib_ok (se_json (sample_env (sample_docs_v3 params reply)))"
  "jl_parse (se_json (sample_env (sample_docs_v3 params reply))) ''r'' = Inr reply"
  "is_object params \<Longrightarrow>
     sendable (sample_env (sample_docs_v3 params reply)) sample_credential (sample_world a) params ''sig'' ''q''"
proof -
  show "json_lib_ok (se_json (sample_env (sample_docs_v3 params reply)))"
    by (simp add: sample_simps sample_docs_v3_def doc_lib_ok)
  show "jl_parse (se_json (sample_env (sample_docs_v3 params reply))) ''r'' = Inr reply"
    by (simp add: sample_simps sample_docs_v3_def doc_lib_def)
  show "sendable (sample_env (sample_docs_v3 params reply)) sample_credential (sample_world a) params ''sig'' ''q''"
    if "is_object params"
    using that by (cases params)
      (simp_all add: sendable_def sample_simps rid_v3_def sample_world_def signed_body_build
        sample_docs_v3_def doc_lib_def sample_body_def)
qed

definition sample_transcribe :: TranscribeRequest where
  "sample_transcribe = new_TranscribeRequest \<lparr> tq_engine_model_type := ''16k_zh'', tq_data := ''AAAA'',
     tq_data_len := 3, tq_needvad := Some 1 \<rparr>"

definition sample_transcribed :: TranscribeResponse where
  "sample_transcribed = \<lparr> tr_code = 0, tr_message = ''success'', tr_request_id = ''id'', tr_result = ''hi'',
     tr_audio_duration = 900, tr_language = ''zh'', tr_language_b47 = ''zh-CN'', tr_word_size = 1,
     tr_word_list = [\<lparr> vw_word = ''hi'', vw_start_time = 0, vw_end_time = 900 \<rparr>] \<rparr>"

lemma sample_transcribe_ok:
  "transcribe_ok sample_transcribe" "transcribe_canonical sample_transcribe"
  "transcribe_request_fits sample_transcribe" "transcribe_fits sample_transcribed"
  "is_object (TranscribeRequestToWire sample_transcribe)"
  by (simp_all add: transcribe_ok_def transcribe_canonical_def transcribe_request_fits_def transcribe_fits_def
      sample_transcribe_def sample_transcribed_def new_TranscribeRequest_def source_types_v3 in_i32_def in_i64_def
      diarization_ok_v3_def word_fits_v3_def TranscribeRequestToWire_def del: mput.simps)

theorem Recognize_v3_exchange_witness:
  "\<exists>w'. Recognize_v3 (sample_env (sample_docs_v3 (TranscribeRequestToWire sample_transcribe)
       (transcribe_json sample_transcribed))) (new_SentenceRecognizer_v3 sample_credential) sample_transcribe
     (sample_world [CurlDone 200 ''r'']) = (Inr sample_transcribed, w') \<and> length (wd_log w') = 1"
proof -
  let ?env = "sample_env (sample_docs_v3 (TranscribeRequestToWire sample_transcribe)
       (transcribe_json sample_transcribed))" and ?w = "sample_world [CurlDone 200 ''r'']"
    and ?self = "new_SentenceRecognizer_v3 sample_credential"
  have "wd_curl ?w (wd_requests ?w) = CurlDone 200 ''r''" "wd_log ?w = []"
    by (simp_all add: sample_simps sample_world_def)
  moreover have "s3_credential ?self = sample_credential" "tr_code sample_transcribed = 0"
    by (simp_all add: new_SentenceRecognizer_v3_def sample_transcribed_def)
  ultimately show ?thesis
    using Recognize_v3_exchange [of ?env sample_transcribe sample_transcribed 200 ?self ?w "''sig''" "''q''" "''r''"]
      sample_transcribe_ok sample_v3
    by fastforce
qed

text \<open>
  Claim C40. What goes wrong with a valid v3 request that could be sent. If the network fails,
  the behaviour is undefined, because \<^verbatim>\<open>PostFlat\<close> passes a null error pointer that
  \<^verbatim>\<open>HttpPost\<close> writes through. If the service answers with an error code, it is thrown
  as the number of an \<^verbatim>\<open>ASRError\<close> with the service's message and request id, whatever
  the HTTP status. If the code has the wrong type, the JSON library's own exception escapes.
  And a result is returned only for a 2xx answer whose code is zero.
\<close>

theorem Recognize_v3_failures:
  assumes "transcribe_ok req"
    and "sendable env (s3_credential self) w (TranscribeRequestToWire req) sig body"
  shows "case wd_curl w (wd_requests w) of
      CurlDone st reply \<Rightarrow>
        (\<forall>m code msg rid. jl_parse (se_json env) reply = Inr (JObj m) \<and> value_i32 (JObj m) ''code'' = Inr code \<and>
           code \<noteq> 0 \<and> value_str (JObj m) ''message'' = Inr msg \<and> value_str (JObj m) ''request_id'' = Inr rid \<longrightarrow>
           fst (Recognize_v3 env self req w) =
             Inl (ASRError code (msg @ (if rid \<noteq> [] then '' (request_id: '' @ rid @ '')'' else [])))) \<and>
        (\<forall>m e. jl_parse (se_json env) reply = Inr (JObj m) \<and> value_i32 (JObj m) ''code'' = Inl e \<longrightarrow>
           fst (Recognize_v3 env self req w) = Inl e) \<and>
        (\<forall>res. fst (Recognize_v3 env self req w) = Inr res \<longrightarrow> st \<in> {200..299} \<and> tr_code res = 0 \<and>
           (\<exists>j. jl_parse (se_json env) reply = Inr j \<and> TranscribeResponseFromJson j = Inr res))
    | _ \<Rightarrow> fst (Recognize_v3 env self req w) = Inl (Undefined ''null pointer write in HttpPost'')"
proof (cases "wd_curl w (wd_requests w)")
  case (CurlDone st reply)
  let ?r = "checked_response (se_json env) \<lparr> hp_status = st, hp_body = reply \<rparr>"
  obtain w' where c: "call_v3 env (s3_credential self) (s3_endpoint self) (s3_timeout self) ''/v3/transcribe''
        (TranscribeRequestToWire req) w = (?r, w')"
    using call_v3_answered [OF assms(2) CurlDone] by blast
  have r: "fst (Recognize_v3 env self req w) = bindE ?r TranscribeResponseFromJson"
    by (simp add: Recognize_v3_valid [OF assms(1)] bindW_def c split: sum.split)
  have "fst (Recognize_v3 env self req w) =
      Inl (ASRError code (msg @ (if rid \<noteq> [] then '' (request_id: '' @ rid @ '')'' else [])))"
    if "jl_parse (se_json env) reply = Inr (JObj m)" "value_i32 (JObj m) ''code'' = Inr code" "code \<noteq> 0"
      "value_str (JObj m) ''message'' = Inr msg" "value_str (JObj m) ''request_id'' = Inr rid" for m code msg rid
    using that flat_response_object [OF that(1,2), of st]
    unfolding r by (simp add: checked_response_def CheckCode_def ServerError_def)
  moreover have "fst (Recognize_v3 env self req w) = Inl e"
    if "jl_parse (se_json env) reply = Inr (JObj m)" "value_i32 (JObj m) ''code'' = Inl e" for m e
    using that unfolding r by (simp add: checked_response_def flat_response_def)
  moreover have "st \<in> {200..299} \<and> tr_code res = 0 \<and>
      (\<exists>j. jl_parse (se_json env) reply = Inr j \<and> TranscribeResponseFromJson j = Inr res)"
    if ok: "fst (Recognize_v3 env self req w) = Inr res" for res
  proof -
    obtain j where j: "?r = Inr j" and t: "TranscribeResponseFromJson j = Inr res"
      using ok unfolding r bindE_Inr_iff by blast
    have "tr_code res = 0"
      using t checked_response_Inr [OF j] by (auto simp: TranscribeResponseFromJson_def bindE_Inr_iff)
    with t checked_response_Inr [OF j] show ?thesis by blast
  qed
  ultimately show ?thesis using CurlDone by simp
next
  case CurlInitFailed
  then obtain w' where "call_v3 env (s3_credential self) (s3_endpoint self) (s3_timeout self) ''/v3/transcribe''
      (TranscribeRequestToWire req) w = (Inl (Undefined ''null pointer write in HttpPost''), w')"
    using call_v3_unanswered [OF assms(2)] by blast
  then show ?thesis using CurlInitFailed by (simp add: Recognize_v3_valid [OF assms(1)] bindW_def)
next
  case (CurlFailed rc part)
  then obtain w' where "call_v3 env (s3_credential self) (s3_endpoint self) (s3_timeout self) ''/v3/transcribe''
      (TranscribeRequestToWire req) w = (Inl (Undefined ''null pointer write in HttpPost''), w')"
    using call_v3_unanswered [OF assms(2)] by blast
  then show ?thesis using CurlFailed by (simp add: Recognize_v3_valid [OF assms(1)] bindW_def)
qed

theorem Recognize_v3_failures_witness:
  "fst (Recognize_v3 (sample_env (sample_docs_v3 (TranscribeRequestToWire sample_transcribe) JNull))
       (new_SentenceRecognizer_v3 sample_credential) sample_transcribe (sample_world [CurlFailed 28 []])) =
     Inl (Undefined ''null pointer write in HttpPost'')"
proof -
  let ?env = "sample_env (sample_docs_v3 (TranscribeRequestToWire sample_transcribe) JNull)"
    and ?w = "sample_world [CurlFailed 28 []]" and ?self = "new_SentenceRecognizer_v3 sample_credential"
  have "s3_credential ?self = sample_credential" by (simp add: new_SentenceRecognizer_v3_def)
  then have "sendable ?env (s3_credential ?self) ?w (TranscribeRequestToWire sample_transcribe) ''sig'' ''q''"
    using sample_v3(3) sample_transcribe_ok(5) by simp
  then show ?thesis
    using Recognize_v3_failures [of sample_transcribe ?env ?self ?w "''sig''" "''q''"] sample_transcribe_ok(1)
    by (simp add: sample_simps)
qed

text \<open>
  \<^verbatim>\<open>CreateTranscriptionRequest::Validate\<close> accepts exactly the requests of the
  protocol: one or two channels, speakers only with one channel, a source for the audio, well
  formed diarization and tuning options. Every other request is an invalid-parameter error.
  In particular a list of pieces is rejected as long as the source type has its default value.
\<close>

lemma ValidateTranscription_decides:
  "(if transcription_ok req then ValidateTranscription req = Inr ()
    else \<exists>msg. ValidateTranscription req = Inl (ASRError 1001 msg)) \<and>
   \<not> transcription_ok (new_CreateTranscriptionRequest \<lparr> ct_engine_model_type := engine, ct_audio_urls := it # items \<rparr>)"
proof -
  have "if transcription_ok req then ValidateTranscription req = Inr ()
      else \<exists>msg. ValidateTranscription req = Inl (ASRError 1001 msg)"
    using checks_ValidateTranscription [of req] by (simp only: checks_def kErrInvalidParam_def)
  then show ?thesis
    by (simp add: transcription_ok_def audio_urls_ok_def new_CreateTranscriptionRequest_def source_types_v3)
qed

text \<open>
  Claim C32. Creating a v3 task: with a valid request that can be sent and a service that answers
  2xx with a task id, exactly one POST is made and the id is returned. The service reads the
  parameters back as the request with every option, voiceprint and role, except for one
  loss: the URL of every piece of a distributed recording is missing, since it is written
  under the key \<^verbatim>\<open>req.url\<close>.
\<close>

theorem CreateTask_v3_exchange:
  assumes "json_lib_ok (se_json env)" and "transcription_ok req"
    and "transcription_canonical req" and "transcription_request_fits req"
    and "sendable env (f3_credential self) w (CreateTranscriptionRequestToWire req) sig body"
    and "wd_curl w (wd_requests w) = CurlDone st reply" and "st \<in> {200..299}"
    and "jl_parse (se_json env) reply = Inr (JObj [(''transcription_id'', JStr tid)])" and "tid \<noteq> []"
  shows "\<exists>q w' j. CreateTask_v3 env self req w = (Inr tid, w') \<and> wd_log w' = wd_log w @ [q] \<and>
     v3_post (f3_credential self) (f3_endpoint self) (f3_timeout self) ''/v3/create_transcription'' body q \<and>
     jl_parse (se_json env) (hr_body q) = Inr j \<and>
     read_signed read_transcription j =
       Inr ((to_string (cr_sdk_app_id (f3_credential self)), sig, rid_v3 w),
            req \<lparr> ct_audio_urls := map (\<lambda>it. it \<lparr> au_url := [] \<rparr>) (ct_audio_urls req) \<rparr>)"
proof -
  have lost: "lost_url = (\<lambda>it. it \<lparr> au_url := [] \<rparr>)" by (simp add: fun_eq_iff lost_url_def)
  obtain m where m: "CreateTranscriptionRequestToWire req = JObj m"
    by (simp add: CreateTranscriptionRequestToWire_def Let_def del: mput.simps)
  obtain q w' where c: "call_v3 env (f3_credential self) (f3_endpoint self) (f3_timeout self)
        ''/v3/create_transcription'' (CreateTranscriptionRequestToWire req) w =
      (checked_response (se_json env) \<lparr> hp_status = st, hp_body = reply \<rparr>, w')"
    and l: "wd_log w' = wd_log w @ [q]"
    and p: "v3_post (f3_credential self) (f3_endpoint self) (f3_timeout self) ''/v3/create_transcription'' body q"
    using call_v3_answered [OF assms(5,6)] by blast
  have "checked_response (se_json env) \<lparr> hp_status = st, hp_body = reply \<rparr> =
      Inr (JObj [(''transcription_id'', JStr tid)])"
    using assms(7) flat_response_object [OF assms(8), of 0 st]
    by (simp add: checked_response_def CheckCode_def)
  then have "CreateTask_v3 env self req w = (Inr tid, w')"
    using assms(9) by (simp add: CreateTask_v3_valid [OF assms(2)] bindW_def c)
  moreover have "\<exists>j. jl_parse (se_json env) body = Inr j \<and> read_signed read_transcription j =
      Inr ((to_string (cr_sdk_app_id (f3_credential self)), sig, rid_v3 w),
            req \<lparr> ct_audio_urls := map (\<lambda>it. it \<lparr> au_url := [] \<rparr>) (ct_audio_urls req) \<rparr>)"
    using assms(1,5) transcription_wf [OF assms(4)] read_transcription_wire [OF assms(3,4)] unfolding m lost
    by (intro sendable_reads) (simp_all only: read_transcription_past)
  moreover have "hr_body q = body" using p by (auto simp: v3_post_def)
  ultimately show ?thesis using l p by blast
qed

definition sample_transcription :: CreateTranscriptionRequest where
  "sample_transcription = new_CreateTranscriptionRequest \<lparr> ct_engine_model_type := ''16k_zh'',
     ct_source_type := 0,
     ct_audio_urls := [\<lparr> au_index = 0, au_url = ''http://a/0.wav'', au_label = ''x'' \<rparr>] \<rparr>"

lemma sample_transcription_ok:
  "transcription_ok sample_transcription" "transcription_canonical sample_transcription"
  "transcription_request_fits sample_transcription"
  "is_object (CreateTranscriptionRequestToWire sample_transcription)"
  by (simp_all add: transcription_ok_def transcription_canonical_def transcription_request_fits_def
      sample_transcription_def new_CreateTranscriptionRequest_def source_types_v3 in_i32_def in_i64_def
      diarization_ok_v3_def audio_urls_ok_def http_prefix_iff CreateTranscriptionRequestToWire_def Let_def
      del: mput.simps)

theorem CreateTask_v3_exchange_witness:
  "\<exists>w'. CreateTask_v3 (sample_env (sample_docs_v3 (CreateTranscriptionRequestToWire sample_transcription)
       (JObj [(''transcription_id'', JStr ''t1'')]))) (new_FileRecognizer_v3 sample_credential) sample_transcription
     (sample_world [CurlDone 200 ''r'']) = (Inr ''t1'', w') \<and> length (wd_log w') = 1"
proof -
  let ?env = "sample_env (sample_docs_v3 (CreateTranscriptionRequestToWire sample_transcription)
       (JObj [(''transcription_id'', JStr ''t1'')]))" and ?w = "sample_world [CurlDone 200 ''r'']"
    and ?self = "new_FileRecognizer_v3 sample_credential"
  have "wd_curl ?w (wd_requests ?w) = CurlDone 200 ''r''" "wd_log ?w = []"
    by (simp_all add: sample_simps sample_world_def)
  moreover have "f3_credential ?self = sample_credential"
    by (simp add: new_FileRecognizer_v3_def)
  ultimately show ?thesis
    using CreateTask_v3_exchange [of ?env sample_transcription ?self ?w "''sig''" "''q''" 200 "''r''" "''t1''"]
      sample_transcription_ok sample_v3
    by fastforce
qed

section \<open>The query as a poller\<close>

lemma call_v3_one: "requests_at_most 1 (call_v3 env cred ep timeout path params)"
  unfolding requests_at_most_def
  by (auto simp: call_v3_def Let_def PostFlat_def bindW_def time_kept_def HttpPost_def
      split: prod.splits sum.splits curl_answer.splits)

lemma DescribeTask_one: "requests_at_most 1 (DescribeTask env self tid)"
  unfolding DescribeTask_def
  by (intro requests_at_most_pure requests_at_most_tail [OF call_v3_one] requests_at_most_liftW)

interpretation transcription_poller:
  poller "DescribeTask env self tid" tv_status task_failed_v3 "task_late_v3 tid timeout"
  for env self tid timeout
  by unfold_locales (rule DescribeTask_one)

text \<open>The v3 waiting loop ends as the v2 one does.\<close>

lemma WaitForResult_v3_ends:
  assumes "0 < interval" and "0 \<le> timeout" and "mono (wd_steady w)"
  shows "\<exists>r w'. WaitForResultWithInterval_v3 env self tid interval timeout w = Some (r, w') \<and>
    wd_requests w' \<le> wd_requests w + nat (timeout div interval) + 2 \<and>
    (case r of
       Inr s \<Rightarrow> tv_status s = 2 \<and> (\<exists>v. DescribeTask env self tid v = (Inr s, w'))
     | Inl e \<Rightarrow> (\<exists>v. DescribeTask env self tid v = (Inl e, w')) \<or>
         (\<exists>v s w1. DescribeTask env self tid v = (Inr s, w1) \<and>
            (tv_status s = 3 \<and> e = task_failed_v3 s \<or>
             tv_status s \<noteq> 2 \<and> tv_status s \<noteq> 3 \<and> e = task_late_v3 tid timeout s)))"
  unfolding WaitForResultWithInterval_v3_def
  by (rule transcription_poller.wait_ends [OF assms])

end
