(* ===== verification/Session.thy ===== *)
theory Session
  imports Responses WsClient
begin

text \<open>
  What a realtime recognizer of either version does with one frame: the lifecycle states of
  \<^verbatim>\<open>RecognizerSharedState\<close>, the callbacks, and the body of \<^verbatim>\<open>ReadLoopInner\<close> as a function
  from the result of a read to the action that follows. The threads are in \<open>Lifecycle\<close>.
\<close>

section \<open>Lifecycle states\<close>

datatype rstate = Idle | Starting | Running | Stopping | Stopped

fun state_code :: "rstate \<Rightarrow> int" where
  "state_code Idle = 0"
| "state_code Starting = 1"
| "state_code Running = 2"
| "state_code Stopping = 3"
| "state_code Stopped = 4"

lemma state_code_inj: "state_code a = state_code b \<longleftrightarrow> a = b"
  by (cases a; cases b) simp_all

instantiation rstate :: linorder
begin

definition less_eq_rstate :: "rstate \<Rightarrow> rstate \<Rightarrow> bool" where
  "less_eq_rstate a b \<longleftrightarrow> state_code a \<le> state_code b"

definition less_rstate :: "rstate \<Rightarrow> rstate \<Rightarrow> bool" where
  "less_rstate a b \<longleftrightarrow> state_code a < state_code b"

instance
  by standard (auto simp: less_eq_rstate_def less_rstate_def state_code_inj)

end

lemmas rstate_order = less_eq_rstate_def less_rstate_def

lemma stopping_le [simp]: "Stopping \<le> st \<longleftrightarrow> st = Stopping \<or> st = Stopped"
  by (cases st) (simp_all add: rstate_order)

section \<open>Callbacks\<close>

datatype event =
    OnRecognitionStart SpeechRecognitionResponse
  | OnSentenceBegin SpeechRecognitionResponse
  | OnRecognitionResultChange SpeechRecognitionResponse
  | OnSentenceEnd SpeechRecognitionResponse
  | OnRecognitionComplete SpeechRecognitionResponse
  | OnFail "SpeechRecognitionResponse option" exn

definition start_response :: "string \<Rightarrow> SpeakerContinue option \<Rightarrow> SpeechRecognitionResponse" where
  "start_response voice_id speaker_continue =
     \<lparr> sr_code = 0, sr_message = ''success'', sr_voice_id = voice_id, sr_message_id = [],
       sr_final_flag = 0, sr_result = RecognitionResult_default, sr_has_result = False,
       sr_speaker_continue = speaker_continue \<rparr>"

text \<open>The callback of a response, if it has one.\<close>

definition DispatchEvent :: "SpeechRecognitionResponse \<Rightarrow> event option" where
  "DispatchEvent resp =
     (if sr_final_flag resp = 1 \<and> rr_slice_type (sr_result resp) \<noteq> 2 then None
      else if rr_slice_type (sr_result resp) = 0 then Some (OnSentenceBegin resp)
      else if rr_slice_type (sr_result resp) = 1 then Some (OnRecognitionResultChange resp)
      else if rr_slice_type (sr_result resp) = 2 then Some (OnSentenceEnd resp)
      else None)"

section \<open>One pass of the read loop\<close>

datatype action =
    Again
  | Leave
  | LeaveFailed exn              \<comment> \<open>finish, report, return\<close>
  | Report exn                   \<comment> \<open>report, go on\<close>
  | Escape exn                   \<comment> \<open>an exception that is not an ASRError\<close>
  | FailTerminal SpeechRecognitionResponse
  | CompleteWith SpeechRecognitionResponse
  | Deliver SpeechRecognitionResponse

text \<open>
  \<open>st\<close> is the state at the one place where a pass loads it; \<open>rd\<close> what \<^verbatim>\<open>conn->Read\<close> gave.
\<close>

definition read_action ::
  "json_lib \<Rightarrow> rstate \<Rightarrow> int \<times> WsFrame option \<times> string option \<Rightarrow> action" where
  "read_action jl st rd =
     (case rd of (rc, frame, err) \<Rightarrow>
        if rc = 0 then (if st = Stopped then Leave else Again)
        else if rc < 0 then
          (if st \<ge> Stopping then Leave
           else LeaveFailed (ASRError kErrReadFailed (''read message failed'' @
             (case err of Some e \<Rightarrow> if e = [] then [] else '': '' @ e | None \<Rightarrow> []))))
        else (case frame of
            None \<Rightarrow> Again
          | Some f \<Rightarrow>
              if wf_opcode f = 0x2
              then Report (ASRError kErrReadFailed ''unmarshal response failed: unexpected binary frame'')
              else if wf_opcode f = 0x8
              then (if st \<ge> Stopping then Leave
                    else LeaveFailed (ASRError kErrReadFailed ''connection closed by server''))
              else if wf_opcode f \<noteq> 0x1 then Again
              else (case ParseSpeechResponse jl (string_of (wf_payload f)) of
                  Inl (ASRError code msg) \<Rightarrow> Report (ASRError code msg)
                | Inl e \<Rightarrow> Escape e
                | Inr resp \<Rightarrow>
                    if sr_code resp \<noteq> 0 then FailTerminal resp
                    else if sr_final_flag resp = 1 then CompleteWith resp
                    else if \<not> sr_has_result resp then Again
                    else Deliver resp)))"

text \<open>
  The handshake result that the v2 recognizer keeps from the response it has just read; the
  assignment stands before the code of the response is looked at.
\<close>

definition note_continue :: "SpeechRecognitionResponse \<Rightarrow> SpeakerContinue option \<Rightarrow> SpeakerContinue option" where
  "note_continue resp old = (case sr_speaker_continue resp of None \<Rightarrow> old | Some sc \<Rightarrow> Some sc)"

section \<open>Timeouts\<close>

text \<open>The clamping that both recognizers apply to their write and stop timeouts.\<close>

definition clamp_timeout :: "int \<Rightarrow> int \<Rightarrow> int \<Rightarrow> int \<Rightarrow> int" where
  "clamp_timeout def_ms lo hi t =
     (if t \<le> 0 then def_ms else if t < lo then lo else if t > hi then hi else t)"

section \<open>Lemmas\<close>

lemma clamp_timeout_bounds:
  "lo \<le> def_ms \<Longrightarrow> def_ms \<le> hi \<Longrightarrow> lo \<le> clamp_timeout def_ms lo hi t \<and> clamp_timeout def_ms lo hi t \<le> hi"
  "0 < lo \<Longrightarrow> lo \<le> t \<Longrightarrow> t \<le> hi \<Longrightarrow> clamp_timeout def_ms lo hi t = t"
  by (auto simp: clamp_timeout_def)

text \<open>The action of a response that the service sent, whatever the state.\<close>

lemma read_action_response:
  assumes "ParseSpeechResponse jl (string_of payload) = Inr resp"
  shows "read_action jl st (1, Some \<lparr> wf_opcode = 0x1, wf_payload = payload, wf_fin = True \<rparr>, err) =
    (if sr_code resp \<noteq> 0 then FailTerminal resp
     else if sr_final_flag resp = 1 then CompleteWith resp
     else if sr_has_result resp then Deliver resp else Again)"
  using assms by (simp add: read_action_def)

lemma read_action_stopping:
  "st \<ge> Stopping \<Longrightarrow> rc < 0 \<Longrightarrow> read_action jl st (rc, frame, err) = Leave"
  "read_action jl Stopped (0, frame, err) = Leave"
  by (simp_all add: read_action_def)

end
