(* ===== verification/SpeechRecognizer.thy ===== *)
theory SpeechRecognizer
  imports Session SignatureParams Params HttpClient
begin

text \<open>
  The v2 realtime recognizer (\<^verbatim>\<open>include/trtc_asr/speech_recognizer.h\<close>,
  \<^verbatim>\<open>src/speech_recognizer.cc\<close>): its options with their setters and validation, and
  \<^verbatim>\<open>Connect\<close>, which signs the session, builds the URL and dials. The lifecycle and the
  threads are in \<open>Lifecycle\<close>.
\<close>

record SpeechRecognizer =
  rc_credential :: Credential
  rc_endpoint :: string
  rc_engine_model_type :: string
  rc_voice_format :: int
  rc_need_vad :: int
  rc_convert_num_mode :: int
  rc_hotword_id :: string
  rc_hotword_list :: string
  rc_customization_id :: string
  rc_replace_text_id :: string
  rc_filter_dirty :: int
  rc_filter_modal :: int
  rc_filter_punc :: int
  rc_filter_empty_result :: "int option"
  rc_word_info :: int
  rc_vad_silence_time :: int
  rc_vad_level :: "int option"
  rc_noise_threshold :: "dbl option"
  rc_max_speak_time :: int
  rc_input_sample_rate :: int
  rc_speaker_diarization :: int
  rc_enable_speaker_context :: int
  rc_speaker_context_id :: string
  rc_speaker_continue :: "SpeakerContinue option"
  rc_speaker_number :: int
  rc_speaker_roles :: "SpeakerRole list"
  rc_voiceprint_ids :: "string list"
  rc_voice_id :: string
  rc_language :: string
  rc_write_timeout :: int
  rc_stop_timeout :: int

definition new_SpeechRecognizer :: "Credential \<Rightarrow> string \<Rightarrow> SpeechRecognizer" where
  "new_SpeechRecognizer credential engine_model_type =
     \<lparr> rc_credential = credential, rc_endpoint = [],
       rc_engine_model_type = engine_model_type, rc_voice_format = 1, rc_need_vad = 1,
       rc_convert_num_mode = 1, rc_hotword_id = [], rc_hotword_list = [], rc_customization_id = [],
       rc_replace_text_id = [], rc_filter_dirty = 0, rc_filter_modal = 0, rc_filter_punc = 0,
       rc_filter_empty_result = None, rc_word_info = 0, rc_vad_silence_time = 0,
       rc_vad_level = None, rc_noise_threshold = None, rc_max_speak_time = 0,
       rc_input_sample_rate = 0, rc_speaker_diarization = 0, rc_enable_speaker_context = 0,
       rc_speaker_context_id = [], rc_speaker_continue = None, rc_speaker_number = 0,
       rc_speaker_roles = [], rc_voiceprint_ids = [], rc_voice_id = [], rc_language = [],
       rc_write_timeout = 5000, rc_stop_timeout = 10000 \<rparr>"

section \<open>Setters\<close>

definition SetEndpoint :: "string \<Rightarrow> SpeechRecognizer \<Rightarrow> SpeechRecognizer" where
  "SetEndpoint v self = self \<lparr> rc_endpoint := v \<rparr>"

definition SetVoiceFormat :: "int \<Rightarrow> SpeechRecognizer \<Rightarrow> SpeechRecognizer" where
  "SetVoiceFormat v self = self \<lparr> rc_voice_format := v \<rparr>"

definition SetNeedVad :: "int \<Rightarrow> SpeechRecognizer \<Rightarrow> SpeechRecognizer" where
  "SetNeedVad v self = self \<lparr> rc_need_vad := v \<rparr>"

definition SetConvertNumMode :: "int \<Rightarrow> SpeechRecognizer \<Rightarrow> SpeechRecognizer" where
  "SetConvertNumMode v self = self \<lparr> rc_convert_num_mode := v \<rparr>"

definition SetHotwordId :: "string \<Rightarrow> SpeechRecognizer \<Rightarrow> SpeechRecognizer" where
  "SetHotwordId v self = self \<lparr> rc_hotword_id := v \<rparr>"

definition SetHotwordList :: "string \<Rightarrow> SpeechRecognizer \<Rightarrow> SpeechRecognizer" where
  "SetHotwordList v self = self \<lparr> rc_hotword_list := v \<rparr>"

definition SetCustomizationId :: "string \<Rightarrow> SpeechRecognizer \<Rightarrow> SpeechRecognizer" where
  "SetCustomizationId v self = self \<lparr> rc_customization_id := v \<rparr>"

definition SetReplaceTextId :: "string \<Rightarrow> SpeechRecognizer \<Rightarrow> SpeechRecognizer" where
  "SetReplaceTextId v self = self \<lparr> rc_replace_text_id := v \<rparr>"

definition SetFilterDirty :: "int \<Rightarrow> SpeechRecognizer \<Rightarrow> SpeechRecognizer" where
  "SetFilterDirty v self = self \<lparr> rc_filter_dirty := v \<rparr>"

definition SetFilterModal :: "int \<Rightarrow> SpeechRecognizer \<Rightarrow> SpeechRecognizer" where
  "SetFilterModal v self = self \<lparr> rc_filter_modal := v \<rparr>"

definition SetFilterPunc :: "int \<Rightarrow> SpeechRecognizer \<Rightarrow> SpeechRecognizer" where
  "SetFilterPunc v self = self \<lparr> rc_filter_punc := v \<rparr>"

definition SetFilterEmptyResult :: "int \<Rightarrow> SpeechRecognizer \<Rightarrow> SpeechRecognizer" where
  "SetFilterEmptyResult v self = self \<lparr> rc_filter_empty_result := Some v \<rparr>"

definition SetWordInfo :: "int \<Rightarrow> SpeechRecognizer \<Rightarrow> SpeechRecognizer" where
  "SetWordInfo v self = self \<lparr> rc_word_info := v \<rparr>"

definition SetVadSilenceTime :: "int \<Rightarrow> SpeechRecognizer \<Rightarrow> SpeechRecognizer" where
  "SetVadSilenceTime v self = self \<lparr> rc_vad_silence_time := v \<rparr>"

definition SetVadLevel :: "int \<Rightarrow> SpeechRecognizer \<Rightarrow> SpeechRecognizer" where
  "SetVadLevel v self = self \<lparr> rc_vad_level := Some v \<rparr>"

definition SetNoiseThreshold :: "dbl \<Rightarrow> SpeechRecognizer \<Rightarrow> SpeechRecognizer" where
  "SetNoiseThreshold v self = self \<lparr> rc_noise_threshold := Some v \<rparr>"

definition SetMaxSpeakTime :: "int \<Rightarrow> SpeechRecognizer \<Rightarrow> SpeechRecognizer" where
  "SetMaxSpeakTime v self = self \<lparr> rc_max_speak_time := v \<rparr>"

definition SetInputSampleRate :: "int \<Rightarrow> SpeechRecognizer \<Rightarrow> SpeechRecognizer" where
  "SetInputSampleRate v self = self \<lparr> rc_input_sample_rate := v \<rparr>"

definition SetSpeakerDiarization :: "int \<Rightarrow> SpeechRecognizer \<Rightarrow> SpeechRecognizer" where
  "SetSpeakerDiarization v self = self \<lparr> rc_speaker_diarization := v \<rparr>"

definition SetEnableSpeakerContext :: "int \<Rightarrow> SpeechRecognizer \<Rightarrow> SpeechRecognizer" where
  "SetEnableSpeakerContext v self = self \<lparr> rc_enable_speaker_context := v \<rparr>"

definition SetSpeakerNumber :: "int \<Rightarrow> SpeechRecognizer \<Rightarrow> SpeechRecognizer" where
  "SetSpeakerNumber v self = self \<lparr> rc_speaker_number := v \<rparr>"

definition SetSpeakerRoles :: "SpeakerRole list \<Rightarrow> SpeechRecognizer \<Rightarrow> SpeechRecognizer" where
  "SetSpeakerRoles v self = self \<lparr> rc_speaker_roles := v \<rparr>"

definition SetVoiceprintIds :: "string list \<Rightarrow> SpeechRecognizer \<Rightarrow> SpeechRecognizer" where
  "SetVoiceprintIds v self = self \<lparr> rc_voiceprint_ids := v \<rparr>"

definition SetVoiceId :: "string \<Rightarrow> SpeechRecognizer \<Rightarrow> SpeechRecognizer" where
  "SetVoiceId v self = self \<lparr> rc_voice_id := v \<rparr>"

definition SetLanguage :: "string \<Rightarrow> SpeechRecognizer \<Rightarrow> SpeechRecognizer" where
  "SetLanguage v self = self \<lparr> rc_language := v \<rparr>"

definition SetSpeakerContextId :: "string \<Rightarrow> SpeechRecognizer \<Rightarrow> SpeechRecognizer" where
  "SetSpeakerContextId v self = self \<lparr> rc_speaker_context_id := trim v \<rparr>"

definition SetWriteTimeout :: "int \<Rightarrow> SpeechRecognizer \<Rightarrow> SpeechRecognizer" where
  "SetWriteTimeout t self = self \<lparr> rc_write_timeout := clamp_timeout 5000 50 30000 t \<rparr>"

definition SetStopTimeout :: "int \<Rightarrow> SpeechRecognizer \<Rightarrow> SpeechRecognizer" where
  "SetStopTimeout t self = self \<lparr> rc_stop_timeout := clamp_timeout 10000 1000 60000 t \<rparr>"

definition GetSpeakerContinue :: "SpeechRecognizer \<Rightarrow> SpeakerContinue option" where
  "GetSpeakerContinue self = rc_speaker_continue self"

section \<open>Validation\<close>

definition ValidateOptions :: "SpeechRecognizer \<Rightarrow> unit result" where
  "ValidateOptions self =
     bindE (ValidateSpeakerDiarization (rc_speaker_diarization self) (rc_speaker_number self)
              (rc_speaker_roles self) (rc_voiceprint_ids self)) (\<lambda>_.
     bindE (throw_if (rc_enable_speaker_context self \<noteq> 0 \<and> rc_enable_speaker_context self \<noteq> 1 \<and>
                      rc_enable_speaker_context self \<noteq> 2)
       (invalid_param (''EnableSpeakerContext must be 0 (off), 1 (sync) or 2 (async), got '' @
          to_string (rc_enable_speaker_context self)))) (\<lambda>_.
     bindE (throw_if (rc_enable_speaker_context self \<noteq> 0 \<and> rc_speaker_diarization self = 0)
       (invalid_param ''EnableSpeakerContext requires SetSpeakerDiarization(1) or (3)'')) (\<lambda>_.
     bindE (ValidateVadTuning (rc_vad_level self) (rc_noise_threshold self)) (\<lambda>_.
     bindE (case rc_filter_empty_result self of
              None \<Rightarrow> Inr () | Some v \<Rightarrow> ValidateEnumOption ''FilterEmptyResult'' v [0, 1]) (\<lambda>_.
     ValidateEnumOption ''InputSampleRate'' (rc_input_sample_rate self) [0, 8000])))))"

section \<open>Connect\<close>

text \<open>What a connection attempt draws from its surroundings, in the order of the calls.\<close>

record dial =
  dl_uuid :: "u64 \<times> u64"
  dl_sig_time :: int          \<comment> \<open>the clock for the UserSig\<close>
  dl_time :: int              \<comment> \<open>the clock for the parameters\<close>
  dl_random :: u32            \<comment> \<open>the generator's value for the nonce\<close>
  dl_os :: os_lib
  dl_sys :: "sys list"

definition kHandshakeTimeoutMs :: int where "kHandshakeTimeoutMs = 10000"
definition kReadPollMs :: int where "kReadPollMs = 100"

definition with_voice_id :: "dial \<Rightarrow> SpeechRecognizer \<Rightarrow> SpeechRecognizer" where
  "with_voice_id d self =
     (if rc_voice_id self = []
      then self \<lparr> rc_voice_id := GenerateUuid (fst (dl_uuid d)) (snd (dl_uuid d)) \<rparr> else self)"

definition session_params :: "dial \<Rightarrow> SpeechRecognizer \<Rightarrow> SignatureParams" where
  "session_params d self =
     (let c = rc_credential self;
          p = new_SignatureParams (dl_time d) (dl_random d) (cr_app_id c) (rc_engine_model_type self)
                (rc_voice_id self);
          p = p \<lparr> sp_sdk_app_id := cr_sdk_app_id c,
                  sp_voice_format := rc_voice_format self,
                  sp_need_vad := rc_need_vad self,
                  sp_convert_num_mode := rc_convert_num_mode self,
                  sp_hotword_id := rc_hotword_id self,
                  sp_hotword_list := rc_hotword_list self,
                  sp_customization_id := rc_customization_id self,
                  sp_replace_text_id := rc_replace_text_id self,
                  sp_filter_dirty := rc_filter_dirty self,
                  sp_filter_modal := rc_filter_modal self,
                  sp_filter_punc := rc_filter_punc self,
                  sp_filter_empty_result := rc_filter_empty_result self,
                  sp_word_info := rc_word_info self,
                  sp_vad_silence_time := rc_vad_silence_time self,
                  sp_vad_level := rc_vad_level self,
                  sp_noise_threshold := rc_noise_threshold self,
                  sp_max_speak_time := rc_max_speak_time self,
                  sp_input_sample_rate := rc_input_sample_rate self,
                  sp_speaker_diarization := rc_speaker_diarization self \<rparr>;
          p = (if rc_enable_speaker_context self \<noteq> 0
               then (let p = p \<lparr> sp_enable_speaker_context := rc_enable_speaker_context self \<rparr>
                     in if rc_speaker_context_id self \<noteq> []
                        then p \<lparr> sp_speaker_context_id := rc_speaker_context_id self \<rparr> else p)
               else p)
      in p \<lparr> sp_speaker_number := rc_speaker_number self,
             sp_speaker_roles := rc_speaker_roles self,
             sp_voiceprint_ids := rc_voiceprint_ids self,
             sp_language := rc_language self \<rparr>)"

definition session_url :: "sdk_env \<Rightarrow> dial \<Rightarrow> SpeechRecognizer \<Rightarrow> string result" where
  "session_url env d self =
     (let c = rc_credential self
      in bindE (request_sig env c (dl_sig_time d) (rc_voice_id self)) (\<lambda>user_sig.
         bindE (BuildQueryStringWithSignature (se_build env) (se_json env) (session_params d self) user_sig)
           (\<lambda>query.
         bindE (ResolveWSEndpoint (rc_endpoint self) (cr_site c)) (\<lambda>base.
         Inr (base @ ''/asr/v2/'' @ to_string (cr_app_id c) @ ''?'' @ query)))))"

text \<open>
  \<open>None\<close> when a system call never returns; otherwise the outcome with the connection, and
  the recognizer, whose voice id is set even when the attempt fails.
\<close>

definition Connect_v2 ::
  "sdk_env \<Rightarrow> dial \<Rightarrow> SpeechRecognizer \<Rightarrow> (ws result \<times> SpeechRecognizer) option" where
  "Connect_v2 env d self0 =
     (let self = with_voice_id d self0
      in case session_url env d self of
           Inl e \<Rightarrow> Some (Inl e, self)
         | Inr ws_url \<Rightarrow>
             map_option (\<lambda>(r, conn).
               (case r of
                  Inl err \<Rightarrow> Inl (ASRError kErrConnectFailed (''websocket dial failed: '' @ err))
                | Inr _ \<Rightarrow> Inr (SetWriteTimeoutMs (rc_write_timeout self) conn), self))
               (Connect (dl_os d) ws_url kHandshakeTimeoutMs (dl_sys d)))"

text \<open>What \<^verbatim>\<open>Start\<close> does between the state changes.\<close>

definition open_session ::
  "sdk_env \<Rightarrow> dial \<Rightarrow> SpeechRecognizer \<Rightarrow> (ws result \<times> SpeechRecognizer) option" where
  "open_session env d self =
     (case ValidateOptions self of
        Inl e \<Rightarrow> Some (Inl e, self)
      | Inr _ \<Rightarrow> Connect_v2 env d self)"

text \<open>The argument check of \<^verbatim>\<open>Write\<close>.\<close>

definition check_audio :: "bool \<Rightarrow> nat \<Rightarrow> unit result" where
  "check_audio is_null len =
     throw_if (is_null \<and> len > 0) (invalid_param ''audio data pointer is null'')"

end
