(* ===== verification/RecognizerProps.thy ===== *)
theory RecognizerProps
  imports SpeechRecognizer Wire
begin

text \<open>
  Properties of the v2 recognizer up to the connection: the options it accepts, and what the
  service reads from the URL that is dialled.
\<close>

section \<open>Options\<close>

definition options_ok :: "SpeechRecognizer \<Rightarrow> bool" where
  "options_ok r \<longleftrightarrow>
     diarization_ok (rc_speaker_diarization r) (rc_speaker_number r) (rc_speaker_roles r)
       (rc_voiceprint_ids r) \<and>
     rc_enable_speaker_context r \<in> {0, 1, 2} \<and>
     (rc_enable_speaker_context r = 0 \<or> rc_speaker_diarization r \<noteq> 0) \<and>
     vad_ok (rc_vad_level r) (rc_noise_threshold r) \<and>
     pred_option (\<lambda>v. v \<in> {0, 1}) (rc_filter_empty_result r) \<and> rc_input_sample_rate r \<in> {0, 8000}"

lemma checks_opt_enum:
  "checks (case ov of None \<Rightarrow> Inr () | Some v \<Rightarrow> ValidateEnumOption name v allowed)
     (pred_option (\<lambda>v. v \<in> set allowed) ov)"
  using checks_ValidateEnumOption [of name "the ov" allowed] by (cases ov) (simp_all add: checks_return)

lemma checks_ValidateOptions: "checks (ValidateOptions r) (options_ok r)"
  unfolding ValidateOptions_def
  by (rule checks_iff, (rule checks_ValidateSpeakerDiarization checks_ValidateVadTuning checks_opt_enum
        checks_ValidateEnumOption checks_throw_if checks_bindE)+) (auto simp: options_ok_def)

section \<open>The parameters of a session\<close>

lemma session_params_sel:
  "sp_app_id (session_params d r) = cr_app_id (rc_credential r)"
  "sp_engine_model_type (session_params d r) = rc_engine_model_type r"
  "sp_voice_id (session_params d r) = rc_voice_id r"
  "sp_sdk_app_id (session_params d r) = cr_sdk_app_id (rc_credential r)"
  "sp_voice_format (session_params d r) = rc_voice_format r"
  "sp_need_vad (session_params d r) = rc_need_vad r"
  "sp_convert_num_mode (session_params d r) = rc_convert_num_mode r"
  "sp_hotword_id (session_params d r) = rc_hotword_id r"
  "sp_hotword_list (session_params d r) = rc_hotword_list r"
  "sp_customization_id (session_params d r) = rc_customization_id r"
  "sp_replace_text_id (session_params d r) = rc_replace_text_id r"
  "sp_filter_dirty (session_params d r) = rc_filter_dirty r"
  "sp_filter_modal (session_params d r) = rc_filter_modal r"
  "sp_filter_punc (session_params d r) = rc_filter_punc r"
  "sp_filter_empty_result (session_params d r) = rc_filter_empty_result r"
  "sp_word_info (session_params d r) = rc_word_info r"
  "sp_vad_silence_time (session_params d r) = rc_vad_silence_time r"
  "sp_vad_level (session_params d r) = rc_vad_level r"
  "sp_noise_threshold (session_params d r) = rc_noise_threshold r"
  "sp_max_speak_time (session_params d r) = rc_max_speak_time r"
  "sp_input_sample_rate (session_params d r) = rc_input_sample_rate r"
  "sp_speaker_diarization (session_params d r) = rc_speaker_diarization r"
  "sp_enable_speaker_context (session_params d r) = rc_enable_speaker_context r"
  "sp_speaker_number (session_params d r) = rc_speaker_number r"
  "sp_speaker_roles (session_params d r) = rc_speaker_roles r"
  "sp_voiceprint_ids (session_params d r) = rc_voiceprint_ids r"
  "sp_language (session_params d r) = rc_language r"
  by (simp_all add: session_params_def new_SignatureParams_def Let_def)

lemma session_params_context_id:
  "sp_speaker_context_id (session_params d r) =
     (if rc_enable_speaker_context r \<noteq> 0 then rc_speaker_context_id r else [])"
  by (simp add: session_params_def new_SignatureParams_def Let_def)

definition shown :: "bool \<Rightarrow> string \<Rightarrow> string option" where
  "shown c s = (if c then Some s else None)"

lemma scalar_members:
  "mget (scalar_params b p) ''voice_id'' = Some (sp_voice_id p)"
  "mget (scalar_params b p) ''engine_model_type'' = Some (sp_engine_model_type p)"
  "mget (scalar_params b p) ''voice_format'' = Some (to_string (sp_voice_format p))"
  "mget (scalar_params b p) ''needvad'' = Some (to_string (sp_need_vad p))"
  "mget (scalar_params b p) ''sdkappid'' = shown (0 < sp_sdk_app_id p) (to_string (sp_sdk_app_id p))"
  "mget (scalar_params b p) ''convert_num_mode'' = shown (sp_convert_num_mode p \<noteq> 0) (to_string (sp_convert_num_mode p))"
  "mget (scalar_params b p) ''filter_dirty'' = shown (sp_filter_dirty p \<noteq> 0) (to_string (sp_filter_dirty p))"
  "mget (scalar_params b p) ''filter_modal'' = shown (sp_filter_modal p \<noteq> 0) (to_string (sp_filter_modal p))"
  "mget (scalar_params b p) ''filter_punc'' = shown (sp_filter_punc p \<noteq> 0) (to_string (sp_filter_punc p))"
  "mget (scalar_params b p) ''word_info'' = shown (sp_word_info p \<noteq> 0) (to_string (sp_word_info p))"
  "mget (scalar_params b p) ''vad_silence_time'' = shown (sp_vad_silence_time p \<noteq> 0) (to_string (sp_vad_silence_time p))"
  "mget (scalar_params b p) ''max_speak_time'' = shown (sp_max_speak_time p \<noteq> 0) (to_string (sp_max_speak_time p))"
  "mget (scalar_params b p) ''input_sample_rate'' = shown (sp_input_sample_rate p \<noteq> 0) (to_string (sp_input_sample_rate p))"
  "mget (scalar_params b p) ''speaker_diarization'' = shown (sp_speaker_diarization p \<noteq> 0) (to_string (sp_speaker_diarization p))"
  "mget (scalar_params b p) ''enable_speaker_context'' = shown (sp_enable_speaker_context p \<noteq> 0) (to_string (sp_enable_speaker_context p))"
  "mget (scalar_params b p) ''hotword_id'' = shown (sp_hotword_id p \<noteq> []) (sp_hotword_id p)"
  "mget (scalar_params b p) ''hotword_list'' = shown (sp_hotword_list p \<noteq> []) (sp_hotword_list p)"
  "mget (scalar_params b p) ''customization_id'' = shown (sp_customization_id p \<noteq> []) (sp_customization_id p)"
  "mget (scalar_params b p) ''replace_text_id'' = shown (sp_replace_text_id p \<noteq> []) (sp_replace_text_id p)"
  "mget (scalar_params b p) ''filter_empty_result'' = map_option to_string (sp_filter_empty_result p)"
  "mget (scalar_params b p) ''vad_level'' = map_option to_string (sp_vad_level p)"
  "mget (scalar_params b p) ''noise_threshold'' = map_option noise_text (sp_noise_threshold p)"
  "mget (scalar_params b p) ''speaker_context_id'' = shown (sp_enable_speaker_context p \<noteq> 0 \<and> sp_speaker_context_id p \<noteq> []) (sp_speaker_context_id p)"
  "mget (scalar_params b p) ''language'' = None"
  by (simp_all add: param_defs shown_def del: mput.simps)

lemma host_name_site: "HostForSite s = Inr h \<Longrightarrow> host_name h"
  by (auto simp: HostForSite_Inr_iff host_name_def kHostCN_def kHostIntl_def)

lemma session_url_parts:
  assumes "session_url env d r = Inr url" and "rc_endpoint r = []"
  obtains h sig q where "HostForSite (cr_site (rc_credential r)) = Inr h"
    and "request_sig env (rc_credential r) (dl_sig_time d) (rc_voice_id r) = Inr sig"
    and "BuildQueryStringWithSignature (se_build env) (se_json env) (session_params d r) sig = Inr q"
    and "ParseWsUrl url = Inr \<lparr> up_secure = True, up_host = h, up_port = 443,
           up_target = ''/asr/v2/'' @ to_string (cr_app_id (rc_credential r)) @ ''?'' @ q \<rparr>"
proof -
  from assms(1) obtain sig q base
    where s: "request_sig env (rc_credential r) (dl_sig_time d) (rc_voice_id r) = Inr sig"
      and q: "BuildQueryStringWithSignature (se_build env) (se_json env) (session_params d r) sig = Inr q"
      and b: "ResolveWSEndpoint (rc_endpoint r) (cr_site (rc_credential r)) = Inr base"
      and u: "url = base @ ''/asr/v2/'' @ to_string (cr_app_id (rc_credential r)) @ ''?'' @ q"
    by (auto simp: session_url_def Let_def bindE_Inr_iff)
  from b assms(2) obtain h where h: "HostForSite (cr_site (rc_credential r)) = Inr h" and base: "base = ''wss://'' @ h"
    by (auto simp: ResolveWSEndpoint_def WSEndpointForSite_def bindE_Inr_iff)
  have "ParseWsUrl url = Inr \<lparr> up_secure = True, up_host = h, up_port = 443,
      up_target = ''/asr/v2/'' @ to_string (cr_app_id (rc_credential r)) @ ''?'' @ q \<rparr>"
    using split_authority_default [OF host_name_site [OF h], of True 443
        "''asr/v2/'' @ to_string (cr_app_id (rc_credential r)) @ ''?'' @ q"]
    by (simp add: ParseWsUrl_def u base)
  with s q h that show ?thesis by blast
qed

section \<open>Properties\<close>



definition sample_recognizer :: SpeechRecognizer where
  "sample_recognizer = SetVoiceId ''v1'' (SetVadLevel 0 (SetConvertNumMode 0
     (new_SpeechRecognizer sample_credential ''16k_zh'')))"

definition sample_dial :: dial where
  "sample_dial = \<lparr> dl_uuid = (0, 0), dl_sig_time = 1700000000, dl_time = 1700000000, dl_random = 41,
     dl_os = \<lparr> strerror = (\<lambda>_. []), gai_strerror = (\<lambda>_. []), sha1 = id \<rparr>, dl_sys = [] \<rparr>"

lemma sample_session_url: "\<exists>url. session_url (sample_env []) sample_dial sample_recognizer = Inr url"
proof -
  let ?p = "session_params sample_dial sample_recognizer"
  have c: "rc_credential sample_recognizer = sample_credential" "rc_endpoint sample_recognizer = []"
    and "sp_speaker_diarization ?p = 0"
    by (simp_all add: session_params_sel sample_recognizer_def SetVoiceId_def SetVadLevel_def
        SetConvertNumMode_def new_SpeechRecognizer_def)
  then have "\<exists>q. BuildQueryStringWithSignature (se_build (sample_env [])) (se_json (sample_env [])) ?p ''sig'' = Inr q"
    by (simp add: BuildQueryStringWithSignature_def ToMap_def put_ifE_def speaker_modes)
  then show ?thesis
    by (auto simp: session_url_def c sample_simps ResolveWSEndpoint_def WSEndpointForSite_def)
qed


text \<open>
  Claim C23. How the opening of a v2 session ends. It succeeds only with options the protocol
  knows and a completed WebSocket connection to the URL of the session, which then carries
  the recognizer's write timeout. Invalid options are an invalid-parameter error before
  anything is dialled and leave the recognizer alone; with valid ones the error is that of
  the ticket or the query string, or a connection error that keeps the reason.
\<close>

theorem open_session_outcome:
  assumes "open_session env d r = Some (res, r')"
  shows "r' = (if options_ok r then with_voice_id d r else r) \<and>
    (case res of
       Inr conn \<Rightarrow> options_ok r \<and> (\<exists>url s. session_url env d r' = Inr url \<and>
         Connect (dl_os d) url 10000 (dl_sys d) = Some (Inr (), s) \<and>
         conn = s \<lparr> ws_write_timeout := rc_write_timeout r \<rparr>)
     | Inl e \<Rightarrow> if \<not> options_ok r then (\<exists>msg. e = ASRError 1001 msg)
         else session_url env d r' = Inl e \<or>
           (\<exists>url s err. session_url env d r' = Inr url \<and>
              Connect (dl_os d) url 10000 (dl_sys d) = Some (Inl err, s) \<and>
              e = ASRError 1002 (''websocket dial failed: '' @ err)))"
proof (cases "options_ok r")
  case False
  with checks_fail [OF checks_ValidateOptions, of r] assms show ?thesis
    by (auto simp: open_session_def kErrInvalidParam_def)
next
  case True
  have w: "rc_write_timeout (with_voice_id d r) = rc_write_timeout r" by (simp add: with_voice_id_def)
  have run: "Connect_v2 env d r = Some (res, r')"
    using checks_Inr [OF checks_ValidateOptions [of r]] True assms by (simp add: open_session_def)
  note unfold = Connect_v2_def Let_def kErrConnectFailed_def kHandshakeTimeoutMs_def SetWriteTimeoutMs_def w
  show ?thesis
  proof (cases "session_url env d (with_voice_id d r)")
    case (Inl e)
    with run True show ?thesis by (auto simp: unfold)
  next
    case (Inr url)
    with run obtain x s where "Connect (dl_os d) url 10000 (dl_sys d) = Some (x, s)" by (auto simp: unfold)
    with run True Inr show ?thesis by (cases x) (auto simp: unfold)
  qed
qed

theorem open_session_outcome_witness:
  "\<exists>msg. open_session (sample_env []) sample_dial (SetVadLevel 9 sample_recognizer) =
     Some (Inl (ASRError 1001 msg), SetVadLevel 9 sample_recognizer)"
proof -
  let ?r = "SetVadLevel 9 sample_recognizer"
  have bad: "\<not> options_ok ?r" by (simp add: options_ok_def vad_ok_def SetVadLevel_def)
  obtain e where run: "open_session (sample_env []) sample_dial ?r = Some (Inl e, ?r)"
    using checks_fail [OF checks_ValidateOptions bad] by (auto simp: open_session_def)
  from open_session_outcome [OF run] bad run show ?thesis by simp
qed

text \<open>
  The timeouts that bound \<^verbatim>\<open>Write\<close> and \<^verbatim>\<open>Stop\<close> stay within their documented ranges,
  whatever is set and from the beginning: a value within the range is kept, a non-positive
  one restores the default.
\<close>

lemma timeouts_clamped:
  "let r1 = SetWriteTimeout t r; r2 = SetStopTimeout t r; r0 = new_SpeechRecognizer cred engine
   in 50 \<le> rc_write_timeout r1 \<and> rc_write_timeout r1 \<le> 30000 \<and>
      1000 \<le> rc_stop_timeout r2 \<and> rc_stop_timeout r2 \<le> 60000 \<and>
      (rc_write_timeout r1 = t \<or> t < 50 \<or> 30000 < t) \<and> (rc_stop_timeout r2 = t \<or> t < 1000 \<or> 60000 < t) \<and>
      rc_write_timeout (SetWriteTimeout 0 r) = rc_write_timeout r0 \<and>
      rc_stop_timeout (SetStopTimeout (- 1) r) = rc_stop_timeout r0 \<and>
      rc_write_timeout r2 = rc_write_timeout r \<and> rc_stop_timeout r1 = rc_stop_timeout r"
  by (simp add: SetWriteTimeout_def SetStopTimeout_def clamp_timeout_def new_SpeechRecognizer_def Let_def)

end
