(* ===== verification/V3Speech.thy ===== *)
theory V3Speech
  imports SpeechRecognizer V3File
begin

text \<open>
  The v3 realtime recognizer of \<^verbatim>\<open>include/trtc_asr/v3.h\<close> and \<^verbatim>\<open>src/v3.cc\<close>: options,
  validation, the start frame, and \<^verbatim>\<open>Connect\<close> with its wait for the server's
  acknowledgement. What it shares with v2 (clamping, the read loop, the lifecycle) is in
  \<open>Session\<close> and \<open>Lifecycle\<close>.
\<close>

record SpeechRecognizer_v3 =
  r3_credential :: Credential
  r3_endpoint :: string
  r3_engine_model_type :: string
  r3_voice_format :: int
  r3_need_vad :: int
  r3_convert_num_mode :: int
  r3_hotword_id :: string
  r3_hotword_list :: string
  r3_filter_dirty :: int
  r3_filter_modal :: int
  r3_filter_punc :: int
  r3_filter_empty_result :: "int option"
  r3_word_info :: int
  r3_word_with_space :: int
  r3_vad_silence_time :: int
  r3_vad_level :: "int option"
  r3_noise_threshold :: "dbl option"
  r3_max_speak_time :: int
  r3_input_sample_rate :: int
  r3_speaker_diarization :: int
  r3_enable_speaker_context :: int
  r3_speaker_context_id :: string
  r3_speaker_continue :: "SpeakerContinue option"
  r3_speaker_number :: int
  r3_speaker_roles :: "SpeakerRole list"
  r3_voiceprint_ids :: "string list"
  r3_voice_id :: string
  r3_language :: string
  r3_write_timeout :: int
  r3_stop_timeout :: int

definition new_SpeechRecognizer_v3 :: "Credential \<Rightarrow> string \<Rightarrow> SpeechRecognizer_v3" where
  "new_SpeechRecognizer_v3 credential engine_model_type =
     \<lparr> r3_credential = credential, r3_endpoint = [],
       r3_engine_model_type = engine_model_type, r3_voice_format = 1, r3_need_vad = 1,
       r3_convert_num_mode = 1, r3_hotword_id = [], r3_hotword_list = [], r3_filter_dirty = 0,
       r3_filter_modal = 0, r3_filter_punc = 0, r3_filter_empty_result = None, r3_word_info = 0,
       r3_word_with_space = 0, r3_vad_silence_time = 0, r3_vad_level = None,
       r3_noise_threshold = None, r3_max_speak_time = 0, r3_input_sample_rate = 0,
       r3_speaker_diarization = 0, r3_enable_speaker_context = 0, r3_speaker_context_id = [],
       r3_speaker_continue = None, r3_speaker_number = 0, r3_speaker_roles = [],
       r3_voiceprint_ids = [], r3_voice_id = [], r3_language = [], r3_write_timeout = 5000,
       r3_stop_timeout = 10000 \<rparr>"

section \<open>Setters\<close>

definition SetEndpoint_v3 :: "string \<Rightarrow> SpeechRecognizer_v3 \<Rightarrow> SpeechRecognizer_v3" where
  "SetEndpoint_v3 v self = self \<lparr> r3_endpoint := v \<rparr>"

definition SetVoiceFormat_v3 :: "int \<Rightarrow> SpeechRecognizer_v3 \<Rightarrow> SpeechRecognizer_v3" where
  "SetVoiceFormat_v3 v self = self \<lparr> r3_voice_format := v \<rparr>"

definition SetNeedVad_v3 :: "int \<Rightarrow> SpeechRecognizer_v3 \<Rightarrow> SpeechRecognizer_v3" where
  "SetNeedVad_v3 v self = self \<lparr> r3_need_vad := v \<rparr>"

definition SetConvertNumMode_v3 :: "int \<Rightarrow> SpeechRecognizer_v3 \<Rightarrow> SpeechRecognizer_v3" where
  "SetConvertNumMode_v3 v self = self \<lparr> r3_convert_num_mode := v \<rparr>"

definition SetHotwordId_v3 :: "string \<Rightarrow> SpeechRecognizer_v3 \<Rightarrow> SpeechRecognizer_v3" where
  "SetHotwordId_v3 v self = self \<lparr> r3_hotword_id := v \<rparr>"

definition SetHotwordList_v3 :: "string \<Rightarrow> SpeechRecognizer_v3 \<Rightarrow> SpeechRecognizer_v3" where
  "SetHotwordList_v3 v self = self \<lparr> r3_hotword_list := v \<rparr>"

definition SetFilterDirty_v3 :: "int \<Rightarrow> SpeechRecognizer_v3 \<Rightarrow> SpeechRecognizer_v3" where
  "SetFilterDirty_v3 v self = self \<lparr> r3_filter_dirty := v \<rparr>"

definition SetFilterModal_v3 :: "int \<Rightarrow> SpeechRecognizer_v3 \<Rightarrow> SpeechRecognizer_v3" where
  "SetFilterModal_v3 v self = self \<lparr> r3_filter_modal := v \<rparr>"

definition SetFilterPunc_v3 :: "int \<Rightarrow> SpeechRecognizer_v3 \<Rightarrow> SpeechRecognizer_v3" where
  "SetFilterPunc_v3 v self = self \<lparr> r3_filter_punc := v \<rparr>"

definition SetFilterEmptyResult_v3 :: "int \<Rightarrow> SpeechRecognizer_v3 \<Rightarrow> SpeechRecognizer_v3" where
  "SetFilterEmptyResult_v3 v self = self \<lparr> r3_filter_empty_result := Some v \<rparr>"

definition SetWordInfo_v3 :: "int \<Rightarrow> SpeechRecognizer_v3 \<Rightarrow> SpeechRecognizer_v3" where
  "SetWordInfo_v3 v self = self \<lparr> r3_word_info := v \<rparr>"

definition SetWordWithSpace_v3 :: "int \<Rightarrow> SpeechRecognizer_v3 \<Rightarrow> SpeechRecognizer_v3" where
  "SetWordWithSpace_v3 v self = self \<lparr> r3_word_with_space := v \<rparr>"

definition SetVadSilenceTime_v3 :: "int \<Rightarrow> SpeechRecognizer_v3 \<Rightarrow> SpeechRecognizer_v3" where
  "SetVadSilenceTime_v3 v self = self \<lparr> r3_vad_silence_time := v \<rparr>"

definition SetVadLevel_v3 :: "int \<Rightarrow> SpeechRecognizer_v3 \<Rightarrow> SpeechRecognizer_v3" where
  "SetVadLevel_v3 v self = self \<lparr> r3_vad_level := Some v \<rparr>"

definition SetNoiseThreshold_v3 :: "dbl \<Rightarrow> SpeechRecognizer_v3 \<Rightarrow> SpeechRecognizer_v3" where
  "SetNoiseThreshold_v3 v self = self \<lparr> r3_noise_threshold := Some v \<rparr>"

definition SetMaxSpeakTime_v3 :: "int \<Rightarrow> SpeechRecognizer_v3 \<Rightarrow> SpeechRecognizer_v3" where
  "SetMaxSpeakTime_v3 v self = self \<lparr> r3_max_speak_time := v \<rparr>"

definition SetInputSampleRate_v3 :: "int \<Rightarrow> SpeechRecognizer_v3 \<Rightarrow> SpeechRecognizer_v3" where
  "SetInputSampleRate_v3 v self = self \<lparr> r3_input_sample_rate := v \<rparr>"

definition SetSpeakerDiarization_v3 :: "int \<Rightarrow> SpeechRecognizer_v3 \<Rightarrow> SpeechRecognizer_v3" where
  "SetSpeakerDiarization_v3 v self = self \<lparr> r3_speaker_diarization := v \<rparr>"

definition SetEnableSpeakerContext_v3 :: "int \<Rightarrow> SpeechRecognizer_v3 \<Rightarrow> SpeechRecognizer_v3" where
  "SetEnableSpeakerContext_v3 v self = self \<lparr> r3_enable_speaker_context := v \<rparr>"

definition SetSpeakerNumber_v3 :: "int \<Rightarrow> SpeechRecognizer_v3 \<Rightarrow> SpeechRecognizer_v3" where
  "SetSpeakerNumber_v3 v self = self \<lparr> r3_speaker_number := v \<rparr>"

definition SetSpeakerRoles_v3 :: "SpeakerRole list \<Rightarrow> SpeechRecognizer_v3 \<Rightarrow> SpeechRecognizer_v3" where
  "SetSpeakerRoles_v3 v self = self \<lparr> r3_speaker_roles := v \<rparr>"

definition SetVoiceprintIds_v3 :: "string list \<Rightarrow> SpeechRecognizer_v3 \<Rightarrow> SpeechRecognizer_v3" where
  "SetVoiceprintIds_v3 v self = self \<lparr> r3_voiceprint_ids := v \<rparr>"

definition SetVoiceId_v3 :: "string \<Rightarrow> SpeechRecognizer_v3 \<Rightarrow> SpeechRecognizer_v3" where
  "SetVoiceId_v3 v self = self \<lparr> r3_voice_id := v \<rparr>"

definition SetLanguage_v3 :: "string \<Rightarrow> SpeechRecognizer_v3 \<Rightarrow> SpeechRecognizer_v3" where
  "SetLanguage_v3 v self = self \<lparr> r3_language := v \<rparr>"

definition SetSpeakerContextId_v3 :: "string \<Rightarrow> SpeechRecognizer_v3 \<Rightarrow> SpeechRecognizer_v3" where
  "SetSpeakerContextId_v3 v self = self \<lparr> r3_speaker_context_id := trim v \<rparr>"

definition SetWriteTimeout_v3 :: "int \<Rightarrow> SpeechRecognizer_v3 \<Rightarrow> SpeechRecognizer_v3" where
  "SetWriteTimeout_v3 t self = self \<lparr> r3_write_timeout := clamp_timeout 5000 50 30000 t \<rparr>"

definition SetStopTimeout_v3 :: "int \<Rightarrow> SpeechRecognizer_v3 \<Rightarrow> SpeechRecognizer_v3" where
  "SetStopTimeout_v3 t self = self \<lparr> r3_stop_timeout := clamp_timeout 10000 1000 60000 t \<rparr>"

definition GetSpeakerContinue_v3 :: "SpeechRecognizer_v3 \<Rightarrow> SpeakerContinue option" where
  "GetSpeakerContinue_v3 self = r3_speaker_continue self"

section \<open>Validation\<close>

definition ValidateOptions_v3 :: "SpeechRecognizer_v3 \<Rightarrow> unit result" where
  "ValidateOptions_v3 self =
     bindE (throw_if (int (length (r3_voice_id self)) > kMaxVoiceIdLen)
       (invalid_param (''VoiceID length must not exceed '' @ to_string kMaxVoiceIdLen))) (\<lambda>_.
     bindE (ValidateSpeakerDiarization_v3 (r3_speaker_diarization self) (r3_speaker_number self)
              (r3_speaker_roles self) (r3_voiceprint_ids self)) (\<lambda>_.
     bindE (ValidateSpeakerContext (r3_enable_speaker_context self) (r3_speaker_diarization self)) (\<lambda>_.
     bindE (ValidateVadTuning_v3 (r3_vad_level self) (r3_noise_threshold self)) (\<lambda>_.
     bindE (throw_if (r3_max_speak_time self \<noteq> 0 \<and>
                      (r3_max_speak_time self < kMinMaxSpeakTime \<or> r3_max_speak_time self > kMaxMaxSpeakTime))
       (invalid_param (''MaxSpeakTime must be between '' @ to_string kMinMaxSpeakTime @ '' and '' @
          to_string kMaxMaxSpeakTime @ '' ms, got '' @ to_string (r3_max_speak_time self)))) (\<lambda>_.
     bindE (throw_if (r3_vad_silence_time self \<noteq> 0 \<and> r3_need_vad self = 1 \<and>
                      (r3_vad_silence_time self < kMinVadSilenceTimeMs \<or>
                       r3_vad_silence_time self > kMaxVadSilenceTimeMs))
       (invalid_param (''VadSilenceTime must be between '' @ to_string kMinVadSilenceTimeMs @ '' and '' @
          to_string kMaxVadSilenceTimeMs @ '' ms (needvad=1), got '' @
          to_string (r3_vad_silence_time self)))) (\<lambda>_.
     bindE (ValidateEnumOption_v3 ''NeedVad'' (r3_need_vad self) [0, 1]) (\<lambda>_.
     bindE (ValidateEnumOption_v3 ''ConvertNumMode'' (r3_convert_num_mode self) [0, 1, 3]) (\<lambda>_.
     bindE (ValidateEnumOption_v3 ''FilterDirty'' (r3_filter_dirty self) [0, 1, 2]) (\<lambda>_.
     bindE (ValidateEnumOption_v3 ''FilterModal'' (r3_filter_modal self) [0, 1, 2]) (\<lambda>_.
     bindE (ValidateEnumOption_v3 ''FilterPunc'' (r3_filter_punc self) [0, 1]) (\<lambda>_.
     bindE (ValidateEnumOption_v3 ''WordInfo'' (r3_word_info self) [0, 1, 2, 100]) (\<lambda>_.
     bindE (ValidateEnumOption_v3 ''WordWithSpace'' (r3_word_with_space self) [0, 1]) (\<lambda>_.
     bindE (ValidateEnumOption_v3 ''VoiceFormat'' (r3_voice_format self) [1, 4, 6, 8, 10, 11, 12, 14, 16]) (\<lambda>_.
     bindE (case r3_filter_empty_result self of
              None \<Rightarrow> Inr () | Some v \<Rightarrow> ValidateEnumOption_v3 ''FilterEmptyResult'' v [0, 1]) (\<lambda>_.
     ValidateEnumOption_v3 ''InputSampleRate'' (r3_input_sample_rate self) [0, 8000])))))))))))))))"

section \<open>The start frame\<close>

definition start_params :: "build_target \<Rightarrow> SpeechRecognizer_v3 \<Rightarrow> json" where
  "start_params b self =
    (let voiceprint = (r3_speaker_diarization self = kSpeakerDiarizationVoiceprint);
         context = (r3_enable_speaker_context self \<noteq> 0)
     in JObj (
     put_if (context \<and> r3_speaker_context_id self \<noteq> []) ''speaker_context_id''
       (JStr (r3_speaker_context_id self)) (
     put_if context ''enable_speaker_context'' (JInt (r3_enable_speaker_context self)) (
     put_if (voiceprint \<and> r3_speaker_roles self \<noteq> []) ''speaker_roles''
       (JArr (map role_json_v3 (r3_speaker_roles self))) (
     put_if (voiceprint \<and> r3_voiceprint_ids self \<noteq> []) ''voiceprint_ids''
       (JArr (map JStr (r3_voiceprint_ids self))) (
     put_if (r3_speaker_diarization self \<noteq> 0 \<and> r3_speaker_number self \<noteq> 0) ''speaker_number''
       (JInt (r3_speaker_number self)) (
     jput_int ''speaker_diarization'' (r3_speaker_diarization self) (
     jput_int ''input_sample_rate'' (r3_input_sample_rate self) (
     jput_int ''max_speak_time'' (r3_max_speak_time self) (
     jput_opt_dbl ''noise_threshold'' (r3_noise_threshold self) (
     jput_opt_int ''vad_level'' (r3_vad_level self) (
     jput_int ''vad_silence_time'' (r3_vad_silence_time self) (
     jput_int ''word_with_space'' (r3_word_with_space self) (
     jput_int ''word_info'' (r3_word_info self) (
     jput_opt_int ''filter_empty_result'' (r3_filter_empty_result self) (
     jput_int ''filter_punc'' (r3_filter_punc self) (
     jput_int ''filter_modal'' (r3_filter_modal self) (
     jput_int ''filter_dirty'' (r3_filter_dirty self) (
     jput_str ''hotword_list'' (r3_hotword_list self) (
     jput_str ''hotword_id'' (r3_hotword_id self) (
     mput ''sdk_info'' (sdk_info_json b) (
     mput ''convert_num_mode'' (JInt (r3_convert_num_mode self)) (
     mput ''needvad'' (JInt (r3_need_vad self)) (
     mput ''voice_format'' (JInt (r3_voice_format self)) (
     jput_str ''language'' (r3_language self) (
     mput ''engine_model_type'' (JStr (r3_engine_model_type self)) (
     mput ''voice_id'' (JStr (r3_voice_id self)) [])))))))))))))))))))))))))))"

definition start_frame :: "build_target \<Rightarrow> SpeechRecognizer_v3 \<Rightarrow> string \<Rightarrow> json" where
  "start_frame b self user_sig =
     JObj (mput ''params'' (start_params b self)
       (mput ''auth'' (JObj (mput ''usersig'' (JStr user_sig)
          (mput ''sdkappid'' (JStr (to_string (cr_sdk_app_id (r3_credential self)))) [])))
       (mput ''type'' (JStr ''start'') [])))"

section \<open>The acknowledgement\<close>

lemma Read_loop_io: "Read_loop os w d s = Some (r, s') \<Longrightarrow> io_size s' \<le> io_size s"
proof (induction os w d s rule: Read_loop.induct)
  case (1 os w d s)
  then show ?case
    by (subst (asm) (2) Read_loop.simps)
      (fastforce split: option.splits prod.splits read_iter.splits dest: read_once_io)
qed

lemma Read_io: "Read os w t s = Some (r, s') \<Longrightarrow> io_size s' < io_size s"
proof -
  assume "Read os w t s = Some (r, s')"
  then obtain now s1 where n: "now_ms s = Some (now, s1)" and l: "Read_loop os w (now + t) s1 = Some (r, s')"
    by (auto simp: Read_def split: option.splits)
  have "env_size s1 < env_size s" and "ws_read_buf s1 = ws_read_buf s"
    using n by (auto simp: now_ms_def ask_def env_size_def split: list.splits option.splits)
  then have "io_size s1 < io_size s" by (simp add: io_size_def)
  with Read_loop_io [OF l] show ?thesis by simp
qed

text \<open>
  The handler of one text frame: \<open>closes\<close> tells whether the connection was closed before the
  exception left; a member of the wrong type throws with the connection still open.
\<close>

datatype ack = AckOk "SpeakerContinue option" | AckFails bool exn

definition parse_ack :: "json_lib \<Rightarrow> string \<Rightarrow> ack" where
  "parse_ack jl payload =
     (case jl_parse jl payload of
        Inl (Undefined u) \<Rightarrow> AckFails False (Undefined u)
      | Inl e \<Rightarrow> AckFails True (ASRError kErrServerError (''invalid start ack: '' @ exn_what e))
      | Inr ack \<Rightarrow>
          (case value_i32 ack ''code'' of
             Inl e \<Rightarrow> AckFails False e
           | Inr code \<Rightarrow>
               if code \<noteq> 0
               then (case value_str ack ''message'' of
                       Inl e \<Rightarrow> AckFails True e
                     | Inr message \<Rightarrow> AckFails True (ASRError code message))
               else (case ParseSpeakerContinue ack of
                       Inl e \<Rightarrow> AckFails False e
                     | Inr sc \<Rightarrow> AckOk sc)))"

function ack_loop :: "json_lib \<Rightarrow> os_lib \<Rightarrow> int \<Rightarrow> ack io" where
  "ack_loop jl os deadline s =
     (case Read os True kReadPollMs s of
        None \<Rightarrow> None
      | Some ((rc, frame, err), s1) \<Rightarrow>
          if rc = 0
          then (case now_ms s1 of
                  None \<Rightarrow> None
                | Some (now, s2) \<Rightarrow>
                    if now \<ge> deadline
                    then Some (AckFails True (ASRError kErrReadFailed ''read start ack failed: ack timeout''), s2)
                    else ack_loop jl os deadline s2)
          else if rc < 0
          then Some (AckFails True (ASRError kErrReadFailed (''read start ack failed'' @
                 (case err of Some e \<Rightarrow> if e = [] then [] else '': '' @ e | None \<Rightarrow> []))), s1)
          else (case frame of
                  None \<Rightarrow> ack_loop jl os deadline s1
                | Some f \<Rightarrow>
                    if wf_opcode f = 0x8
                    then Some (AckFails True (ASRError kErrReadFailed
                           ''read start ack failed: connection closed by server''), s1)
                    else if wf_opcode f \<noteq> 0x1 then ack_loop jl os deadline s1
                    else Some (parse_ack jl (string_of (wf_payload f)), s1)))"
  by pat_completeness auto
termination
proof (relation "measure (\<lambda>(jl, os, deadline, s). io_size s)"; clarsimp)
  fix os s rc frame err s1 now s2
  assume "Read os True kReadPollMs s = Some ((rc, frame, err), s1)" and "now_ms s1 = Some (now, s2)"
  moreover have "io_size s2 < io_size s1" if "now_ms s1 = Some (now, s2)"
    using now_io [OF that] .
  ultimately show "io_size s2 < io_size s" using Read_io by fastforce
qed (use Read_io in blast)+

declare ack_loop.simps [simp del]

section \<open>Connect\<close>

definition AckTimeout :: "SpeechRecognizer_v3 \<Rightarrow> int" where
  "AckTimeout self =
     (if r3_enable_speaker_context self = kSpeakerContextSync \<and> r3_speaker_context_id self \<noteq> []
      then kSpeakerContextAckTimeout else kAckTimeout)"

definition with_voice_id_v3 :: "dial \<Rightarrow> SpeechRecognizer_v3 \<Rightarrow> SpeechRecognizer_v3" where
  "with_voice_id_v3 d self =
     (if r3_voice_id self = []
      then self \<lparr> r3_voice_id := GenerateUuid (fst (dl_uuid d)) (snd (dl_uuid d)) \<rparr> else self)"

definition start_text :: "sdk_env \<Rightarrow> dial \<Rightarrow> SpeechRecognizer_v3 \<Rightarrow> string result" where
  "start_text env d self =
     bindE (request_sig env (r3_credential self) (dl_sig_time d) (r3_voice_id self)) (\<lambda>user_sig.
     bindE (jl_dump (se_json env) (start_frame (se_build env) self user_sig)) (\<lambda>txt.
     bindE (throw_if (int (length txt) > kStartFrameMaxBytes)
       (invalid_param (''start frame exceeds '' @ to_string kStartFrameMaxBytes @ '' bytes''))) (\<lambda>_.
     Inr txt)))"

definition session_url_v3 :: "SpeechRecognizer_v3 \<Rightarrow> string result" where
  "session_url_v3 self =
     bindE (ResolveWSEndpoint (r3_endpoint self) (cr_site (r3_credential self))) (\<lambda>base.
     Inr (base @ ''/asr/v3?voice_id='' @ r3_voice_id self))"

text \<open>
  The wait for the acknowledgement. The outcome has the shared connection as it is left:
  \<open>None\<close> after a close, \<open>Some s\<close> when the connection stays.
\<close>

definition await_ack ::
  "sdk_env \<Rightarrow> os_lib \<Rightarrow> SpeechRecognizer_v3 \<Rightarrow> ws \<Rightarrow>
     ((unit result \<times> ws option) \<times> SpeechRecognizer_v3) option" where
  "await_ack env os self s =
     (case now_ms s of
        None \<Rightarrow> None
      | Some (now, s1) \<Rightarrow>
          map_option (\<lambda>(a, s2).
            case a of
              AckFails closes e \<Rightarrow> ((Inl e, if closes then None else Some s2), self)
            | AckOk sc \<Rightarrow> ((Inr (), Some s2),
                 (case sc of None \<Rightarrow> self | Some c \<Rightarrow> self \<lparr> r3_speaker_continue := Some c \<rparr>)))
            (ack_loop (se_json env) os (now + AckTimeout self) s1))"

definition Connect_v3 ::
  "sdk_env \<Rightarrow> dial \<Rightarrow> SpeechRecognizer_v3 \<Rightarrow>
     ((unit result \<times> ws option) \<times> SpeechRecognizer_v3) option" where
  "Connect_v3 env d self0 =
     (let self = with_voice_id_v3 d self0
      in case bindE (start_text env d self) (\<lambda>txt. bindE (session_url_v3 self) (\<lambda>url. Inr (txt, url))) of
           Inl e \<Rightarrow> Some ((Inl e, None), self)
         | Inr (txt, ws_url) \<Rightarrow>
             (case Connect (dl_os d) ws_url kHandshakeTimeoutMs (dl_sys d) of
                None \<Rightarrow> None
              | Some (Inl err, _) \<Rightarrow>
                  Some ((Inl (ASRError kErrConnectFailed (''websocket dial failed: '' @ err)), None), self)
              | Some (Inr _, s) \<Rightarrow>
                  (case SendText (dl_os d) txt (SetWriteTimeoutMs (r3_write_timeout self) s) of
                     None \<Rightarrow> None
                   | Some (Some err, _) \<Rightarrow>
                       Some ((Inl (ASRError kErrWriteFailed (''send start frame failed: '' @ err)), None), self)
                   | Some (None, s1) \<Rightarrow> await_ack env (dl_os d) self s1)))"

text \<open>What \<^verbatim>\<open>Start\<close> does between the state changes, and the argument checks of \<^verbatim>\<open>Write\<close>.\<close>

definition open_session_v3 ::
  "sdk_env \<Rightarrow> dial \<Rightarrow> SpeechRecognizer_v3 \<Rightarrow>
     ((unit result \<times> ws option) \<times> SpeechRecognizer_v3) option" where
  "open_session_v3 env d self =
     (case ValidateOptions_v3 self of
        Inl e \<Rightarrow> Some ((Inl e, None), self)
      | Inr _ \<Rightarrow> Connect_v3 env d self)"

definition check_audio_v3 :: "bool \<Rightarrow> nat \<Rightarrow> unit result" where
  "check_audio_v3 is_null len =
     bindE (throw_if (is_null \<and> len > 0) (invalid_param ''audio data pointer is null'')) (\<lambda>_.
     throw_if (int len > kStreamFrameMaxBytes)
       (invalid_param (''audio frame exceeds '' @ to_string kStreamFrameMaxBytes @ '' bytes'')))"

end
