(* ===== verification/V3SpeechProps.thy ===== *)
theory V3SpeechProps
  imports V3Speech RecognizerProps V3Props
begin

text \<open>
  Properties of the v3 realtime recognizer up to the acknowledged session: the options it
  accepts, what the service reads from the start frame, and how the handshake ends.
\<close>

section \<open>Options\<close>

definition options_ok_v3 :: "SpeechRecognizer_v3 \<Rightarrow> bool" where
  "options_ok_v3 r \<longleftrightarrow> length (r3_voice_id r) \<le> 128 \<and>
     diarization_ok_v3 (r3_speaker_diarization r) (r3_speaker_number r) (r3_speaker_roles r)
       (r3_voiceprint_ids r) \<and>
     r3_enable_speaker_context r \<in> {0, 1, 2} \<and>
     (r3_enable_speaker_context r = 0 \<or> r3_speaker_diarization r \<noteq> 0) \<and>
     pred_option (\<lambda>l. l = 0 \<or> l = 1) (r3_vad_level r) \<and> pred_option (dbl_between 0 4) (r3_noise_threshold r) \<and>
     (r3_max_speak_time r = 0 \<or> r3_max_speak_time r \<in> {5000..90000}) \<and>
     (r3_vad_silence_time r = 0 \<or> r3_need_vad r \<noteq> 1 \<or> r3_vad_silence_time r \<in> {240..2000}) \<and>
     r3_need_vad r \<in> {0, 1} \<and> r3_convert_num_mode r \<in> {0, 1, 3} \<and> r3_filter_dirty r \<in> {0, 1, 2} \<and>
     r3_filter_modal r \<in> {0, 1, 2} \<and> r3_filter_punc r \<in> {0, 1} \<and> r3_word_info r \<in> {0, 1, 2, 100} \<and>
     r3_word_with_space r \<in> {0, 1} \<and> r3_voice_format r \<in> {1, 4, 6, 8, 10, 11, 12, 14, 16} \<and>
     pred_option (\<lambda>v. v \<in> {0, 1}) (r3_filter_empty_result r) \<and> r3_input_sample_rate r \<in> {0, 8000}"

lemmas v3_limits = kMaxVoiceIdLen_def kMinMaxSpeakTime_def kMaxMaxSpeakTime_def kMinVadSilenceTimeMs_def
  kMaxVadSilenceTimeMs_def

lemma checks_v3_ranges:
  "checks (throw_if (int (length (r3_voice_id r)) > kMaxVoiceIdLen) (invalid_param a))
     (length (r3_voice_id r) \<le> 128)"
  "checks (throw_if (r3_max_speak_time r \<noteq> 0 \<and>
       (r3_max_speak_time r < kMinMaxSpeakTime \<or> r3_max_speak_time r > kMaxMaxSpeakTime)) (invalid_param b))
     (r3_max_speak_time r = 0 \<or> r3_max_speak_time r \<in> {5000..90000})"
  "checks (throw_if (r3_vad_silence_time r \<noteq> 0 \<and> r3_need_vad r = 1 \<and>
       (r3_vad_silence_time r < kMinVadSilenceTimeMs \<or> r3_vad_silence_time r > kMaxVadSilenceTimeMs))
       (invalid_param c))
     (r3_vad_silence_time r = 0 \<or> r3_need_vad r \<noteq> 1 \<or> r3_vad_silence_time r \<in> {240..2000})"
  by (rule checks_iff [OF checks_throw_if]; auto simp: v3_limits)+

lemma checks_ValidateOptions_v3: "checks (ValidateOptions_v3 r) (options_ok_v3 r)"
  unfolding ValidateOptions_v3_def ValidateEnumOption_v3_same
  by (rule checks_iff, (rule checks_v3_ranges checks_ValidateSpeakerDiarization_v3 checks_ValidateSpeakerContext
        checks_ValidateVadTuning_v3 checks_opt_enum checks_ValidateEnumOption checks_bindE)+)
    (simp only: options_ok_v3_def list.set conj_assoc)

section \<open>The service's side of the start frame\<close>

definition read_options :: "json \<Rightarrow> SpeechRecognizer_v3 result" where
  "read_options j =
     bindE (value_str j ''engine_model_type'') (\<lambda>xenginemodeltype.
     bindE (value_i32 j ''voice_format'') (\<lambda>xvoiceformat.
     bindE (value_i32 j ''needvad'') (\<lambda>xneedvad.
     bindE (value_i32 j ''convert_num_mode'') (\<lambda>xconvertnummode.
     bindE (value_str j ''hotword_id'') (\<lambda>xhotwordid.
     bindE (value_str j ''hotword_list'') (\<lambda>xhotwordlist.
     bindE (value_i32 j ''filter_dirty'') (\<lambda>xfilterdirty.
     bindE (value_i32 j ''filter_modal'') (\<lambda>xfiltermodal.
     bindE (value_i32 j ''filter_punc'') (\<lambda>xfilterpunc.
     bindE (field_opt get_i32 j ''filter_empty_result'') (\<lambda>xfilteremptyresult.
     bindE (value_i32 j ''word_info'') (\<lambda>xwordinfo.
     bindE (value_i32 j ''word_with_space'') (\<lambda>xwordwithspace.
     bindE (value_i32 j ''vad_silence_time'') (\<lambda>xvadsilencetime.
     bindE (field_opt get_i32 j ''vad_level'') (\<lambda>xvadlevel.
     bindE (field_opt get_f64 j ''noise_threshold'') (\<lambda>xnoisethreshold.
     bindE (value_i32 j ''max_speak_time'') (\<lambda>xmaxspeaktime.
     bindE (value_i32 j ''input_sample_rate'') (\<lambda>xinputsamplerate.
     bindE (value_i32 j ''speaker_diarization'') (\<lambda>xspeakerdiarization.
     bindE (value_i32 j ''enable_speaker_context'') (\<lambda>xenablespeakercontext.
     bindE (value_str j ''speaker_context_id'') (\<lambda>xspeakercontextid.
     bindE (value_i32 j ''speaker_number'') (\<lambda>xspeakernumber.
     bindE (field_list read_role_v3 j ''speaker_roles'') (\<lambda>xspeakerroles.
     bindE (field_strs j ''voiceprint_ids'') (\<lambda>xvoiceprintids.
     bindE (value_str j ''voice_id'') (\<lambda>xvoiceid.
     bindE (value_str j ''language'') (\<lambda>xlanguage.
     Inr \<lparr> r3_credential = new_Credential 0 0 [], r3_endpoint = [],
       r3_engine_model_type = xenginemodeltype, r3_voice_format = xvoiceformat,
       r3_need_vad = xneedvad, r3_convert_num_mode = xconvertnummode, r3_hotword_id = xhotwordid,
       r3_hotword_list = xhotwordlist, r3_filter_dirty = xfilterdirty,
       r3_filter_modal = xfiltermodal, r3_filter_punc = xfilterpunc,
       r3_filter_empty_result = xfilteremptyresult, r3_word_info = xwordinfo,
       r3_word_with_space = xwordwithspace, r3_vad_silence_time = xvadsilencetime,
       r3_vad_level = xvadlevel, r3_noise_threshold = xnoisethreshold,
       r3_max_speak_time = xmaxspeaktime, r3_input_sample_rate = xinputsamplerate,
       r3_speaker_diarization = xspeakerdiarization,
       r3_enable_speaker_context = xenablespeakercontext,
       r3_speaker_context_id = xspeakercontextid, r3_speaker_continue = None,
       r3_speaker_number = xspeakernumber, r3_speaker_roles = xspeakerroles,
       r3_voiceprint_ids = xvoiceprintids, r3_voice_id = xvoiceid, r3_language = xlanguage,
       r3_write_timeout = 5000, r3_stop_timeout = 10000 \<rparr>)))))))))))))))))))))))))"

text \<open>What of a recognizer the start frame carries; the rest is at its defaults.\<close>

definition wire_view :: "SpeechRecognizer_v3 \<Rightarrow> SpeechRecognizer_v3" where
  "wire_view r =
     r \<lparr> r3_credential := new_Credential 0 0 [], r3_endpoint := [], r3_speaker_continue := None,
         r3_write_timeout := 5000, r3_stop_timeout := 10000,
         r3_speaker_context_id := (if r3_enable_speaker_context r = 0 then [] else r3_speaker_context_id r),
         r3_speaker_number := (if r3_speaker_diarization r = 0 then 0 else r3_speaker_number r),
         r3_speaker_roles := (if r3_speaker_diarization r = 3 then r3_speaker_roles r else []),
         r3_voiceprint_ids := (if r3_speaker_diarization r = 3 then r3_voiceprint_ids r else []) \<rparr>"

definition options_fit :: "SpeechRecognizer_v3 \<Rightarrow> bool" where
  "options_fit r \<longleftrightarrow> pred_option in_i32 (r3_filter_empty_result r) \<and> pred_option in_i32 (r3_vad_level r) \<and>
     pred_option (\<lambda>d. json_wf (JFloat d)) (r3_noise_threshold r) \<and> list_all in_i32
      [r3_voice_format r, r3_need_vad r, r3_convert_num_mode r, r3_filter_dirty r,
       r3_filter_modal r, r3_filter_punc r, r3_word_info r, r3_word_with_space r,
       r3_vad_silence_time r, r3_max_speak_time r, r3_input_sample_rate r,
       r3_speaker_diarization r, r3_enable_speaker_context r, r3_speaker_number r]"

definition read_start :: "json \<Rightarrow> ((string \<times> string) \<times> SpeechRecognizer_v3) result" where
  "read_start j =
     (case (jmember is_object j ''auth'', jmember is_object j ''params'') of
        (Some a, Some p) \<Rightarrow>
          bindE (value_str j ''type'') (\<lambda>ty.
          bindE (throw_if (ty \<noteq> ''start'') (ASRError 4001 ''bad request'')) (\<lambda>_.
          bindE (value_str a ''sdkappid'') (\<lambda>app.
          bindE (value_str a ''usersig'') (\<lambda>sig.
          bindE (read_options p) (\<lambda>r. Inr ((app, sig), r))))))
      | _ \<Rightarrow> Inl (ASRError 4002 ''bad request''))"

section \<open>Lemmas\<close>

lemma option_members:
  "value_str (start_params b r) ''engine_model_type'' = Inr (r3_engine_model_type r)"
  "in_i32 (r3_voice_format r) \<Longrightarrow> value_i32 (start_params b r) ''voice_format'' = Inr (r3_voice_format r)"
  "in_i32 (r3_need_vad r) \<Longrightarrow> value_i32 (start_params b r) ''needvad'' = Inr (r3_need_vad r)"
  "in_i32 (r3_convert_num_mode r) \<Longrightarrow> value_i32 (start_params b r) ''convert_num_mode'' = Inr (r3_convert_num_mode r)"
  "value_str (start_params b r) ''hotword_id'' = Inr (r3_hotword_id r)"
  "value_str (start_params b r) ''hotword_list'' = Inr (r3_hotword_list r)"
  "in_i32 (r3_filter_dirty r) \<Longrightarrow> value_i32 (start_params b r) ''filter_dirty'' = Inr (r3_filter_dirty r)"
  "in_i32 (r3_filter_modal r) \<Longrightarrow> value_i32 (start_params b r) ''filter_modal'' = Inr (r3_filter_modal r)"
  "in_i32 (r3_filter_punc r) \<Longrightarrow> value_i32 (start_params b r) ''filter_punc'' = Inr (r3_filter_punc r)"
  "pred_option in_i32 (r3_filter_empty_result r) \<Longrightarrow> field_opt get_i32 (start_params b r) ''filter_empty_result'' = Inr (r3_filter_empty_result r)"
  "in_i32 (r3_word_info r) \<Longrightarrow> value_i32 (start_params b r) ''word_info'' = Inr (r3_word_info r)"
  "in_i32 (r3_word_with_space r) \<Longrightarrow> value_i32 (start_params b r) ''word_with_space'' = Inr (r3_word_with_space r)"
  "in_i32 (r3_vad_silence_time r) \<Longrightarrow> value_i32 (start_params b r) ''vad_silence_time'' = Inr (r3_vad_silence_time r)"
  "pred_option in_i32 (r3_vad_level r) \<Longrightarrow> field_opt get_i32 (start_params b r) ''vad_level'' = Inr (r3_vad_level r)"
  "field_opt get_f64 (start_params b r) ''noise_threshold'' = Inr (r3_noise_threshold r)"
  "in_i32 (r3_max_speak_time r) \<Longrightarrow> value_i32 (start_params b r) ''max_speak_time'' = Inr (r3_max_speak_time r)"
  "in_i32 (r3_input_sample_rate r) \<Longrightarrow> value_i32 (start_params b r) ''input_sample_rate'' = Inr (r3_input_sample_rate r)"
  "in_i32 (r3_speaker_diarization r) \<Longrightarrow> value_i32 (start_params b r) ''speaker_diarization'' = Inr (r3_speaker_diarization r)"
  "in_i32 (r3_enable_speaker_context r) \<Longrightarrow> value_i32 (start_params b r) ''enable_speaker_context'' = Inr (r3_enable_speaker_context r)"
  "value_str (start_params b r) ''speaker_context_id'' = Inr (if r3_enable_speaker_context r = 0 then [] else r3_speaker_context_id r)"
  "in_i32 (r3_speaker_number r) \<Longrightarrow> value_i32 (start_params b r) ''speaker_number'' = Inr (if r3_speaker_diarization r = 0 then 0 else r3_speaker_number r)"
  "field_list read_role_v3 (start_params b r) ''speaker_roles'' = Inr (if r3_speaker_diarization r = 3 then r3_speaker_roles r else [])"
  "field_strs (start_params b r) ''voiceprint_ids'' = Inr (if r3_speaker_diarization r = 3 then r3_voiceprint_ids r else [])"
  "value_str (start_params b r) ''voice_id'' = Inr (r3_voice_id r)"
  "value_str (start_params b r) ''language'' = Inr (r3_language r)"
  by (simp_all add: start_params_def Let_def member_reads field_opt_def field_strs_def field_list_def
      case_array_member read_role_json_v3 speaker_modes del: mput.simps)
    (auto split: option.split)

lemma read_options_start: "options_fit r \<Longrightarrow> read_options (start_params b r) = Inr (wire_view r)"
  by (simp add: read_options_def options_fit_def option_members wire_view_def)

lemma read_start_frame:
  "options_fit r \<Longrightarrow> read_start (start_frame b r sig) =
     Inr ((to_string (cr_sdk_app_id (r3_credential r)), sig), wire_view r)"
  using read_options_start [of r b]
  by (simp add: read_start_def start_frame_def start_params_def Let_def del: mput.simps)

lemma start_params_wf: "options_fit r \<Longrightarrow> json_wf (start_params b r)"
  unfolding start_params_def Let_def
  by (rule json_wf_obj) (simp_all add: options_fit_def list_all_iff sdk_info_wf del: mput.simps)

lemma start_frame_wf: "options_fit r \<Longrightarrow> json_wf (start_frame b r sig)"
  unfolding start_frame_def
  by (intro json_wf_obj mwf_mput all_values_mput)
    (auto intro!: json_wf_obj simp: start_params_wf all_values_def simp del: mput.simps)

lemma start_text_Inr:
  assumes "start_text env d r = Inr txt"
  obtains sig where "request_sig env (r3_credential r) (dl_sig_time d) (r3_voice_id r) = Inr sig"
    and "jl_dump (se_json env) (start_frame (se_build env) r sig) = Inr txt" and "length txt \<le> 65536"
  using assms by (auto simp: start_text_def bindE_Inr_iff throw_if_def kStartFrameMaxBytes_def split: if_splits)

lemma type_error_not_asr: "\<not> is_asr_error (type_error i msg)"
  by (simp add: type_error_def)

lemma int_of_dbl_not_asr: "int_of_dbl w d = Inl e \<Longrightarrow> \<not> is_asr_error e"
  by (auto simp: int_of_dbl_def Let_def split: dbl.splits if_splits)

lemma get_not_asr:
  "get_i32 v = Inl e \<Longrightarrow> \<not> is_asr_error e" "get_str v = Inl e \<Longrightarrow> \<not> is_asr_error e"
  using type_error_not_asr int_of_dbl_not_asr by (cases v; force)+

lemma jvalue_not_asr:
  "(\<And>v. get v = Inl e \<Longrightarrow> \<not> is_asr_error e) \<Longrightarrow> jvalue get j k d = Inl e \<Longrightarrow> \<not> is_asr_error e"
  using type_error_not_asr by (auto simp: jvalue_def split: if_splits option.splits)

lemma value_not_asr:
  "value_i32 j k = Inl e \<Longrightarrow> \<not> is_asr_error e" "value_str j k = Inl e \<Longrightarrow> \<not> is_asr_error e"
  using jvalue_not_asr [of get_i32] jvalue_not_asr [of get_str] get_not_asr by blast+

lemma parse_ack_ok:
  "parse_ack jl p = AckOk sc \<Longrightarrow>
     \<exists>j. jl_parse jl p = Inr j \<and> value_i32 j ''code'' = Inr 0 \<and> ParseSpeakerContinue j = Inr sc"
  by (auto simp: parse_ack_def split: sum.splits exn.splits if_splits)

lemma ack_loop_ok:
  "ack_loop jl os dl s = Some (AckOk sc, s') \<Longrightarrow>
     \<exists>v rc f e. Read os True kReadPollMs v = Some ((rc, Some f, e), s') \<and> 0 < rc \<and> wf_opcode f = 0x1 \<and>
       parse_ack jl (string_of (wf_payload f)) = AckOk sc"
proof (induction jl os dl s rule: ack_loop.induct)
  case (1 jl os dl s)
  note IH = "1.IH" and run = "1.prems"
  from run obtain rc frame err s1 where r: "Read os True kReadPollMs s = Some ((rc, frame, err), s1)"
    by (subst (asm) ack_loop.simps) (auto split: option.splits)
  show ?case
  proof (cases "rc = 0")
    case True
    with run r obtain now s2 where n: "now_ms s1 = Some (now, s2)" and "\<not> now \<ge> dl"
      and "ack_loop jl os dl s2 = Some (AckOk sc, s')"
      by (subst (asm) ack_loop.simps) (auto split: option.splits if_splits)
    with IH(1) [OF r] True show ?thesis by blast
  next
    case False
    with run r have pos: "0 < rc" by (subst (asm) ack_loop.simps) (auto split: if_splits)
    show ?thesis
    proof (cases frame)
      case None
      with run r False pos have "ack_loop jl os dl s1 = Some (AckOk sc, s')"
        by (subst (asm) ack_loop.simps) auto
      with IH(2) [OF r] None False pos show ?thesis by auto
    next
      case (Some f)
      show ?thesis
      proof (cases "wf_opcode f = 0x1")
        case True
        with run r False pos Some have "s' = s1" "parse_ack jl (string_of (wf_payload f)) = AckOk sc"
          by (subst (asm) ack_loop.simps; simp)+
        with r Some pos True show ?thesis by blast
      next
        case other: False
        with run r False pos Some have "ack_loop jl os dl s1 = Some (AckOk sc, s')"
          by (subst (asm) ack_loop.simps) (auto split: if_splits)
        moreover have "wf_opcode f \<noteq> 0x8"
          using run r False pos Some other by (subst (asm) ack_loop.simps) (auto split: if_splits)
        ultimately show ?thesis using IH(3) [OF r] Some other False pos by auto
      qed
    qed
  qed
qed

lemma ack_loop_closes:
  "json_lib_ok jl \<Longrightarrow> ack_loop jl os dl s = Some (AckFails False e, s') \<Longrightarrow> \<not> is_asr_error e"
proof (induction jl os dl s rule: ack_loop.induct)
  case (1 jl os dl s)
  have "\<not> is_asr_error e" if "parse_ack jl p = AckFails False e" for p
    using that 1 value_not_asr
    by (auto simp: parse_ack_def ParseSpeakerContinue_def bindE_Inl_iff split: sum.splits exn.splits option.splits if_splits)
  then show ?case
    using 1 by (subst (asm) (4) ack_loop.simps) (auto split: option.splits prod.splits if_splits)
qed

end
