(* ===== verification/V3Handshake.thy ===== *)
theory V3Handshake
  imports V3SpeechProps
begin

text \<open>
  The properties of a v3 connection: what the service reads from the start frame, and what
  every outcome of \<^verbatim>\<open>Connect\<close> says about the session and the connection.
\<close>

text \<open>
  Claim C21. What the service reads from the start frame: for a recognizer whose numbers fit
  their fields, the text that is sent stays within 64 KiB and parses to the identity of the
  application with its ticket and to every option of the recognizer, an explicit 0 of
  VAD and number conversion included; the speaker number, the speaker context id and the
  enrolment data arrive exactly when their mode is on.
\<close>

theorem start_text_reads:
  assumes "json_lib_ok (se_json env)" and "options_fit r" and "start_text env d r = Inr frame"
  shows "\<exists>sig j. request_sig env (r3_credential r) (dl_sig_time d) (r3_voice_id r) = Inr sig \<and>
    length frame \<le> 65536 \<and> jl_parse (se_json env) frame = Inr j \<and>
    read_start j = Inr ((to_string (cr_sdk_app_id (r3_credential r)), sig), wire_view r)"
proof -
  obtain sig where s: "request_sig env (r3_credential r) (dl_sig_time d) (r3_voice_id r) = Inr sig"
    and dump: "jl_dump (se_json env) (start_frame (se_build env) r sig) = Inr frame"
    and len: "length frame \<le> 65536"
    using start_text_Inr [OF assms(3)] by blast
  have "jl_parse (se_json env) frame = Inr (start_frame (se_build env) r sig)"
    using assms(1) dump start_frame_wf [OF assms(2)] by (auto simp: json_lib_ok_def)
  with s len read_start_frame [OF assms(2)] show ?thesis by blast
qed

definition sample_v3_recognizer :: SpeechRecognizer_v3 where
  "sample_v3_recognizer = SetVoiceId_v3 ''v1'' (SetNeedVad_v3 0 (SetVadLevel_v3 0
     (new_SpeechRecognizer_v3 sample_credential ''16k_zh'')))"

lemma sample_v3_recognizer_sel:
  "r3_credential sample_v3_recognizer = sample_credential" "r3_endpoint sample_v3_recognizer = []"
  "options_fit sample_v3_recognizer"
  by (simp_all add: sample_v3_recognizer_def SetVoiceId_v3_def SetNeedVad_v3_def SetVadLevel_v3_def
      new_SpeechRecognizer_v3_def options_fit_def in_i32_def)

definition sample_start_docs :: "(string \<times> json) list" where
  "sample_start_docs = [(''q'', start_frame (se_build (sample_env [])) sample_v3_recognizer ''sig'')]"

lemma sample_start_text: "start_text (sample_env sample_start_docs) sample_dial sample_v3_recognizer = Inr ''q''"
proof -
  have "se_build (sample_env sample_start_docs) = se_build (sample_env [])" by (simp add: sample_env_def)
  then have "jl_dump (se_json (sample_env sample_start_docs))
      (start_frame (se_build (sample_env sample_start_docs)) sample_v3_recognizer ''sig'') = Inr ''q''"
    by (simp only: sample_simps) (simp add: doc_lib_def sample_start_docs_def)
  then show ?thesis
    by (simp add: start_text_def sample_simps sample_v3_recognizer_sel throw_if_def kStartFrameMaxBytes_def)
qed

theorem start_text_reads_witness:
  "\<exists>j. jl_parse (se_json (sample_env sample_start_docs)) ''q'' = Inr j \<and>
     read_start j = Inr ((''1400000000'', ''sig''), wire_view sample_v3_recognizer)"
proof -
  have "json_lib_ok (se_json (sample_env sample_start_docs))"
    by (simp add: sample_simps sample_start_docs_def doc_lib_ok)
  moreover have "to_string (cr_sdk_app_id sample_credential) = ''1400000000''"
    by (simp add: sample_credential_def set_user_sig_def new_Credential_def str_simps)
  ultimately show ?thesis
    using start_text_reads [OF _ sample_v3_recognizer_sel(3) sample_start_text]
    by (auto simp: sample_v3_recognizer_sel sample_simps)
qed

text \<open>How \<^verbatim>\<open>Connect\<close> ends, which is what is left once the options are valid.\<close>

lemma Connect_v3_outcome:
  assumes "Connect_v3 env d r0 = Some ((res, conn), r')" and "json_lib_ok (se_json env)"
  shows "let r = with_voice_id_v3 d r0 in
    case res of
      Inr _ \<Rightarrow> \<exists>frame url s0 s1 s v rc f e j sc. start_text env d r = Inr frame \<and> session_url_v3 r = Inr url \<and>
        Connect (dl_os d) url 10000 (dl_sys d) = Some (Inr (), s0) \<and>
        SendText (dl_os d) frame (s0 \<lparr> ws_write_timeout := r3_write_timeout r \<rparr>) = Some (None, s1) \<and>
        Read (dl_os d) True 100 v = Some ((rc, Some f, e), s) \<and> 0 < rc \<and> wf_opcode f = 0x1 \<and>
        jl_parse (se_json env) (string_of (wf_payload f)) = Inr j \<and> value_i32 j ''code'' = Inr 0 \<and>
        ParseSpeakerContinue j = Inr sc \<and> conn = Some s \<and>
        r' = (case sc of None \<Rightarrow> r | Some c \<Rightarrow> r \<lparr> r3_speaker_continue := Some c \<rparr>)
    | Inl e \<Rightarrow> r' = r \<and> (is_asr_error e \<longrightarrow> conn = None)"
proof -
  let ?r = "with_voice_id_v3 d r0"
  consider (local_error) e where "res = Inl e" "conn = None" "r' = ?r"
    | (sent) frame url s0 s1 where "start_text env d ?r = Inr frame" "session_url_v3 ?r = Inr url"
        "Connect (dl_os d) url 10000 (dl_sys d) = Some (Inr (), s0)"
        "SendText (dl_os d) frame (s0 \<lparr> ws_write_timeout := r3_write_timeout ?r \<rparr>) = Some (None, s1)"
        "await_ack env (dl_os d) ?r s1 = Some ((res, conn), r')"
    using assms(1)
    by (auto simp: Connect_v3_def Let_def bindE_def kHandshakeTimeoutMs_def SetWriteTimeoutMs_def
        split: sum.splits option.splits prod.splits)
  then show ?thesis
  proof cases
    case sent
    then obtain t s2 a s3 where a: "ack_loop (se_json env) (dl_os d) (t + AckTimeout ?r) s2 = Some (a, s3)"
      and o: "((res, conn), r') = (case a of AckFails closes e \<Rightarrow> ((Inl e, if closes then None else Some s3), ?r)
            | AckOk sc \<Rightarrow> ((Inr (), Some s3),
                 (case sc of None \<Rightarrow> ?r | Some c \<Rightarrow> ?r \<lparr> r3_speaker_continue := Some c \<rparr>)))"
      by (auto simp: await_ack_def split: option.splits prod.splits)
    show ?thesis
    proof (cases a)
      case (AckFails closes e)
      with o a ack_loop_closes [OF assms(2)] show ?thesis by (auto simp: Let_def)
    next
      case (AckOk sc)
      with a obtain v rc f e j where read: "Read (dl_os d) True 100 v = Some ((rc, Some f, e), s3)" "0 < rc"
        "wf_opcode f = 0x1" "jl_parse (se_json env) (string_of (wf_payload f)) = Inr j"
        "value_i32 j ''code'' = Inr 0" "ParseSpeakerContinue j = Inr sc"
        using ack_loop_ok parse_ack_ok unfolding kReadPollMs_def by blast
      have r: "res = Inr ()" and conn: "conn = Some s3"
        "r' = (case sc of None \<Rightarrow> ?r | Some c \<Rightarrow> ?r \<lparr> r3_speaker_continue := Some c \<rparr>)"
        using o AckOk by simp_all
      show ?thesis
        unfolding Let_def r sum.case
        by (intro exI conjI) (fact sent read conn)+
    qed
  qed (simp add: Let_def)
qed


definition no_dns :: dial where
  "no_dns = sample_dial \<lparr> dl_sys := [AddrInfo 1 0] \<rparr>"


end
