(* ===== verification/Lifecycle.thy ===== *)
theory Lifecycle
  imports Session
begin

text \<open>
  The lifecycle of a realtime recognizer as its threads drive it (\<^verbatim>\<open>src/speech_recognizer.cc\<close>,
  and \<^verbatim>\<open>src/v3.cc\<close> with the same code): any number of application threads in \<^verbatim>\<open>Start\<close>,
  \<^verbatim>\<open>Write\<close> and \<^verbatim>\<open>Stop\<close>, the reader thread with its callbacks, and the stop watchdog, over
  the shared state. A step is one access to the shared state or one send; the steps of
  different threads interleave freely. Thread 0 is the application code that runs on the
  reader thread inside a callback.
\<close>

type_synonym caller = nat

datatype wire_frame = Audio "u8 list" | EndSignal

datatype call = StartCall | WriteCall | StopCall

text \<open>Where an application thread is.\<close>

datatype cpc =
    CIdle
  | StOpen | StStore | StSpawn
  | WrConn "u8 list" | WrLock "u8 list" | WrCheck "u8 list" | WrSend "u8 list"
  | SpConn | SpLock | SpCheck | SpSend | SpSent
  | SpFailed string | SpClose string | SpThrow string
  | SpWait bool | SpWaited bool | SpStore

text \<open>
  Where the reader thread is: \<open>RCall ev k\<close> inside a callback, \<open>RFinish\<close> and \<open>RClose\<close> in the
  two halves of \<^verbatim>\<open>Finish\<close>, with what follows it.
\<close>

datatype rnext = ToFetch | ToRead | ToComplete SpeechRecognitionResponse | ToExit

datatype routine = AFail event bool | AComplete SpeechRecognitionResponse | AExit

datatype rpc =
    RNone
  | RStart
  | RCall event rnext
  | RFetch
  | RRead
  | RFinish routine
  | RClose routine
  | RMark routine
  | RSignal
  | RGone

record session =
  ls_state :: rstate
  ls_conn :: bool                \<comment> \<open>\<^verbatim>\<open>conn\<close> is not null\<close>
  ls_write_mu :: "caller option"
  ls_done :: bool
  ls_terminal :: bool            \<comment> \<open>\<^verbatim>\<open>terminal_received\<close>\<close>
  ls_finished :: bool            \<comment> \<open>\<^verbatim>\<open>finish_once\<close> has been passed\<close>
  ls_pc :: "caller \<Rightarrow> cpc"
  ls_reader :: rpc
  ls_watchdogs :: nat
  ls_wire :: "wire_frame list"   \<comment> \<open>the frames whose sending was begun\<close>
  ls_events :: "(bool \<times> event) list"   \<comment> \<open>the callbacks begun, and whether after \<^verbatim>\<open>Finish\<close>\<close>
  ls_returns :: "(caller \<times> call \<times> unit result) list"

definition initial :: session where
  "initial =
     \<lparr> ls_state = Idle, ls_conn = False, ls_write_mu = None, ls_done = False, ls_terminal = False,
       ls_finished = False, ls_pc = (\<lambda>_. CIdle), ls_reader = RNone, ls_watchdogs = 0, ls_wire = [],
       ls_events = [], ls_returns = [] \<rparr>"

definition move_to :: "caller \<Rightarrow> cpc \<Rightarrow> session \<Rightarrow> session" where
  "move_to c p s = s \<lparr> ls_pc := (ls_pc s)(c := p) \<rparr>"

definition returns :: "caller \<Rightarrow> call \<Rightarrow> unit result \<Rightarrow> session \<Rightarrow> session" where
  "returns c f r s = s \<lparr> ls_pc := (ls_pc s)(c := CIdle), ls_returns := ls_returns s @ [(c, f, r)] \<rparr>"

fun in_callback :: "rpc \<Rightarrow> bool" where
  "in_callback (RCall _ _) = True"
| "in_callback _ = False"

text \<open>A thread may enter an operation; thread 0 only while a callback runs.\<close>

definition may_call :: "caller \<Rightarrow> session \<Rightarrow> bool" where
  "may_call c s \<longleftrightarrow> ls_pc s c = CIdle \<and> (c = 0 \<longrightarrow> in_callback (ls_reader s))"

definition not_running :: exn where
  "not_running = ASRError kErrNotStarted ''recognizer not running''"

definition no_connection :: exn where
  "no_connection = ASRError kErrNotStarted ''connection not established''"

section \<open>Start\<close>

text \<open>
  \<open>opened\<close> and \<open>failed\<close> are the two outcomes of \<^verbatim>\<open>ValidateOptions(); Connect();\<close>; a failed
  attempt may leave any connection.
\<close>

inductive start_call :: "caller \<Rightarrow> session \<Rightarrow> session \<Rightarrow> bool" for c :: caller where
  start_begin: "may_call c s \<Longrightarrow> ls_state s = Idle \<Longrightarrow>
     start_call c s (move_to c StOpen (s \<lparr> ls_state := Starting \<rparr>))"
| start_refused: "may_call c s \<Longrightarrow> ls_state s \<noteq> Idle \<Longrightarrow>
     start_call c s (returns c StartCall (Inl (ASRError kErrAlreadyStarted ''recognizer already started'')) s)"
| start_failed: "ls_pc s c = StOpen \<Longrightarrow>
     start_call c s (returns c StartCall (Inl e) (s \<lparr> ls_state := Idle, ls_conn := left \<rparr>))"
| start_opened: "ls_pc s c = StOpen \<Longrightarrow> start_call c s (move_to c StStore (s \<lparr> ls_conn := True \<rparr>))"
| start_running: "ls_pc s c = StStore \<Longrightarrow> start_call c s (move_to c StSpawn (s \<lparr> ls_state := Running \<rparr>))"
| start_spawn: "ls_pc s c = StSpawn \<Longrightarrow>
     start_call c s (returns c StartCall (Inr ()) (s \<lparr> ls_reader := RStart \<rparr>))"

section \<open>Write\<close>

text \<open>The argument checks of \<^verbatim>\<open>Write\<close> touch nothing shared and come before.\<close>

inductive write_call :: "caller \<Rightarrow> session \<Rightarrow> session \<Rightarrow> bool" for c :: caller where
  write_begin: "may_call c s \<Longrightarrow> ls_state s = Running \<Longrightarrow> write_call c s (move_to c (WrConn data) s)"
| write_refused: "may_call c s \<Longrightarrow> ls_state s \<noteq> Running \<Longrightarrow>
     write_call c s (returns c WriteCall (Inl not_running) s)"
| write_conn: "ls_pc s c = WrConn data \<Longrightarrow> ls_conn s \<Longrightarrow> write_call c s (move_to c (WrLock data) s)"
| write_no_conn: "ls_pc s c = WrConn data \<Longrightarrow> \<not> ls_conn s \<Longrightarrow>
     write_call c s (returns c WriteCall (Inl no_connection) s)"
| write_lock: "ls_pc s c = WrLock data \<Longrightarrow> ls_write_mu s = None \<Longrightarrow>
     write_call c s (move_to c (WrCheck data) (s \<lparr> ls_write_mu := Some c \<rparr>))"
| write_recheck: "ls_pc s c = WrCheck data \<Longrightarrow> ls_state s = Running \<Longrightarrow>
     write_call c s (move_to c (WrSend data) s)"
| write_stopped: "ls_pc s c = WrCheck data \<Longrightarrow> ls_state s \<noteq> Running \<Longrightarrow>
     write_call c s (returns c WriteCall (Inl not_running) (s \<lparr> ls_write_mu := None \<rparr>))"
| write_send: "ls_pc s c = WrSend data \<Longrightarrow>
     r = Inr () \<or> r = Inl (ASRError kErrWriteFailed (''write audio data failed: '' @ err)) \<Longrightarrow>
     write_call c s (returns c WriteCall r
       (s \<lparr> ls_wire := ls_wire s @ [Audio data], ls_write_mu := None \<rparr>))"

section \<open>Stop\<close>

text \<open>
  \<open>SpWait b\<close> is \<^verbatim>\<open>WaitForReadLoopOrClose\<close>, followed by the store of the stopped state when
  \<open>b\<close>. The wait has a timeout until the terminal response has arrived, and none after.
\<close>

inductive stop_call :: "caller \<Rightarrow> session \<Rightarrow> session \<Rightarrow> bool" for c :: caller where
  stop_begin: "may_call c s \<Longrightarrow> ls_state s = Running \<Longrightarrow>
     stop_call c s (move_to c SpConn (s \<lparr> ls_state := Stopping \<rparr>))"
| stop_refused: "may_call c s \<Longrightarrow> ls_state s \<noteq> Running \<Longrightarrow>
     stop_call c s (returns c StopCall (Inl not_running) s)"
| stop_conn: "ls_pc s c = SpConn \<Longrightarrow> ls_conn s \<Longrightarrow> stop_call c s (move_to c SpLock s)"
| stop_no_conn: "ls_pc s c = SpConn \<Longrightarrow> \<not> ls_conn s \<Longrightarrow>
     stop_call c s (returns c StopCall (Inl no_connection) (s \<lparr> ls_state := Stopped \<rparr>))"
| stop_lock: "ls_pc s c = SpLock \<Longrightarrow> ls_write_mu s = None \<Longrightarrow>
     stop_call c s (move_to c SpCheck (s \<lparr> ls_write_mu := Some c \<rparr>))"
| stop_already: "ls_pc s c = SpCheck \<Longrightarrow> ls_state s = Stopped \<Longrightarrow>
     stop_call c s (move_to c (SpWait False) (s \<lparr> ls_write_mu := None \<rparr>))"
| stop_check: "ls_pc s c = SpCheck \<Longrightarrow> ls_state s \<noteq> Stopped \<Longrightarrow> stop_call c s (move_to c SpSend s)"
| stop_sent: "ls_pc s c = SpSend \<Longrightarrow>
     stop_call c s (move_to c SpSent (s \<lparr> ls_wire := ls_wire s @ [EndSignal], ls_write_mu := None \<rparr>))"
| stop_send_failed: "ls_pc s c = SpSend \<Longrightarrow>
     stop_call c s (move_to c (SpFailed err) (s \<lparr> ls_wire := ls_wire s @ [EndSignal], ls_write_mu := None \<rparr>))"
| stop_failed_finished: "ls_pc s c = SpFailed err \<Longrightarrow> ls_state s = Stopped \<Longrightarrow>
     stop_call c s (move_to c (SpWait False) s)"
| stop_failed: "ls_pc s c = SpFailed err \<Longrightarrow> ls_state s \<noteq> Stopped \<Longrightarrow> stop_call c s (move_to c (SpClose err) s)"
| stop_close: "ls_pc s c = SpClose err \<Longrightarrow> stop_call c s (move_to c (SpThrow err) (s \<lparr> ls_conn := False \<rparr>))"
| stop_throw: "ls_pc s c = SpThrow err \<Longrightarrow>
     stop_call c s (returns c StopCall (Inl (ASRError kErrWriteFailed (''send end signal failed: '' @ err)))
       (s \<lparr> ls_state := Stopped \<rparr>))"
| stop_in_callback: "ls_pc s c = SpSent \<Longrightarrow> c = 0 \<Longrightarrow>
     stop_call c s (returns c StopCall (Inr ()) (s \<lparr> ls_watchdogs := Suc (ls_watchdogs s) \<rparr>))"
| stop_wait: "ls_pc s c = SpSent \<Longrightarrow> c \<noteq> 0 \<Longrightarrow> stop_call c s (move_to c (SpWait True) s)"
| wait_done: "ls_pc s c = SpWait b \<Longrightarrow> ls_done s \<Longrightarrow> stop_call c s (move_to c (SpWaited b) s)"
| wait_timeout: "ls_pc s c = SpWait b \<Longrightarrow> \<not> ls_done s \<Longrightarrow> \<not> ls_terminal s \<Longrightarrow>
     stop_call c s (move_to c (SpWaited b) (s \<lparr> ls_conn := False \<rparr>))"
| waited: "ls_pc s c = SpWaited False \<Longrightarrow> stop_call c s (returns c StopCall (Inr ()) s)"
| waited_store: "ls_pc s c = SpWaited True \<Longrightarrow> stop_call c s (move_to c SpStore s)"
| stop_store: "ls_pc s c = SpStore \<Longrightarrow>
     stop_call c s (returns c StopCall (Inr ()) (s \<lparr> ls_state := Stopped \<rparr>))"

text \<open>The watchdog of a \<^verbatim>\<open>Stop\<close> from a callback waits in the same way and ends.\<close>

inductive watchdog_step :: "session \<Rightarrow> session \<Rightarrow> bool" where
  watchdog_done: "ls_watchdogs s = Suc n \<Longrightarrow> ls_done s \<Longrightarrow>
     watchdog_step s (s \<lparr> ls_watchdogs := n \<rparr>)"
| watchdog_timeout: "ls_watchdogs s = Suc n \<Longrightarrow> \<not> ls_done s \<Longrightarrow> \<not> ls_terminal s \<Longrightarrow>
     watchdog_step s (s \<lparr> ls_watchdogs := n, ls_conn := False \<rparr>)"

section \<open>The reader thread\<close>

definition goto :: "rpc \<Rightarrow> session \<Rightarrow> session" where
  "goto p s = s \<lparr> ls_reader := p \<rparr>"

text \<open>A callback begins.\<close>

definition enter :: "event \<Rightarrow> rnext \<Rightarrow> session \<Rightarrow> session" where
  "enter ev k s = s \<lparr> ls_reader := RCall ev k, ls_events := ls_events s @ [(ls_finished s, ev)] \<rparr>"

definition panic :: "string \<Rightarrow> event" where
  "panic what = OnFail None (ASRError kErrReadFailed (''recovered from panic in read loop: '' @ what))"

definition do_action :: "action \<Rightarrow> session \<Rightarrow> session" where
  "do_action a s =
     (case a of
        Again \<Rightarrow> goto RRead s
      | Leave \<Rightarrow> goto (RFinish AExit) s
      | LeaveFailed e \<Rightarrow> goto (RFinish (AFail (OnFail None e) False)) s
      | Report e \<Rightarrow> enter (OnFail None e) ToRead s
      | Escape e \<Rightarrow> goto (RFinish (AFail (panic (exn_what e)) False)) s
      | FailTerminal resp \<Rightarrow>
          goto (RFinish (AFail (OnFail (Some resp) (ASRError (sr_code resp) (sr_message resp))) True)) s
      | CompleteWith resp \<Rightarrow> goto (RFinish (AComplete resp)) s
      | Deliver resp \<Rightarrow>
          (case DispatchEvent resp of None \<Rightarrow> goto RRead s | Some ev \<Rightarrow> enter ev ToRead s))"

text \<open>What follows \<^verbatim>\<open>Finish\<close>, and \<^verbatim>\<open>MarkTerminalReceived\<close>.\<close>

definition after_finish :: "routine \<Rightarrow> session \<Rightarrow> session" where
  "after_finish a s =
     (case a of
        AFail ev mark \<Rightarrow> if mark then goto (RMark a) s else enter ev ToExit s
      | AComplete resp \<Rightarrow> goto (RMark a) s
      | AExit \<Rightarrow> goto RSignal s)"

definition after_mark :: "routine \<Rightarrow> session \<Rightarrow> session" where
  "after_mark a s =
     (case a of
        AFail ev mark \<Rightarrow> enter ev ToExit s
      | AComplete resp \<Rightarrow>
          (case DispatchEvent resp of
             None \<Rightarrow> enter (OnRecognitionComplete resp) ToExit s
           | Some ev \<Rightarrow> enter ev (ToComplete resp) s)
      | AExit \<Rightarrow> goto RSignal s)"

definition after_call :: "rnext \<Rightarrow> session \<Rightarrow> session" where
  "after_call k s =
     (case k of
        ToFetch \<Rightarrow> goto RFetch s
      | ToRead \<Rightarrow> goto RRead s
      | ToComplete resp \<Rightarrow> enter (OnRecognitionComplete resp) ToExit s
      | ToExit \<Rightarrow> goto (RFinish AExit) s)"

text \<open>Exceptions that leave \<^verbatim>\<open>OnFail\<close> and \<^verbatim>\<open>OnRecognitionComplete\<close> are swallowed.\<close>

fun shielded :: "event \<Rightarrow> bool" where
  "shielded (OnFail _ _) = True"
| "shielded (OnRecognitionComplete _) = True"
| "shielded _ = False"

inductive reader_step :: "json_lib \<Rightarrow> session \<Rightarrow> session \<Rightarrow> bool" for jl :: json_lib where
  reader_start: "ls_reader s = RStart \<Longrightarrow>
     reader_step jl s (enter (OnRecognitionStart (start_response voice_id sc)) ToFetch s)"
| callback_returns: "ls_reader s = RCall ev k \<Longrightarrow> ls_pc s 0 = CIdle \<Longrightarrow> reader_step jl s (after_call k s)"
| callback_throws: "ls_reader s = RCall ev k \<Longrightarrow> ls_pc s 0 = CIdle \<Longrightarrow> \<not> shielded ev \<Longrightarrow>
     reader_step jl s (goto (RFinish (AFail (panic what) False)) s)"
| reader_fetch: "ls_reader s = RFetch \<Longrightarrow>
     reader_step jl s (goto (if ls_conn s then RRead else RFinish AExit) s)"
| reader_read: "ls_reader s = RRead \<Longrightarrow>
     reader_step jl s (do_action (read_action jl (ls_state s) rd) s)"
| finish_store: "ls_reader s = RFinish a \<Longrightarrow> \<not> ls_finished s \<Longrightarrow>
     reader_step jl s (goto (RClose a) (s \<lparr> ls_state := Stopped \<rparr>))"
| finish_again: "ls_reader s = RFinish a \<Longrightarrow> ls_finished s \<Longrightarrow> reader_step jl s (after_finish a s)"
| finish_close: "ls_reader s = RClose a \<Longrightarrow>
     reader_step jl s (after_finish a (s \<lparr> ls_conn := False, ls_finished := True \<rparr>))"
| mark_terminal: "ls_reader s = RMark a \<Longrightarrow> reader_step jl s (after_mark a (s \<lparr> ls_terminal := True \<rparr>))"
| signal_done: "ls_reader s = RSignal \<Longrightarrow> reader_step jl s (goto RGone (s \<lparr> ls_done := True \<rparr>))"

section \<open>The system\<close>

inductive session_step :: "json_lib \<Rightarrow> session \<Rightarrow> session \<Rightarrow> bool" for jl :: json_lib where
  by_start: "start_call c s s' \<Longrightarrow> session_step jl s s'"
| by_write: "write_call c s s' \<Longrightarrow> session_step jl s s'"
| by_stop: "stop_call c s s' \<Longrightarrow> session_step jl s s'"
| by_watchdog: "watchdog_step s s' \<Longrightarrow> session_step jl s s'"
| by_reader: "reader_step jl s s' \<Longrightarrow> session_step jl s s'"

inductive reachable :: "json_lib \<Rightarrow> session \<Rightarrow> bool" for jl :: json_lib where
  reach_init: "reachable jl initial"
| reach_step: "reachable jl s \<Longrightarrow> session_step jl s s' \<Longrightarrow> reachable jl s'"

lemmas moves = move_to_def returns_def goto_def enter_def

end
