(* ===== verification/LifecycleInv.thy ===== *)
theory LifecycleInv
  imports Lifecycle
begin

text \<open>
  Invariants of the lifecycle, one definition and one preservation lemma per concern: who
  holds the write mutex, who is starting, who is stopping, what is on the wire, what a
  callback's own calls can do, where the reader is, and which callbacks there have been.
\<close>

section \<open>Classes of positions\<close>

fun holds :: "cpc \<Rightarrow> bool" where
  "holds (WrCheck _) = True"
| "holds (WrSend _) = True"
| "holds SpCheck = True"
| "holds SpSend = True"
| "holds _ = False"

fun launching :: "cpc \<Rightarrow> bool" where
  "launching StOpen = True"
| "launching StStore = True"
| "launching StSpawn = True"
| "launching _ = False"

fun before_end :: "cpc \<Rightarrow> bool" where
  "before_end SpConn = True"
| "before_end SpLock = True"
| "before_end SpCheck = True"
| "before_end SpSend = True"
| "before_end _ = False"

fun waiting :: "cpc \<Rightarrow> bool" where
  "waiting (SpWait _) = True"
| "waiting (SpWaited _) = True"
| "waiting SpStore = True"
| "waiting _ = False"

fun stopping :: "cpc \<Rightarrow> bool" where
  "stopping SpSent = True"
| "stopping (SpFailed _) = True"
| "stopping (SpClose _) = True"
| "stopping (SpThrow _) = True"
| "stopping p = (before_end p \<or> waiting p)"

lemma launching_cases: "launching p \<longleftrightarrow> p = StOpen \<or> p = StStore \<or> p = StSpawn"
  by (cases p) simp_all

section \<open>The invariants\<close>

definition inv_mutex :: "session \<Rightarrow> bool" where
  "inv_mutex s \<longleftrightarrow> (\<forall>c. (ls_write_mu s = Some c) = holds (ls_pc s c))"

definition launchers :: "(caller \<Rightarrow> cpc) \<Rightarrow> caller set" where
  "launchers f = {c. launching (f c)}"

definition inv_start :: "session \<Rightarrow> bool" where
  "inv_start s \<longleftrightarrow>
     (launchers (ls_pc s) = {} \<or> (\<exists>c. launchers (ls_pc s) = {c})) \<and>
     (launchers (ls_pc s) \<noteq> {} \<longleftrightarrow> ls_reader s = RNone \<and> ls_state s \<noteq> Idle) \<and>
     (ls_state s = Idle \<or> ls_state s = Starting \<longrightarrow> ls_reader s = RNone) \<and>
     (\<forall>c. ls_pc s c = StOpen \<or> ls_pc s c = StStore \<longrightarrow> ls_state s = Starting) \<and>
     (\<forall>c. ls_pc s c = StSpawn \<longrightarrow> ls_state s \<noteq> Idle \<and> ls_state s \<noteq> Starting)"

definition inv_stop :: "session \<Rightarrow> bool" where
  "inv_stop s \<longleftrightarrow>
     (\<forall>c c'. stopping (ls_pc s c) \<longrightarrow> stopping (ls_pc s c') \<longrightarrow> c = c') \<and>
     (\<forall>c. stopping (ls_pc s c) \<longrightarrow> ls_state s = Stopping \<or> ls_state s = Stopped) \<and>
     (\<forall>c. ls_pc s c = SpWait False \<or> ls_pc s c = SpWaited False \<longrightarrow> ls_state s = Stopped)"

definition inv_wire :: "session \<Rightarrow> bool" where
  "inv_wire s \<longleftrightarrow>
     (EndSignal \<in> set (ls_wire s) \<longrightarrow> ls_state s = Stopping \<or> ls_state s = Stopped) \<and>
     (\<forall>c. before_end (ls_pc s c) \<longrightarrow> EndSignal \<notin> set (ls_wire s)) \<and>
     (\<forall>c d. ls_pc s c = WrSend d \<longrightarrow> EndSignal \<notin> set (ls_wire s))"

definition inv_callback :: "session \<Rightarrow> bool" where
  "inv_callback s \<longleftrightarrow>
     (ls_pc s 0 \<noteq> CIdle \<longrightarrow> in_callback (ls_reader s)) \<and>
     (stopping (ls_pc s 0) \<longrightarrow> ls_state s = Stopping \<and> \<not> waiting (ls_pc s 0))"

fun reader_ok :: "bool \<Rightarrow> rpc \<Rightarrow> bool" where
  "reader_ok fin RNone = (\<not> fin)"
| "reader_ok fin RStart = (\<not> fin)"
| "reader_ok fin (RCall ev k) =
     (case k of ToFetch \<Rightarrow> \<not> fin | ToRead \<Rightarrow> \<not> fin | ToComplete _ \<Rightarrow> fin | ToExit \<Rightarrow> fin \<and> shielded ev)"
| "reader_ok fin RFetch = (\<not> fin)"
| "reader_ok fin RRead = (\<not> fin)"
| "reader_ok fin (RFinish a) = (case a of AFail ev _ \<Rightarrow> shielded ev | AComplete _ \<Rightarrow> \<not> fin | AExit \<Rightarrow> True)"
| "reader_ok fin (RClose a) = (\<not> fin \<and> (case a of AFail ev _ \<Rightarrow> shielded ev | _ \<Rightarrow> True))"
| "reader_ok fin (RMark a) = (fin \<and> (case a of AFail ev _ \<Rightarrow> shielded ev | AComplete _ \<Rightarrow> True | AExit \<Rightarrow> False))"
| "reader_ok fin RSignal = fin"
| "reader_ok fin RGone = fin"

fun closing :: "rpc \<Rightarrow> bool" where
  "closing (RClose _) = True"
| "closing _ = False"

definition inv_reader :: "session \<Rightarrow> bool" where
  "inv_reader s \<longleftrightarrow>
     reader_ok (ls_finished s) (ls_reader s) \<and>
     (ls_finished s \<or> closing (ls_reader s) \<longrightarrow> ls_state s = Stopped) \<and>
     (ls_finished s \<longrightarrow> \<not> ls_conn s) \<and>
     (ls_done s \<longleftrightarrow> ls_reader s = RGone) \<and>
     (ls_terminal s \<longrightarrow> ls_finished s)"

text \<open>A terminal callback: the completion, or a failure reported after \<^verbatim>\<open>Finish\<close>.\<close>

fun terminal_event :: "bool \<times> event \<Rightarrow> bool" where
  "terminal_event (fin, OnRecognitionComplete _) = True"
| "terminal_event (fin, OnFail _ _) = fin"
| "terminal_event _ = False"

fun start_event :: "bool \<times> event \<Rightarrow> bool" where
  "start_event (fin, OnRecognitionStart _) = True"
| "start_event _ = False"

fun ending :: "rpc \<Rightarrow> bool" where
  "ending (RCall _ ToExit) = True"
| "ending (RFinish AExit) = True"
| "ending (RClose AExit) = True"
| "ending RSignal = True"
| "ending RGone = True"
| "ending _ = False"

definition inv_events :: "session \<Rightarrow> bool" where
  "inv_events s \<longleftrightarrow>
     (ls_events s = [] \<longleftrightarrow> ls_reader s = RNone \<or> ls_reader s = RStart) \<and>
     (ls_events s \<noteq> [] \<longrightarrow> start_event (hd (ls_events s))) \<and>
     (\<forall>x\<in>set (tl (ls_events s)). \<not> start_event x) \<and>
     (\<forall>x\<in>set (butlast (ls_events s)). \<not> terminal_event x) \<and>
     (ending (ls_reader s) \<or> (\<forall>x\<in>set (ls_events s). \<not> terminal_event x))"

definition inv_returns :: "session \<Rightarrow> bool" where
  "inv_returns s \<longleftrightarrow>
     (\<forall>c. (c, StopCall, Inr ()) \<in> set (ls_returns s) \<longrightarrow> c \<noteq> 0 \<longrightarrow> ls_state s = Stopped)"

section \<open>What the reader leaves alone\<close>

lemma reader_moves [simp]:
  "ls_state (goto p s) = ls_state s" "ls_state (enter ev k s) = ls_state s"
  "ls_conn (goto p s) = ls_conn s" "ls_conn (enter ev k s) = ls_conn s"
  "ls_write_mu (goto p s) = ls_write_mu s" "ls_write_mu (enter ev k s) = ls_write_mu s"
  "ls_done (goto p s) = ls_done s" "ls_done (enter ev k s) = ls_done s"
  "ls_terminal (goto p s) = ls_terminal s" "ls_terminal (enter ev k s) = ls_terminal s"
  "ls_finished (goto p s) = ls_finished s" "ls_finished (enter ev k s) = ls_finished s"
  "ls_pc (goto p s) = ls_pc s" "ls_pc (enter ev k s) = ls_pc s"
  "ls_wire (goto p s) = ls_wire s" "ls_wire (enter ev k s) = ls_wire s"
  "ls_returns (goto p s) = ls_returns s" "ls_returns (enter ev k s) = ls_returns s"
  "ls_events (goto p s) = ls_events s" "ls_events (enter ev k s) = ls_events s @ [(ls_finished s, ev)]"
  "ls_reader (goto p s) = p" "ls_reader (enter ev k s) = RCall ev k"
  by (simp_all add: goto_def enter_def)

lemmas routines = do_action_def after_finish_def after_mark_def after_call_def

lemma routine_moves [simp]:
  "ls_state (do_action a s) = ls_state s" "ls_state (after_finish r s) = ls_state s"
  "ls_state (after_mark r s) = ls_state s" "ls_state (after_call k s) = ls_state s"
  "ls_conn (do_action a s) = ls_conn s" "ls_conn (after_finish r s) = ls_conn s"
  "ls_conn (after_mark r s) = ls_conn s" "ls_conn (after_call k s) = ls_conn s"
  "ls_write_mu (do_action a s) = ls_write_mu s" "ls_write_mu (after_finish r s) = ls_write_mu s"
  "ls_write_mu (after_mark r s) = ls_write_mu s" "ls_write_mu (after_call k s) = ls_write_mu s"
  "ls_done (do_action a s) = ls_done s" "ls_done (after_finish r s) = ls_done s"
  "ls_done (after_mark r s) = ls_done s" "ls_done (after_call k s) = ls_done s"
  "ls_terminal (do_action a s) = ls_terminal s" "ls_terminal (after_finish r s) = ls_terminal s"
  "ls_terminal (after_mark r s) = ls_terminal s" "ls_terminal (after_call k s) = ls_terminal s"
  "ls_finished (do_action a s) = ls_finished s" "ls_finished (after_finish r s) = ls_finished s"
  "ls_finished (after_mark r s) = ls_finished s" "ls_finished (after_call k s) = ls_finished s"
  "ls_pc (do_action a s) = ls_pc s" "ls_pc (after_finish r s) = ls_pc s"
  "ls_pc (after_mark r s) = ls_pc s" "ls_pc (after_call k s) = ls_pc s"
  "ls_wire (do_action a s) = ls_wire s" "ls_wire (after_finish r s) = ls_wire s"
  "ls_wire (after_mark r s) = ls_wire s" "ls_wire (after_call k s) = ls_wire s"
  "ls_returns (do_action a s) = ls_returns s" "ls_returns (after_finish r s) = ls_returns s"
  "ls_returns (after_mark r s) = ls_returns s" "ls_returns (after_call k s) = ls_returns s"
  by (simp_all add: routines split: action.split routine.split rnext.split option.split)

lemma routine_reader [simp]:
  "ls_reader (do_action a s) \<noteq> RNone" "ls_reader (after_finish r s) \<noteq> RNone"
  "ls_reader (after_mark r s) \<noteq> RNone" "ls_reader (after_call k s) \<noteq> RNone"
  by (simp_all add: routines split: action.split routine.split rnext.split option.split)

lemma caller_moves [simp]:
  "ls_state (move_to c p s) = ls_state s" "ls_state (returns c f r s) = ls_state s"
  "ls_conn (move_to c p s) = ls_conn s" "ls_conn (returns c f r s) = ls_conn s"
  "ls_write_mu (move_to c p s) = ls_write_mu s" "ls_write_mu (returns c f r s) = ls_write_mu s"
  "ls_done (move_to c p s) = ls_done s" "ls_done (returns c f r s) = ls_done s"
  "ls_terminal (move_to c p s) = ls_terminal s" "ls_terminal (returns c f r s) = ls_terminal s"
  "ls_finished (move_to c p s) = ls_finished s" "ls_finished (returns c f r s) = ls_finished s"
  "ls_reader (move_to c p s) = ls_reader s" "ls_reader (returns c f r s) = ls_reader s"
  "ls_wire (move_to c p s) = ls_wire s" "ls_wire (returns c f r s) = ls_wire s"
  "ls_events (move_to c p s) = ls_events s" "ls_events (returns c f r s) = ls_events s"
  "ls_pc (move_to c p s) = (ls_pc s)(c := p)" "ls_pc (returns c f r s) = (ls_pc s)(c := CIdle)"
  "ls_returns (move_to c p s) = ls_returns s" "ls_returns (returns c f r s) = ls_returns s @ [(c, f, r)]"
  by (simp_all add: move_to_def returns_def)

section \<open>Preservation: the mutex\<close>

text \<open>The instance of an invariant at the thread that moves.\<close>

lemma inv_mutex_at:
  "inv_mutex s \<Longrightarrow> holds (ls_pc s c) \<Longrightarrow> ls_write_mu s = Some c"
  by (simp add: inv_mutex_def)

lemma launchers_upd [simp]:
  "launchers (f(c := p)) = (if launching p then insert c (launchers f) else launchers f - {c})"
  by (auto simp: launchers_def)

lemma launchers_only:
  "launchers f = {c} \<Longrightarrow> f x = StOpen \<Longrightarrow> x = c" "launchers f = {c} \<Longrightarrow> f x = StStore \<Longrightarrow> x = c"
  by (metis launchers_def launching.simps(1,2) mem_Collect_eq singletonD)+

lemma inv_start_at:
  assumes "inv_start s"
  shows "launching (ls_pc s c) \<Longrightarrow> launchers (ls_pc s) = {c} \<and> ls_reader s = RNone \<and> ls_state s \<noteq> Idle"
    and "\<not> launching (ls_pc s c) \<Longrightarrow> launchers (ls_pc s) - {c} = launchers (ls_pc s)"
    and "ls_pc s c = StOpen \<or> ls_pc s c = StStore \<Longrightarrow> ls_state s = Starting"
    and "ls_pc s c = StSpawn \<Longrightarrow> ls_state s \<noteq> Idle \<and> ls_state s \<noteq> Starting"
proof -
  show "launchers (ls_pc s) = {c} \<and> ls_reader s = RNone \<and> ls_state s \<noteq> Idle" if "launching (ls_pc s c)"
  proof -
    have "c \<in> launchers (ls_pc s)" using that by (simp add: launchers_def)
    with assms show ?thesis unfolding inv_start_def by (metis empty_iff singletonD)
  qed
qed (use assms in \<open>auto simp: inv_start_def launchers_def\<close>)

lemma inv_stop_at:
  assumes "inv_stop s"
  shows "stopping (ls_pc s c) \<Longrightarrow> stopping (ls_pc s c') \<longrightarrow> c' = c"
    and "stopping (ls_pc s c) \<Longrightarrow> ls_state s = Stopping \<or> ls_state s = Stopped"
  using assms unfolding inv_stop_def by blast+

lemma inv_mutex_step:
  assumes "session_step jl s s'" and "inv_mutex s"
  shows "inv_mutex s'"
  using assms(1)
proof cases
  case (by_start c)
  then show ?thesis using assms(2) inv_mutex_at [OF assms(2), of c]
    by cases (auto simp: inv_mutex_def may_call_def)
next
  case (by_write c)
  then show ?thesis using assms(2) inv_mutex_at [OF assms(2), of c]
    by cases (auto simp: inv_mutex_def may_call_def)
next
  case (by_stop c)
  then show ?thesis using assms(2) inv_mutex_at [OF assms(2), of c]
    by cases (auto simp: inv_mutex_def may_call_def)
next
  case by_watchdog
  then show ?thesis using assms(2) by cases (auto simp: inv_mutex_def)
next
  case by_reader
  then show ?thesis using assms(2) by cases (auto simp: inv_mutex_def)
qed

lemma inv_start_step:
  assumes "session_step jl s s'" and "inv_start s" and "inv_stop s"
  shows "inv_start s'"
  using assms(1)
proof cases
  case (by_start c)
  note at = inv_start_at [OF assms(2), of c]
  show ?thesis
    using by_start assms(2) at
    by cases (auto simp: inv_start_def may_call_def dest: launchers_only)
next
  case (by_write c)
  then show ?thesis using assms(2) inv_start_at(2) [OF assms(2), of c]
    by cases (auto simp: inv_start_def may_call_def)
next
  case (by_stop c)
  then show ?thesis using assms(2) inv_stop_at(2) [OF assms(3), of c] inv_start_at(2) [OF assms(2), of c]
    by cases (auto simp: inv_start_def may_call_def)
next
  case by_watchdog
  then show ?thesis using assms(2) by cases (auto simp: inv_start_def)
next
  case by_reader
  then show ?thesis using assms(2) by cases (auto simp: inv_start_def)
qed

lemma inv_stop_step:
  assumes "session_step jl s s'" and "inv_stop s" and "inv_start s"
  shows "inv_stop s'"
  using assms(1)
proof cases
  case (by_start c)
  then show ?thesis using assms(2) inv_start_at(1,3,4) [OF assms(3), of c]
    by cases (auto simp: inv_stop_def may_call_def)
next
  case (by_write c)
  then show ?thesis using assms(2)
    by cases (auto simp: inv_stop_def may_call_def)
next
  case (by_stop c)
  then show ?thesis using assms(2) inv_stop_at [OF assms(2), of c]
    by cases (auto simp: inv_stop_def may_call_def)
next
  case by_watchdog
  then show ?thesis using assms(2) by cases (auto simp: inv_stop_def)
next
  case by_reader
  then show ?thesis using assms(2) by cases (auto simp: inv_stop_def)
qed

end
