(* ===== verification/LifecycleReach.thy ===== *)
theory LifecycleReach
  imports LifecycleInv
begin

text \<open>
  The remaining invariants are kept by every step, and hold in every reachable state.
\<close>

section \<open>The wire\<close>

lemma inv_wire_step:
  assumes "session_step jl s s'" and "inv_wire s" and "inv_mutex s" and "inv_start s" and "inv_stop s"
  shows "inv_wire s'"
  using assms(1)
proof cases
  case (by_start c)
  then show ?thesis using assms(2) inv_start_at(3,4) [OF assms(4), of c]
    by cases (auto simp: inv_wire_def may_call_def)
next
  case (by_write c)
  have mu: "\<not> holds (ls_pc s c')" if "holds (ls_pc s c)" "c' \<noteq> c" for c'
    using inv_mutex_at [OF assms(3), of c] inv_mutex_at [OF assms(3), of c'] that by auto
  show ?thesis using by_write assms(2)
    by cases (auto simp: inv_wire_def may_call_def)
next
  case (by_stop c)
  have mu: "\<not> holds (ls_pc s c')" if "holds (ls_pc s c)" "c' \<noteq> c" for c'
    using inv_mutex_at [OF assms(3), of c] inv_mutex_at [OF assms(3), of c'] that by auto
  have alone: "\<not> stopping (ls_pc s c')" if "stopping (ls_pc s c)" "c' \<noteq> c" for c'
    using inv_stop_at(1) [OF assms(5), of c c'] that by blast
  have sending: "\<not> before_end (ls_pc s c') \<and> ls_pc s c' \<noteq> WrSend d" if "ls_pc s c = SpSend" "c' \<noteq> c" for c' d
    using alone [of c'] mu [of c'] that by (cases "ls_pc s c'") simp_all
  have unsent: "EndSignal \<notin> set (ls_wire s)" if "before_end (ls_pc s c)"
    using assms(2) that unfolding inv_wire_def by blast
  show ?thesis using by_stop assms(2) inv_stop_at(2) [OF assms(5), of c] unsent
    by cases (auto simp: inv_wire_def may_call_def sending)
next
  case by_watchdog
  then show ?thesis using assms(2) by cases (auto simp: inv_wire_def)
next
  case by_reader
  then show ?thesis using assms(2) by cases (auto simp: inv_wire_def)
qed

section \<open>Calls from a callback\<close>

lemma in_callback_iff: "in_callback p \<longleftrightarrow> (\<exists>ev k. p = RCall ev k)"
  by (cases p) simp_all

lemma inv_callback_start:
  assumes "start_call c s s'" and "inv_callback s" and "inv_start s"
  shows "inv_callback s'"
proof -
  have c0: "c \<noteq> 0" if "launching (ls_pc s c)"
    using that assms(2) inv_start_at(1) [OF assms(3) that] by (auto simp: inv_callback_def)
  have st: "ls_state s = Starting" if "ls_pc s c = StOpen \<or> ls_pc s c = StStore"
    using inv_start_at(3) [OF assms(3) that] .
  have idle: "ls_reader s = RNone" if "ls_state s = Idle"
    using assms(3) that by (simp add: inv_start_def)
  show ?thesis
    using assms(1)
  proof cases
    case start_begin
    then have "c \<noteq> 0" using idle by (auto simp: may_call_def)
    with start_begin assms(2) show ?thesis by (auto simp: inv_callback_def)
  next
    case start_failed
    with c0 st assms(2) show ?thesis by (simp add: inv_callback_def)
  next
    case start_running
    with c0 st assms(2) show ?thesis by (simp add: inv_callback_def)
  next
    case start_spawn
    with c0 assms(2) inv_start_at(1) [OF assms(3), of c] show ?thesis by (auto simp: inv_callback_def)
  next
    case start_opened
    with c0 assms(2) show ?thesis by (simp add: inv_callback_def)
  next
    case start_refused
    with assms(2) show ?thesis by (auto simp: inv_callback_def may_call_def)
  qed
qed

lemma inv_callback_step:
  assumes "session_step jl s s'" and "inv_callback s" and "inv_start s" and "inv_stop s"
  shows "inv_callback s'"
  using assms(1)
proof cases
  case (by_start c)
  then show ?thesis using assms(2,3) by (rule inv_callback_start)
next
  case (by_write c)
  then show ?thesis using assms(2) by cases (auto simp: inv_callback_def may_call_def)
next
  case (by_stop c)
  have c0: "c \<noteq> 0" if "waiting (ls_pc s c) \<or> stopping (ls_pc s c) \<and> ls_state s = Stopped"
  proof
    assume "c = 0"
    moreover have "stopping (ls_pc s c)" using that by (cases "ls_pc s c") auto
    ultimately show False using assms(2) that by (auto simp: inv_callback_def)
  qed
  show ?thesis using by_stop assms(2) inv_stop_at(1) [OF assms(4), of c 0] c0
    by cases (auto simp: inv_callback_def may_call_def)
next
  case by_watchdog
  then show ?thesis using assms(2) by cases (auto simp: inv_callback_def)
next
  case by_reader
  then show ?thesis using assms(2) by cases (auto simp: inv_callback_def)
qed

section \<open>The reader thread\<close>

lemma reader_ok_routines:
  "reader_ok False (ls_reader (do_action a s))"
  "reader_ok False (RClose r) \<or> reader_ok True (RFinish r) \<Longrightarrow> reader_ok True (ls_reader (after_finish r s))"
  "reader_ok True (RMark r) \<Longrightarrow> reader_ok True (ls_reader (after_mark r s))"
  "reader_ok fin (RCall ev k) \<Longrightarrow> reader_ok fin (ls_reader (after_call k s))"
  by (auto simp: routines panic_def split: action.split routine.splits rnext.splits option.split)

lemma routines_not_closing:
  "\<not> closing (ls_reader (do_action a s))" "\<not> closing (ls_reader (after_finish r s))"
  "\<not> closing (ls_reader (after_mark r s))" "\<not> closing (ls_reader (after_call k s))"
  "ls_reader (do_action a s) \<noteq> RGone" "ls_reader (after_finish r s) \<noteq> RGone"
  "ls_reader (after_mark r s) \<noteq> RGone" "ls_reader (after_call k s) \<noteq> RGone"
  by (auto simp: routines split: action.split routine.splits rnext.splits option.split)

lemma inv_reader_start:
  assumes "start_call c s s'" and "inv_reader s" and "inv_start s"
  shows "inv_reader s'"
proof -
  have new: "ls_reader s = RNone" if "launching (ls_pc s c)"
    using inv_start_at(1) [OF assms(3) that] by simp
  have st: "ls_state s = Starting" if "ls_pc s c = StOpen \<or> ls_pc s c = StStore"
    using inv_start_at(3) [OF assms(3) that] .
  show ?thesis
    using assms(1)
  proof cases
    case start_begin
    with assms(2) show ?thesis by (auto simp: inv_reader_def)
  next
    case start_failed
    with new st assms(2) show ?thesis by (auto simp: inv_reader_def)
  next
    case start_running
    with new st assms(2) show ?thesis by (auto simp: inv_reader_def)
  next
    case start_spawn
    with new assms(2) show ?thesis by (auto simp: inv_reader_def)
  next
    case start_opened
    with new st assms(2) show ?thesis by (auto simp: inv_reader_def)
  next
    case start_refused
    with assms(2) show ?thesis by (auto simp: inv_reader_def)
  qed
qed

lemma inv_reader_reader:
  assumes "reader_step jl s s'" and "inv_reader s"
  shows "inv_reader s'"
proof -
  note inv = assms(2) [unfolded inv_reader_def]
  have ok: "reader_ok (ls_finished s) (ls_reader s)" using inv by simp
  have safe: "inv_reader t"
    if "reader_ok (ls_finished t) (ls_reader t)" and "ls_reader t \<noteq> RGone" and "\<not> closing (ls_reader t)"
      and "ls_finished t \<longrightarrow> ls_state t = Stopped \<and> \<not> ls_conn t" and "\<not> ls_done t"
      and "ls_terminal t \<longrightarrow> ls_finished t" for t
    using that by (auto simp: inv_reader_def)
  show ?thesis
    using assms(1)
  proof cases
    case reader_start
    with inv show ?thesis by (auto intro!: safe)
  next
    case (callback_returns ev k)
    with inv ok show ?thesis
      by (auto intro!: safe reader_ok_routines(4) [of _ ev] simp: routines_not_closing simp del: reader_ok.simps)
  next
    case (callback_throws ev k)
    with inv show ?thesis by (auto intro!: safe simp: panic_def)
  next
    case reader_fetch
    with inv show ?thesis by (auto intro!: safe)
  next
    case reader_read
    with inv show ?thesis by (auto intro!: safe reader_ok_routines simp: routines_not_closing)
  next
    case (finish_store a)
    with inv show ?thesis by (cases a) (auto simp: inv_reader_def)
  next
    case (finish_again a)
    with inv ok show ?thesis
      by (auto intro!: safe reader_ok_routines simp: routines_not_closing simp del: reader_ok.simps)
  next
    case (finish_close a)
    have fin: "\<not> ls_finished s" using ok finish_close by simp
    have "reader_ok False (RClose a)" using ok fin finish_close by metis
    with finish_close inv fin show ?thesis
      by (auto intro!: safe reader_ok_routines simp: routines_not_closing simp del: reader_ok.simps)
  next
    case (mark_terminal a)
    have fin: "ls_finished s" using ok mark_terminal by simp
    have "reader_ok True (RMark a)" using ok fin mark_terminal by metis
    with mark_terminal inv fin show ?thesis
      by (auto intro!: safe reader_ok_routines simp: routines_not_closing simp del: reader_ok.simps)
  next
    case signal_done
    with inv show ?thesis by (auto simp: inv_reader_def)
  qed
qed

lemma inv_reader_step:
  assumes "session_step jl s s'" and "inv_reader s" and "inv_start s" and "inv_stop s"
  shows "inv_reader s'"
  using assms(1)
proof cases
  case (by_start c)
  then show ?thesis using assms(2,3) by (rule inv_reader_start)
next
  case (by_write c)
  then show ?thesis using assms(2) by cases (auto simp: inv_reader_def may_call_def)
next
  case (by_stop c)
  then show ?thesis using assms(2) inv_stop_at(2) [OF assms(4), of c]
    by cases (auto simp: inv_reader_def may_call_def)
next
  case by_watchdog
  then show ?thesis using assms(2) by cases (auto simp: inv_reader_def)
next
  case by_reader
  then show ?thesis using assms(2) by (rule inv_reader_reader)
qed

section \<open>Callbacks\<close>

lemma callback_kinds [simp]:
  "\<not> start_event (fin, panic w)" "\<not> start_event (fin, OnFail q e)" "\<not> start_event (fin, OnRecognitionComplete r)"
  "start_event (fin, OnRecognitionStart r)" "terminal_event (fin, panic w) = fin"
  "\<not> terminal_event (fin, OnRecognitionStart r)"
  by (simp_all add: panic_def)

lemma DispatchEvent_kind:
  "DispatchEvent resp = Some ev \<Longrightarrow> \<not> start_event (fin, ev) \<and> \<not> terminal_event (fin, ev) \<and> \<not> shielded ev"
  by (auto simp: DispatchEvent_def split: if_splits)

lemma shielded_kind: "shielded ev \<Longrightarrow> \<not> start_event (fin, ev) \<and> (terminal_event (True, ev))"
  by (cases ev) auto

text \<open>One more callback: it is not the first, and none before it was terminal.\<close>

lemma inv_events_enter:
  assumes "inv_events s" and "ls_reader s \<noteq> RNone" and "ls_reader s \<noteq> RStart" and "\<not> ending (ls_reader s)"
    and "\<not> start_event (ls_finished s, ev)" and "ending (RCall ev k) \<or> \<not> terminal_event (ls_finished s, ev)"
    and "ls_events s' = ls_events s @ [(ls_finished s, ev)]" and "ls_reader s' = RCall ev k"
  shows "inv_events s'"
  using assms by (cases "ls_events s") (auto simp: inv_events_def butlast_append)

lemma inv_events_same:
  assumes "inv_events s" and "ls_reader s \<noteq> RNone" and "ls_reader s \<noteq> RStart"
    and "ls_events s' = ls_events s" and "ls_reader s' \<noteq> RNone" and "ls_reader s' \<noteq> RStart"
    and "ending (ls_reader s) \<longrightarrow> ending (ls_reader s')"
  shows "inv_events s'"
  using assms by (auto simp: inv_events_def)


lemma inv_events_moves:
  assumes "inv_events s" and "ls_reader s \<noteq> RNone" and "ls_reader s \<noteq> RStart"
  shows "\<not> ending (ls_reader s) \<Longrightarrow> \<not> start_event (ls_finished s, ev) \<Longrightarrow>
      ending (RCall ev k) \<or> \<not> terminal_event (ls_finished s, ev) \<Longrightarrow> inv_events (enter ev k s)"
    and "p \<noteq> RNone \<Longrightarrow> p \<noteq> RStart \<Longrightarrow> ending (ls_reader s) \<longrightarrow> ending p \<Longrightarrow> inv_events (goto p s)"
  using inv_events_enter [OF assms, of ev k "enter ev k s"] inv_events_same [OF assms, of "goto p s"] by simp_all

lemma inv_events_routines:
  assumes "inv_events s" and "ls_reader s \<noteq> RNone" and "ls_reader s \<noteq> RStart"
  shows "ls_reader s = RRead \<Longrightarrow> \<not> ls_finished s \<Longrightarrow> inv_events (do_action a s)"
    and "reader_ok (ls_finished s) (RCall ev k) \<Longrightarrow> ls_reader s = RCall ev k \<Longrightarrow> inv_events (after_call k s)"
    and "(ls_reader s = RFinish r \<or> ls_reader s = RClose r) \<Longrightarrow> ls_finished s \<Longrightarrow>
      (\<forall>ev m. r = AFail ev m \<longrightarrow> shielded ev) \<Longrightarrow> inv_events (after_finish r s)"
    and "ls_reader s = RMark r \<Longrightarrow> ls_finished s \<Longrightarrow> (\<forall>ev m. r = AFail ev m \<longrightarrow> shielded ev) \<Longrightarrow>
      inv_events (after_mark r s)"
proof -
  note moves = inv_events_moves [OF assms]
  show "inv_events (do_action a s)" if "ls_reader s = RRead" "\<not> ls_finished s"
    using that DispatchEvent_kind
    by (auto simp: do_action_def split: action.split option.split intro!: moves)
  show "inv_events (after_call k s)" if "reader_ok (ls_finished s) (RCall ev k)" "ls_reader s = RCall ev k"
    using that by (auto simp: after_call_def split: rnext.split intro!: moves)
  show "inv_events (after_finish r s)" if "ls_reader s = RFinish r \<or> ls_reader s = RClose r" "ls_finished s"
    "\<forall>ev m. r = AFail ev m \<longrightarrow> shielded ev"
    using that shielded_kind by (auto simp: after_finish_def split: routine.split intro!: moves)
  show "inv_events (after_mark r s)" if "ls_reader s = RMark r" "ls_finished s"
    "\<forall>ev m. r = AFail ev m \<longrightarrow> shielded ev"
    using that shielded_kind DispatchEvent_kind
    by (auto simp: after_mark_def split: routine.split option.split intro!: moves)
qed

lemma inv_events_fields:
  "inv_events s \<Longrightarrow> ls_events t = ls_events s \<Longrightarrow> ls_reader t = ls_reader s \<Longrightarrow> inv_events t"
  by (simp add: inv_events_def)

lemma inv_events_reader:
  assumes "reader_step jl s s'" and "inv_events s" and "inv_reader s"
  shows "inv_events s'"
proof -
  have ok: "reader_ok (ls_finished s) (ls_reader s)" using assms(3) by (simp add: inv_reader_def)
  show ?thesis
    using assms(1)
  proof cases
    case reader_start
    with assms(2) show ?thesis by (auto simp: inv_events_def)
  next
    case (callback_returns ev k)
    with ok inv_events_routines(2) [OF assms(2), of ev k] show ?thesis by simp
  next
    case (callback_throws ev k)
    with ok have "k \<noteq> ToExit" by auto
    with callback_throws show ?thesis
      by (auto intro!: inv_events_same [OF assms(2)]) (cases k; simp)
  next
    case reader_fetch
    then show ?thesis by (auto intro!: inv_events_same [OF assms(2)])
  next
    case reader_read
    with ok inv_events_routines(1) [OF assms(2)] show ?thesis by simp
  next
    case (finish_store a)
    then show ?thesis by (auto intro!: inv_events_same [OF assms(2)]) (cases a; simp)
  next
    case (finish_again a)
    have "shielded ev" if "a = AFail ev m" for ev m using finish_again ok that by simp
    with finish_again inv_events_routines(3) [OF assms(2), of a] show ?thesis by auto
  next
    case (finish_close a)
    let ?t = "s \<lparr> ls_conn := False, ls_finished := True \<rparr>"
    have "inv_events ?t" by (rule inv_events_fields [OF assms(2)]) simp_all
    moreover have "shielded ev" if "a = AFail ev m" for ev m using finish_close ok that by simp
    ultimately show ?thesis using finish_close inv_events_routines(3) [of ?t a] by auto
  next
    case (mark_terminal a)
    let ?t = "s \<lparr> ls_terminal := True \<rparr>"
    have "inv_events ?t" by (rule inv_events_fields [OF assms(2)]) simp_all
    moreover have "shielded ev" if "a = AFail ev m" for ev m using mark_terminal ok that by simp
    ultimately show ?thesis using mark_terminal ok inv_events_routines(4) [of ?t a] by auto
  next
    case signal_done
    then show ?thesis by (auto intro!: inv_events_same [OF assms(2)])
  qed
qed

lemma inv_events_step:
  assumes "session_step jl s s'" and "inv_events s" and "inv_reader s" and "inv_start s"
  shows "inv_events s'"
  using assms(1)
proof cases
  case (by_start c)
  then show ?thesis using assms(2) inv_start_at(1) [OF assms(4), of c]
    by cases (auto intro: inv_events_fields simp: inv_events_def)
next
  case (by_write c)
  then show ?thesis using assms(2) by cases (auto intro: inv_events_fields)
next
  case (by_stop c)
  then show ?thesis using assms(2) by cases (auto intro: inv_events_fields)
next
  case by_watchdog
  then show ?thesis using assms(2) by cases (auto intro: inv_events_fields)
next
  case by_reader
  then show ?thesis using assms(2,3) by (rule inv_events_reader)
qed

section \<open>Returned calls\<close>

lemma inv_returns_step:
  assumes "session_step jl s s'" and "inv_returns s" and "inv_start s" and "inv_stop s"
  shows "inv_returns s'"
  using assms(1)
proof cases
  case (by_start c)
  then show ?thesis using assms(2) inv_start_at(3) [OF assms(3), of c]
    by cases (auto simp: inv_returns_def)
next
  case (by_write c)
  then show ?thesis using assms(2) by cases (auto simp: inv_returns_def)
next
  case (by_stop c)
  have late: "ls_state s = Stopped" if "ls_pc s c = SpWaited False"
    using assms(4) that by (auto simp: inv_stop_def)
  show ?thesis using by_stop assms(2) late
    by cases (auto simp: inv_returns_def)
next
  case by_watchdog
  then show ?thesis using assms(2) by cases (auto simp: inv_returns_def)
next
  case by_reader
  then show ?thesis using assms(2) by cases (auto simp: inv_returns_def)
qed

section \<open>Reachable states\<close>

lemmas invs = inv_mutex_def inv_start_def inv_stop_def inv_wire_def inv_callback_def inv_reader_def
  inv_events_def inv_returns_def

lemma reachable_invs:
  assumes "reachable jl s"
  shows "inv_mutex s" and "inv_start s" and "inv_stop s" and "inv_wire s" and "inv_callback s"
    and "inv_reader s" and "inv_events s" and "inv_returns s"
proof -
  have "inv_mutex s \<and> inv_start s \<and> inv_stop s \<and> inv_wire s \<and> inv_callback s \<and> inv_reader s \<and>
      inv_events s \<and> inv_returns s"
    using assms
  proof induction
    case reach_init
    show ?case by (simp add: invs initial_def launchers_def)
  next
    case (reach_step s s')
    note step = reach_step.hyps(2)
    show ?case
      using reach_step.IH inv_mutex_step [OF step] inv_start_step [OF step] inv_stop_step [OF step]
        inv_wire_step [OF step] inv_callback_step [OF step] inv_reader_step [OF step]
        inv_events_step [OF step] inv_returns_step [OF step]
      by blast
  qed
  then show "inv_mutex s" and "inv_start s" and "inv_stop s" and "inv_wire s" and "inv_callback s"
    and "inv_reader s" and "inv_events s" and "inv_returns s" by blast+
qed

end
