(* ===== verification/LifecycleSpec.thy ===== *)
theory LifecycleSpec
  imports LifecycleReach "HOL-Library.Sublist"
begin

text \<open>
  The abstract session an application may rely on, and the proof that the threads of
  \<open>Lifecycle\<close> implement it: every step of a thread is a step of the abstract session or
  leaves it alone.
\<close>

section \<open>Before the session runs\<close>

fun writing :: "cpc \<Rightarrow> bool" where
  "writing (WrConn _) = True"
| "writing (WrLock _) = True"
| "writing (WrCheck _) = True"
| "writing (WrSend _) = True"
| "writing _ = False"

definition inv_quiet :: "session \<Rightarrow> bool" where
  "inv_quiet s \<longleftrightarrow>
     (ls_state s = Idle \<or> ls_state s = Starting \<longrightarrow>
        ls_wire s = [] \<and> (\<forall>c. \<not> writing (ls_pc s c)))"

text \<open>The successful calls to \<^verbatim>\<open>Start\<close>.\<close>

definition starts :: "session \<Rightarrow> nat" where
  "starts s = length (filter (\<lambda>(c, f, r). f = StartCall \<and> r = Inr ()) (ls_returns s))"

definition inv_starts :: "session \<Rightarrow> bool" where
  "inv_starts s \<longleftrightarrow> starts s = (if ls_reader s = RNone then 0 else 1)"

lemma starts_simps [simp]:
  "starts (move_to c p s) = starts s" "starts (goto q s) = starts s" "starts (enter ev k s) = starts s"
  "starts (returns c f r s) = starts s + (if f = StartCall \<and> r = Inr () then 1 else 0)"
  "starts (do_action a s) = starts s" "starts (after_finish w s) = starts s"
  "starts (after_mark w s) = starts s" "starts (after_call k s) = starts s"
  "starts (s \<lparr> ls_state := st \<rparr>) = starts s" "starts (s \<lparr> ls_conn := b \<rparr>) = starts s"
  "starts (s \<lparr> ls_write_mu := mu \<rparr>) = starts s" "starts (s \<lparr> ls_wire := w' \<rparr>) = starts s"
  "starts (s \<lparr> ls_reader := q \<rparr>) = starts s" "starts (s \<lparr> ls_watchdogs := n \<rparr>) = starts s"
  "starts (s \<lparr> ls_done := b \<rparr>) = starts s" "starts (s \<lparr> ls_terminal := b \<rparr>) = starts s"
  "starts (s \<lparr> ls_finished := b \<rparr>) = starts s"
  by (simp_all add: starts_def)

lemma inv_starts_step:
  assumes "session_step jl s s'" and "inv_starts s" and "inv_start s"
  shows "inv_starts s'"
  using assms(1)
proof cases
  case (by_start c)
  then show ?thesis using assms(2) inv_start_at(1) [OF assms(3), of c]
    by cases (auto simp: inv_starts_def)
next
  case (by_write c)
  then show ?thesis using assms(2) by cases (auto simp: inv_starts_def)
next
  case (by_stop c)
  then show ?thesis using assms(2) by cases (auto simp: inv_starts_def)
next
  case by_watchdog
  then show ?thesis using assms(2) by cases (auto simp: inv_starts_def)
next
  case by_reader
  then show ?thesis using assms(2) by cases (auto simp: inv_starts_def)
qed

lemma inv_quiet_step:
  assumes "session_step jl s s'" and "inv_quiet s" and "inv_start s" and "inv_stop s"
  shows "inv_quiet s'"
  using assms(1)
proof cases
  case (by_start c)
  then show ?thesis using assms(2) inv_start_at(3) [OF assms(3), of c]
    by cases (auto simp: inv_quiet_def may_call_def)
next
  case (by_write c)
  have early: "ls_state s \<noteq> Idle \<and> ls_state s \<noteq> Starting" if "writing (ls_pc s c)"
    using assms(2) that by (auto simp: inv_quiet_def)
  show ?thesis using by_write assms(2) early by cases (auto simp: inv_quiet_def may_call_def)
next
  case (by_stop c)
  then show ?thesis using assms(2) inv_stop_at(2) [OF assms(4), of c]
    by cases (auto simp: inv_quiet_def may_call_def)
next
  case by_watchdog
  then show ?thesis using assms(2) by cases (auto simp: inv_quiet_def)
next
  case by_reader
  then show ?thesis using assms(2) by cases (auto simp: inv_quiet_def)
qed

lemma reachable_quiet:
  assumes "reachable jl s"
  shows "inv_quiet s" and "inv_starts s"
proof -
  have "inv_quiet s \<and> inv_starts s"
    using assms
  proof induction
    case reach_init
    show ?case by (simp add: inv_quiet_def inv_starts_def starts_def initial_def)
  next
    case (reach_step s s')
    show ?case
      using reach_step.IH inv_quiet_step [OF reach_step.hyps(2)] inv_starts_step [OF reach_step.hyps(2)]
        reachable_invs(2,3) [OF reach_step.hyps(1)] by blast
  qed
  then show "inv_quiet s" and "inv_starts s" by simp_all
qed

section \<open>The abstract session\<close>

text \<open>
  What an application may rely on: the lifecycle state and the frames sent, without threads,
  mutex, connection or callbacks.
\<close>

type_synonym contract = "rstate \<times> wire_frame list"

inductive spec_step :: "contract \<Rightarrow> contract \<Rightarrow> bool" where
  spec_stutter: "spec_step x x"
| spec_start: "spec_step (Idle, []) (Starting, [])"
| spec_start_failed: "spec_step (Starting, []) (Idle, [])"
| spec_run: "spec_step (Starting, []) (Running, [])"
| spec_audio: "Running \<le> st \<Longrightarrow> EndSignal \<notin> set w \<Longrightarrow> spec_step (st, w) (st, w @ [Audio d])"
| spec_stop: "spec_step (Running, w) (Stopping, w)"
| spec_end: "Stopping \<le> st \<Longrightarrow> EndSignal \<notin> set w \<Longrightarrow> spec_step (st, w) (st, w @ [EndSignal])"
| spec_stopped: "Running \<le> st \<Longrightarrow> spec_step (st, w) (Stopped, w)"

inductive_cases spec_step_elim: "spec_step (st, w) (st', w')"

definition abs_session :: "session \<Rightarrow> contract" where
  "abs_session s = (ls_state s, ls_wire s)"

inductive spec_reachable :: "contract \<Rightarrow> bool" where
  spec_init: "spec_reachable (Idle, [])"
| spec_more: "spec_reachable x \<Longrightarrow> spec_step x y \<Longrightarrow> spec_reachable y"

lemma running_le [simp]: "Running \<le> st \<longleftrightarrow> st \<noteq> Idle \<and> st \<noteq> Starting"
  by (cases st) (simp_all add: rstate_order)

text \<open>Properties of the abstract session.\<close>

lemma spec_end_last:
  assumes "spec_reachable x"
  shows "EndSignal \<notin> set (butlast (snd x))" and "EndSignal \<in> set (snd x) \<Longrightarrow> Stopping \<le> fst x"
    and "\<not> Running \<le> fst x \<Longrightarrow> snd x = []"
proof -
  have "EndSignal \<notin> set (butlast (snd x)) \<and> (EndSignal \<in> set (snd x) \<longrightarrow> Stopping \<le> fst x) \<and>
      (\<not> Running \<le> fst x \<longrightarrow> snd x = [])"
    using assms
  proof induction
    case spec_init
    show ?case by simp
  next
    case (spec_more x y)
    from spec_more.hyps(2) spec_more.IH show ?case by cases (auto simp: butlast_append)
  qed
  then show "EndSignal \<notin> set (butlast (snd x))" and "EndSignal \<in> set (snd x) \<Longrightarrow> Stopping \<le> fst x"
    and "\<not> Running \<le> fst x \<Longrightarrow> snd x = []" by blast+
qed

lemma spec_monotone:
  assumes "spec_step x y" and "Running \<le> fst x"
  shows "fst x \<le> fst y \<and> prefix (snd x) (snd y)"
  using assms(1)
proof cases
  case (spec_stop w)
  then show ?thesis by (simp add: rstate_order)
next
  case (spec_stopped st w)
  then show ?thesis by (cases st) (simp_all add: rstate_order)
qed (use assms(2) in \<open>auto simp: rstate_order\<close>)

text \<open>
  Any implementation: its states, its steps, the view an application has of a state, and the
  states that occur.
\<close>

locale recognizer_contract =
  fixes start :: 's and moves_to :: "'s \<Rightarrow> 's \<Rightarrow> bool" and view :: "'s \<Rightarrow> contract" and occurs :: "'s \<Rightarrow> bool"
  assumes start_view: "view start = (Idle, [])"
    and occurs_run: "occurs s \<Longrightarrow> moves_to\<^sup>*\<^sup>* start s"
    and occurs_step: "occurs s \<Longrightarrow> moves_to s s' \<Longrightarrow> occurs s'"
    and start_occurs: "occurs start"
    and view_step: "occurs s \<Longrightarrow> moves_to s s' \<Longrightarrow> spec_step (view s) (view s')"
begin

lemma run_occurs: "moves_to\<^sup>*\<^sup>* s s' \<Longrightarrow> occurs s \<Longrightarrow> occurs s'"
  by (induction rule: rtranclp_induct) (auto intro: occurs_step)

lemma view_reachable: "occurs s \<Longrightarrow> spec_reachable (view s)"
proof -
  assume "occurs s"
  then have "moves_to\<^sup>*\<^sup>* start s" by (rule occurs_run)
  then show ?thesis
  proof (induction rule: rtranclp_induct)
    case base
    show ?case using spec_init by (simp add: start_view)
  next
    case (step t u)
    then show ?case using view_step run_occurs [OF step.hyps(1) start_occurs] by (blast intro: spec_more)
  qed
qed

text \<open>A running session only moves on, and what was sent stays sent.\<close>

lemma run_monotone:
  assumes "moves_to\<^sup>*\<^sup>* s s'" and "occurs s" and "Running \<le> fst (view s)"
  shows "fst (view s) \<le> fst (view s') \<and> prefix (snd (view s)) (snd (view s'))"
  using assms(1)
proof (induction rule: rtranclp_induct)
  case base
  show ?case by simp
next
  case (step t u)
  have "Running \<le> fst (view t)" using step.IH assms(3) by (meson order_trans)
  then have "fst (view t) \<le> fst (view u) \<and> prefix (snd (view t)) (snd (view u))"
    using spec_monotone view_step [OF run_occurs [OF step.hyps(1) assms(2)] step.hyps(2)] by blast
  then show ?case using step.IH by (meson order_trans prefix_order.order_trans)
qed

lemma end_signal_last:
  assumes "occurs s"
  shows "EndSignal \<notin> set (butlast (snd (view s)))" and "EndSignal \<in> set (snd (view s)) \<Longrightarrow> Stopping \<le> fst (view s)"
    and "\<not> Running \<le> fst (view s) \<Longrightarrow> snd (view s) = []"
  using spec_end_last [OF view_reachable [OF assms]] by blast+

end

section \<open>Refinement\<close>

lemma step_refines:
  assumes "reachable jl s" and "session_step jl s s'"
  shows "spec_step (abs_session s) (abs_session s')"
proof -
  note inv = reachable_invs [OF assms(1)]
  note quiet = reachable_quiet(1) [OF assms(1)]
  have early: "ls_wire s = []" if "ls_state s = Idle \<or> ls_state s = Starting"
    using quiet that by (simp add: inv_quiet_def)
  show ?thesis
    using assms(2)
  proof cases
    case (by_start c)
    then show ?thesis using inv_start_at(3) [OF inv(2), of c] early
      by cases (auto simp: abs_session_def intro: spec_step.intros)
  next
    case (by_write c)
    have sending: "ls_state s \<noteq> Idle \<and> ls_state s \<noteq> Starting \<and> EndSignal \<notin> set (ls_wire s)"
      if "ls_pc s c = WrSend d" for d
    proof -
      have "writing (ls_pc s c)" using that by simp
      then show ?thesis using quiet inv(4) that unfolding inv_quiet_def inv_wire_def by blast
    qed
    show ?thesis using by_write sending
      by cases (auto simp: abs_session_def intro!: spec_step.intros)
  next
    case (by_stop c)
    have unsent: "EndSignal \<notin> set (ls_wire s)" if "before_end (ls_pc s c)"
      using inv(4) that unfolding inv_wire_def by blast
    show ?thesis using by_stop unsent inv_stop_at(2) [OF inv(3), of c]
      by cases (auto simp: abs_session_def intro!: spec_step.intros)
  next
    case by_watchdog
    then show ?thesis by cases (auto simp: abs_session_def intro: spec_step.intros)
  next
    case by_reader
    have live: "Running \<le> ls_state s" if "ls_reader s \<noteq> RNone"
      using inv(2) that by (auto simp: inv_start_def)
    show ?thesis using by_reader live
      by cases (auto simp: abs_session_def intro: spec_step.intros)
  qed
qed

lemma reachable_session_run: "reachable jl s \<Longrightarrow> (session_step jl)\<^sup>*\<^sup>* initial s"
  by (induction rule: reachable.induct) (auto intro: rtranclp.rtrancl_into_rtrancl)

interpretation recognizer: recognizer_contract initial "session_step jl" abs_session "reachable jl"
  for jl :: json_lib
proof unfold_locales
  show "abs_session initial = (Idle, [])" by (simp add: abs_session_def initial_def)
qed (auto intro: reachable_session_run reachable.intros step_refines)

end
