(* ===== verification/LifecycleLive.thy ===== *)
theory LifecycleLive
  imports LifecycleSpec
begin

text \<open>
  No thread inside the SDK is shut out for good: whoever holds the write mutex can give it
  back, the reader past \<^verbatim>\<open>Finish\<close> can come to its end, a call from a callback never waits
  for the reader, and so every call can return without a new call being made.
\<close>

section \<open>Threads inside the SDK\<close>

text \<open>A step of a thread that is inside an operation, or of the reader: no new call begins.\<close>

inductive internal_step :: "json_lib \<Rightarrow> session \<Rightarrow> session \<Rightarrow> bool" for jl :: json_lib where
  int_start: "ls_pc s c \<noteq> CIdle \<Longrightarrow> start_call c s s' \<Longrightarrow> internal_step jl s s'"
| int_write: "ls_pc s c \<noteq> CIdle \<Longrightarrow> write_call c s s' \<Longrightarrow> internal_step jl s s'"
| int_stop: "ls_pc s c \<noteq> CIdle \<Longrightarrow> stop_call c s s' \<Longrightarrow> internal_step jl s s'"
| int_reader: "reader_step jl s s' \<Longrightarrow> internal_step jl s s'"

lemma internal_session: "internal_step jl s s' \<Longrightarrow> session_step jl s s'"
  by (auto elim!: internal_step.cases intro: session_step.intros)

text \<open>A run on behalf of thread \<open>c\<close>: only it and the holder of the mutex may move.\<close>

definition run_for :: "json_lib \<Rightarrow> caller \<Rightarrow> session \<Rightarrow> session \<Rightarrow> bool" where
  "run_for jl c s s' \<longleftrightarrow>
     (internal_step jl)\<^sup>*\<^sup>* s s' \<and>
     (ls_reader s \<noteq> RNone \<longrightarrow> ls_reader s' = ls_reader s) \<and>
     ls_done s' = ls_done s \<and> ls_finished s' = ls_finished s \<and> ls_terminal s' = ls_terminal s \<and>
     (\<forall>x. x \<noteq> c \<longrightarrow> \<not> holds (ls_pc s x) \<longrightarrow> ls_pc s' x = ls_pc s x)"

lemma run_for_refl: "run_for jl c s s"
  by (simp add: run_for_def)

lemma run_for_trans: "run_for jl c s t \<Longrightarrow> run_for jl c t u \<Longrightarrow> run_for jl c s u"
  unfolding run_for_def by (auto intro: rtranclp_trans)

lemma reachable_run: "(internal_step jl)\<^sup>*\<^sup>* s s' \<Longrightarrow> reachable jl s \<Longrightarrow> reachable jl s'"
  by (induction rule: rtranclp_induct) (auto intro: reach_step internal_session)

fun steps_left :: "cpc \<Rightarrow> nat" where
  "steps_left CIdle = 0"
| "steps_left StOpen = 3"
| "steps_left StStore = 2"
| "steps_left StSpawn = 1"
| "steps_left (WrConn _) = 4"
| "steps_left (WrLock _) = 3"
| "steps_left (WrCheck _) = 2"
| "steps_left (WrSend _) = 1"
| "steps_left SpConn = 9"
| "steps_left SpLock = 8"
| "steps_left SpCheck = 7"
| "steps_left SpSend = 6"
| "steps_left SpSent = 5"
| "steps_left (SpFailed _) = 5"
| "steps_left (SpClose _) = 4"
| "steps_left (SpThrow _) = 3"
| "steps_left (SpWait _) = 4"
| "steps_left (SpWaited _) = 3"
| "steps_left SpStore = 2"

lemma run_for_step:
  assumes "internal_step jl s s'" and "ls_reader s \<noteq> RNone \<longrightarrow> ls_reader s' = ls_reader s"
    and "ls_done s' = ls_done s" and "ls_finished s' = ls_finished s" and "ls_terminal s' = ls_terminal s"
    and "\<And>x. x \<noteq> c \<Longrightarrow> ls_pc s' x = ls_pc s x"
  shows "run_for jl c s s'"
  using assms by (auto simp: run_for_def)

fun locked_out :: "cpc \<Rightarrow> bool" where
  "locked_out (WrLock _) = True"
| "locked_out SpLock = True"
| "locked_out _ = False"

fun in_wait :: "cpc \<Rightarrow> bool" where
  "in_wait (SpWait _) = True"
| "in_wait _ = False"

lemma steps_left_0 [simp]: "steps_left p = 0 \<longleftrightarrow> p = CIdle"
  by (cases p) simp_all

text \<open>Thread \<open>c\<close> gets one step closer to its return.\<close>

definition advances :: "json_lib \<Rightarrow> caller \<Rightarrow> session \<Rightarrow> bool" where
  "advances jl c s \<longleftrightarrow>
     (\<exists>s'. run_for jl c s s' \<and> steps_left (ls_pc s' c) < steps_left (ls_pc s c) \<and>
        (holds (ls_pc s c) \<longrightarrow> holds (ls_pc s' c) \<or> ls_write_mu s' = None))"

lemma advances_by:
  assumes "start_call c s s' \<or> write_call c s s' \<or> stop_call c s s'" and "ls_pc s c \<noteq> CIdle"
    and "ls_reader s \<noteq> RNone \<longrightarrow> ls_reader s' = ls_reader s"
    and "ls_done s' = ls_done s \<and> ls_finished s' = ls_finished s \<and> ls_terminal s' = ls_terminal s"
    and "\<forall>x. x \<noteq> c \<longrightarrow> ls_pc s' x = ls_pc s x" and "steps_left (ls_pc s' c) < steps_left (ls_pc s c)"
    and "holds (ls_pc s c) \<longrightarrow> holds (ls_pc s' c) \<or> ls_write_mu s' = None"
  shows "advances jl c s"
proof -
  have "internal_step jl s s'" using assms(1,2) by (auto intro: internal_step.intros)
  then have "run_for jl c s s'" using assms(3-5) by (auto intro!: run_for_step)
  then show ?thesis using assms(6,7) unfolding advances_def by blast
qed

lemmas advances_start = advances_by [OF disjI1]
lemmas advances_write = advances_by [OF disjI2, OF disjI1]
lemmas advances_stop = advances_by [OF disjI2, OF disjI2]

lemma start_advances:
  assumes "launching (ls_pc s c)" and "ls_reader s = RNone"
  shows "advances jl c s"
  using assms
  by (cases "ls_pc s c")
    (auto intro: advances_start [OF start_opened] advances_start [OF start_running]
       advances_start [OF start_spawn])

lemma write_advances:
  assumes "writing (ls_pc s c)" and "locked_out (ls_pc s c) \<Longrightarrow> ls_write_mu s = None"
  shows "advances jl c s"
  using assms
  by (cases "ls_pc s c"; cases "ls_conn s"; cases "ls_state s = Running")
    (auto intro: advances_write [OF write_conn] advances_write [OF write_no_conn]
       advances_write [OF write_lock] advances_write [OF write_recheck] advances_write [OF write_stopped]
       advances_write [OF write_send [where r = "Inr ()"]])

lemma stop_advances:
  assumes "stopping (ls_pc s c)" and "\<not> in_wait (ls_pc s c)"
    and "locked_out (ls_pc s c) \<Longrightarrow> ls_write_mu s = None"
  shows "advances jl c s"
proof (cases "ls_pc s c")
  case SpConn
  then show ?thesis
    by (cases "ls_conn s") (auto intro: advances_stop [OF stop_conn] advances_stop [OF stop_no_conn])
next
  case SpCheck
  then show ?thesis
    by (cases "ls_state s = Stopped")
      (auto intro: advances_stop [OF stop_already] advances_stop [OF stop_check])
next
  case SpSent
  then show ?thesis
    by (cases "c = 0") (auto intro: advances_stop [OF stop_in_callback] advances_stop [OF stop_wait])
next
  case (SpFailed e)
  then show ?thesis
    by (cases "ls_state s = Stopped")
      (auto intro: advances_stop [OF stop_failed_finished] advances_stop [OF stop_failed])
next
  case (SpWaited b)
  then show ?thesis
    by (cases b) (auto intro: advances_stop [OF waited_store] advances_stop [OF waited])
qed (use assms in \<open>auto intro: advances_stop [OF stop_lock] advances_stop [OF stop_sent]
  advances_stop [OF stop_close] advances_stop [OF stop_throw] advances_stop [OF stop_store]\<close>)

lemma inside_cases: "p \<noteq> CIdle \<Longrightarrow> launching p \<or> writing p \<or> stopping p"
  by (cases p) simp_all

lemma caller_advances:
  assumes "reachable jl s" and "ls_pc s c \<noteq> CIdle" and "\<not> in_wait (ls_pc s c)"
    and "locked_out (ls_pc s c) \<Longrightarrow> ls_write_mu s = None"
  shows "advances jl c s"
  using inside_cases [OF assms(2)] start_advances [of s c jl] write_advances [of s c jl]
    stop_advances [of s c jl] assms(3,4) inv_start_at(1) [OF reachable_invs(2) [OF assms(1)], of c]
  by blast

text \<open>Whoever holds the mutex gives it back.\<close>

lemma mutex_released:
  assumes "reachable jl s" and "ls_write_mu s = Some h"
  shows "\<exists>s'. run_for jl h s s' \<and> ls_write_mu s' = None"
  using assms
proof (induction "steps_left (ls_pc s h)" arbitrary: s rule: less_induct)
  case less
  have hold: "holds (ls_pc s h)" using reachable_invs(1) [OF less.prems(1)] less.prems(2) by (metis inv_mutex_def)
  have "advances jl h s"
    using hold by (intro caller_advances [OF less.prems(1)]) (cases "ls_pc s h"; simp)+
  then obtain t where t: "run_for jl h s t" "steps_left (ls_pc t h) < steps_left (ls_pc s h)"
    "holds (ls_pc t h) \<or> ls_write_mu t = None"
    using hold unfolding advances_def by blast
  show ?case
  proof (cases "ls_write_mu t = None")
    case True
    then show ?thesis using t(1) by blast
  next
    case False
    have reach: "reachable jl t" using t(1) less.prems(1) reachable_run unfolding run_for_def by blast
    have "ls_write_mu t = Some h" using t(3) False inv_mutex_at [OF reachable_invs(1) [OF reach]] by blast
    with less.hyps [OF t(2) reach] t(1) show ?thesis by (blast intro: run_for_trans)
  qed
qed

lemma run_for_holder:
  assumes "run_for jl h s t" and "holds (ls_pc s h)"
  shows "run_for jl c s t"
  using assms unfolding run_for_def by metis

lemma run_for_reachable: "run_for jl c s t \<Longrightarrow> reachable jl s \<Longrightarrow> reachable jl t"
  using reachable_run unfolding run_for_def by blast

lemma run_for_keeps: "run_for jl h s t \<Longrightarrow> c \<noteq> h \<Longrightarrow> \<not> holds (ls_pc s c) \<Longrightarrow> ls_pc t c = ls_pc s c"
  by (simp add: run_for_def)

lemma returns_or_waits:
  assumes "reachable jl s"
  shows "\<exists>s'. run_for jl c s s' \<and> (ls_pc s' c = CIdle \<or> in_wait (ls_pc s' c))"
  using assms
proof (induction "steps_left (ls_pc s c)" arbitrary: s rule: less_induct)
  case less
  show ?case
  proof (cases "ls_pc s c = CIdle \<or> in_wait (ls_pc s c)")
    case True
    then show ?thesis using run_for_refl by blast
  next
    case False
    have "\<exists>t. run_for jl c s t \<and> ls_pc t c = ls_pc s c \<and> (locked_out (ls_pc t c) \<longrightarrow> ls_write_mu t = None)"
    proof (cases "locked_out (ls_pc s c) \<and> ls_write_mu s \<noteq> None")
      case True
      then obtain h where h: "ls_write_mu s = Some h" by blast
      obtain t where t: "run_for jl h s t" "ls_write_mu t = None"
        using mutex_released [OF less.prems h] by blast
      have hold: "holds (ls_pc s h)" using reachable_invs(1) [OF less.prems] h by (metis inv_mutex_def)
      have "\<not> holds (ls_pc s c)" using True by (cases "ls_pc s c") simp_all
      then have same: "ls_pc t c = ls_pc s c" using run_for_keeps [OF t(1), of c] hold by auto
      show ?thesis using run_for_holder [OF t(1) hold, of c] same t(2) by (intro exI [of _ t] conjI impI)
    next
      case False
      then show ?thesis by (intro exI [of _ s]) (auto simp: run_for_refl)
    qed
    then obtain t where t: "run_for jl c s t" "ls_pc t c = ls_pc s c"
      "locked_out (ls_pc t c) \<longrightarrow> ls_write_mu t = None" by blast
    have reach: "reachable jl t" using run_for_reachable [OF t(1) less.prems] .
    have "advances jl c t" using False t by (intro caller_advances [OF reach]) simp_all
    then obtain u where u: "run_for jl c t u" "steps_left (ls_pc u c) < steps_left (ls_pc s c)"
      unfolding advances_def t(2) by blast
    obtain v where v: "run_for jl c u v" "ls_pc v c = CIdle \<or> in_wait (ls_pc v c)"
      using less.hyps [OF u(2) run_for_reachable [OF u(1) reach]] by blast
    have "run_for jl c s v" by (rule run_for_trans [OF t(1) run_for_trans [OF u(1) v(1)]])
    with v(2) show ?thesis by blast
  qed
qed

text \<open>The reader, once past \<^verbatim>\<open>Finish\<close>, comes to its end.\<close>

fun reader_left :: "rpc \<Rightarrow> nat" where
  "reader_left (RFinish (AFail _ _)) = 6"
| "reader_left (RMark _) = 5"
| "reader_left (RCall _ (ToComplete _)) = 4"
| "reader_left (RCall _ _) = 3"
| "reader_left (RFinish AExit) = 2"
| "reader_left RSignal = 1"
| "reader_left _ = 0"

lemma routine_done:
  "reader_ok True (RFinish a) \<Longrightarrow> reader_left (ls_reader (after_finish a s)) < reader_left (RFinish a)"
  "reader_ok True (RMark a) \<Longrightarrow> reader_left (ls_reader (after_mark a s)) < reader_left (RMark a)"
  "reader_ok True (RCall ev k) \<Longrightarrow> reader_left (ls_reader (after_call k s)) < reader_left (RCall ev k)"
  by (auto simp: routines split: routine.splits rnext.splits option.split)

lemma reader_advances:
  assumes "reachable jl s" and "ls_finished s" and "\<not> ls_done s" and "in_callback (ls_reader s) \<Longrightarrow> ls_pc s 0 = CIdle"
  shows "\<exists>s'. reader_step jl s s' \<and> reader_left (ls_reader s') < reader_left (ls_reader s) \<and>
    ls_finished s' \<and> ls_pc s' = ls_pc s"
proof -
  have ok: "reader_ok True (ls_reader s)" and "ls_reader s \<noteq> RGone"
    using reachable_invs(6) [OF assms(1)] assms(2,3) by (auto simp: inv_reader_def)
  have go: ?thesis if "reader_step jl s t" "reader_left (ls_reader t) < reader_left (ls_reader s)"
    "ls_finished t" "ls_pc t = ls_pc s" for t
    using that by blast
  show ?thesis
  proof (cases "ls_reader s")
    case (RCall ev k)
    have "reader_step jl s (after_call k s)" using RCall assms(4) by (intro callback_returns) simp_all
    from go [OF this] show ?thesis using RCall ok assms(2) routine_done(3) [of ev k s] by simp
  next
    case (RFinish a)
    have "reader_step jl s (after_finish a s)" using RFinish assms(2) by (intro finish_again)
    from go [OF this] show ?thesis using RFinish ok assms(2) routine_done(1) [of a s] by simp
  next
    case (RMark a)
    from go [OF mark_terminal [OF RMark]] show ?thesis using RMark ok assms(2) routine_done(2) [of a] by simp
  next
    case RSignal
    from go [OF signal_done [OF this]] show ?thesis using RSignal assms(2) by simp
  qed (use ok \<open>ls_reader s \<noteq> RGone\<close> in simp_all)
qed

lemma callback_never_waits:
  assumes "reachable jl s"
  shows "\<not> in_wait (ls_pc s 0)"
proof
  assume wait: "in_wait (ls_pc s 0)"
  then have "stopping (ls_pc s 0)" and "waiting (ls_pc s 0)" by (cases "ls_pc s 0"; simp)+
  then show False using reachable_invs(5) [OF assms] by (simp add: inv_callback_def)
qed

lemma callback_call_returns:
  assumes "reachable jl s" and "ls_reader s \<noteq> RNone"
  shows "\<exists>s'. (internal_step jl)\<^sup>*\<^sup>* s s' \<and> ls_pc s' 0 = CIdle \<and> ls_reader s' = ls_reader s \<and>
    ls_finished s' = ls_finished s \<and> ls_done s' = ls_done s \<and> (\<forall>c. c \<noteq> 0 \<longrightarrow> \<not> holds (ls_pc s c) \<longrightarrow> ls_pc s' c = ls_pc s c)"
proof -
  obtain t where t: "run_for jl 0 s t" "ls_pc t 0 = CIdle \<or> in_wait (ls_pc t 0)"
    using returns_or_waits [OF assms(1)] by blast
  have "\<not> in_wait (ls_pc t 0)"
    using callback_never_waits [OF run_for_reachable [OF t(1) assms(1)]] .
  with t assms(2) show ?thesis unfolding run_for_def by blast
qed

lemma reader_finishes:
  assumes "reachable jl s" and "ls_finished s"
  shows "\<exists>s'. (internal_step jl)\<^sup>*\<^sup>* s s' \<and> ls_done s' \<and>
    (\<forall>c. c \<noteq> 0 \<longrightarrow> \<not> holds (ls_pc s c) \<longrightarrow> ls_pc s' c = ls_pc s c)"
  using assms
proof (induction "reader_left (ls_reader s)" arbitrary: s rule: less_induct)
  case less
  show ?case
  proof (cases "ls_done s")
    case True
    then show ?thesis by blast
  next
    case False
    have "ls_reader s \<noteq> RNone"
      using reachable_invs(6) [OF less.prems(1)] less.prems(2) by (auto simp: inv_reader_def)
    then obtain t where t: "(internal_step jl)\<^sup>*\<^sup>* s t" "ls_pc t 0 = CIdle" "ls_reader t = ls_reader s"
      "ls_finished t = ls_finished s" "ls_done t = ls_done s"
      "\<forall>c. c \<noteq> 0 \<longrightarrow> \<not> holds (ls_pc s c) \<longrightarrow> ls_pc t c = ls_pc s c"
      using callback_call_returns [OF less.prems(1)] by blast
    have reach: "reachable jl t" using reachable_run [OF t(1) less.prems(1)] .
    obtain u where u: "reader_step jl t u" "reader_left (ls_reader u) < reader_left (ls_reader s)"
      "ls_finished u" "ls_pc u = ls_pc t"
      using reader_advances [OF reach] t False less.prems(2) by metis
    have su: "(internal_step jl)\<^sup>*\<^sup>* s u" using t(1) int_reader [OF u(1)] by simp
    from less.hyps [OF u(2) reachable_run [OF su less.prems(1)] u(3)] obtain v where
      "(internal_step jl)\<^sup>*\<^sup>* u v" "ls_done v" "\<forall>c. c \<noteq> 0 \<longrightarrow> \<not> holds (ls_pc u c) \<longrightarrow> ls_pc v c = ls_pc u c"
      by blast
    with su t(6) u(4) show ?thesis by (metis rtranclp_trans)
  qed
qed

lemma spwait_left:
  assumes "ls_pc s c = SpWait b" and "ls_done s \<or> \<not> ls_terminal s"
  shows "\<exists>s'. (internal_step jl)\<^sup>*\<^sup>* s s' \<and> ls_pc s' c = CIdle"
proof -
  have last: "\<exists>s'. (internal_step jl)\<^sup>*\<^sup>* t s' \<and> ls_pc s' c = CIdle" if "ls_pc t c = SpStore" for t
  proof -
    have "internal_step jl t (returns c StopCall (Inr ()) (t \<lparr> ls_state := Stopped \<rparr>))"
      using that by (auto intro!: int_stop stop_store)
    then show ?thesis by (intro exI conjI, rule r_into_rtranclp) simp_all
  qed
  have waited: "\<exists>s'. (internal_step jl)\<^sup>*\<^sup>* t s' \<and> ls_pc s' c = CIdle" if "ls_pc t c = SpWaited b" for t
  proof (cases b)
    case True
    then have "internal_step jl t (move_to c SpStore t)" using that by (auto intro!: int_stop waited_store)
    moreover have "ls_pc (move_to c SpStore t) c = SpStore" by simp
    ultimately show ?thesis using last by (blast intro: converse_rtranclp_into_rtranclp)
  next
    case False
    then have "internal_step jl t (returns c StopCall (Inr ()) t)" using that by (auto intro!: int_stop waited)
    then show ?thesis by (intro exI conjI, rule r_into_rtranclp) simp_all
  qed
  have "\<exists>t. internal_step jl s t \<and> ls_pc t c = SpWaited b"
  proof (cases "ls_done s")
    case True
    then have "internal_step jl s (move_to c (SpWaited b) s)" using assms(1) by (auto intro!: int_stop wait_done)
    then show ?thesis by (intro exI conjI) auto
  next
    case False
    then have "internal_step jl s (move_to c (SpWaited b) (s \<lparr> ls_conn := False \<rparr>))"
      using assms by (auto intro!: int_stop wait_timeout)
    then show ?thesis by (intro exI conjI) auto
  qed
  with waited show ?thesis by (blast intro: converse_rtranclp_into_rtranclp)
qed

text \<open>Hence every call can return.\<close>

lemma caller_returns:
  assumes "reachable jl s"
  shows "\<exists>s'. (internal_step jl)\<^sup>*\<^sup>* s s' \<and> ls_pc s' c = CIdle"
proof -
  obtain t where t: "(internal_step jl)\<^sup>*\<^sup>* s t" "ls_pc t c = CIdle \<or> in_wait (ls_pc t c)"
    using returns_or_waits [OF assms, of c] unfolding run_for_def by blast
  have reach: "reachable jl t" using reachable_run [OF t(1) assms] .
  have "\<exists>s'. (internal_step jl)\<^sup>*\<^sup>* t s' \<and> ls_pc s' c = CIdle"
  proof (cases "ls_pc t c = CIdle")
    case True
    then show ?thesis by blast
  next
    case False
    with t(2) obtain b where wait: "ls_pc t c = SpWait b" by (cases "ls_pc t c") auto
    then have c0: "c \<noteq> 0" using callback_never_waits [OF reach] by (metis in_wait.simps(1))
    show ?thesis
    proof (cases "ls_terminal t")
      case True
      then have "ls_finished t" using reachable_invs(6) [OF reach] by (simp add: inv_reader_def)
      then obtain u where "(internal_step jl)\<^sup>*\<^sup>* t u" "ls_done u" "ls_pc u c = SpWait b"
        using reader_finishes [OF reach] c0 wait by force
      then show ?thesis using spwait_left [of u c b jl] by (blast intro: rtranclp_trans)
    next
      case False
      then show ?thesis using spwait_left [OF wait] by blast
    qed
  qed
  with t(1) show ?thesis by (blast intro: rtranclp_trans)
qed

end
