(* ===== verification/LifecycleProps.thy ===== *)
theory LifecycleProps
  imports LifecycleLive Wire
begin

text \<open>
  What the lifecycle promises: refinement of the abstract session, the frames the service
  gets, the order of the callbacks, what a returned \<^verbatim>\<open>Stop\<close> means, and that every call can
  return.
\<close>

section \<open>A sample run\<close>

text \<open>
  Thread 1 starts the session, sends one packet and stops; the reader then finds the
  connection at its end. Only this thread and the reader move.
\<close>

definition snapshot ::
  "rstate \<Rightarrow> bool \<Rightarrow> caller option \<Rightarrow> bool \<Rightarrow> cpc \<Rightarrow> rpc \<Rightarrow> wire_frame list \<Rightarrow> (bool \<times> event) list \<Rightarrow>
   (caller \<times> call \<times> unit result) list \<Rightarrow> session" where
  "snapshot st conn mu fin p q w ev rets =
     \<lparr> ls_state = st, ls_conn = conn, ls_write_mu = mu, ls_done = (q = RGone), ls_terminal = False,
       ls_finished = fin, ls_pc = (\<lambda>_. CIdle)(1 := p), ls_reader = q, ls_watchdogs = 0, ls_wire = w,
       ls_events = ev, ls_returns = rets \<rparr>"

definition sample_start :: event where
  "sample_start = OnRecognitionStart (start_response ''v'' None)"

definition sample_running :: session where
  "sample_running = snapshot Running True None False CIdle RStart [] [] [(1, StartCall, Inr ())]"

definition sample_sending :: session where
  "sample_sending = snapshot Running True (Some 1) False (WrSend [7]) RStart [] [] [(1, StartCall, Inr ())]"

definition sample_sent :: session where
  "sample_sent = snapshot Running True None False CIdle RStart [Audio [7]] []
     [(1, StartCall, Inr ()), (1, WriteCall, Inr ())]"

definition sample_waiting :: session where
  "sample_waiting = snapshot Stopping True None False (SpWait True) RStart [Audio [7], EndSignal] []
     [(1, StartCall, Inr ()), (1, WriteCall, Inr ())]"

definition sample_gone :: session where
  "sample_gone = snapshot Stopped False None True (SpWait True) RGone [Audio [7], EndSignal]
     [(False, sample_start)] [(1, StartCall, Inr ()), (1, WriteCall, Inr ())]"

definition sample_over :: session where
  "sample_over = snapshot Stopped False None True CIdle RGone [Audio [7], EndSignal]
     [(False, sample_start)] [(1, StartCall, Inr ()), (1, WriteCall, Inr ()), (1, StopCall, Inr ())]"

lemma fun_upd_same: "((\<lambda>_. CIdle)(1 := CIdle)) = (\<lambda>_. CIdle)"
  by auto

lemmas snap = snapshot_def sample_running_def sample_sending_def sample_sent_def sample_waiting_def
  sample_gone_def sample_over_def initial_def moves may_call_def fun_upd_same after_finish_def
  after_call_def sample_start_def

lemma start_to: "reachable jl s \<Longrightarrow> start_call c s t \<Longrightarrow> t = u \<Longrightarrow> reachable jl u"
  and write_to: "reachable jl s \<Longrightarrow> write_call c s t \<Longrightarrow> t = u \<Longrightarrow> reachable jl u"
  and stop_to: "reachable jl s \<Longrightarrow> stop_call c s t \<Longrightarrow> t = u \<Longrightarrow> reachable jl u"
  and reader_to: "reachable jl s \<Longrightarrow> reader_step jl s t \<Longrightarrow> t = u \<Longrightarrow> reachable jl u"
  by (auto intro: reach_step session_step.intros)

lemma sample_running_reached: "reachable jl sample_running"
proof -
  have "reachable jl (snapshot Starting False None False StOpen RNone [] [] [])"
    by (rule start_to [OF reach_init start_begin [of 1]]) (simp_all add: snap)
  then have "reachable jl (snapshot Starting True None False StStore RNone [] [] [])"
    by (rule start_to [OF _ start_opened [of _ 1]]) (simp_all add: snap)
  then have "reachable jl (snapshot Running True None False StSpawn RNone [] [] [])"
    by (rule start_to [OF _ start_running [of _ 1]]) (simp_all add: snap)
  then show ?thesis
    by (rule start_to [OF _ start_spawn [of _ 1]]) (simp_all add: snap)
qed

lemma sample_sending_reached: "reachable jl sample_sending"
proof -
  let ?st = "\<lambda>mu p. snapshot Running True mu False p RStart [] [] [(1, StartCall, Inr ())]"
  have "reachable jl (?st None (WrConn [7]))"
    by (rule write_to [OF sample_running_reached write_begin [of 1 _ "[7]"]]) (simp_all add: snap)
  then have "reachable jl (?st None (WrLock [7]))"
    by (rule write_to [OF _ write_conn [of _ 1 "[7]"]]) (simp_all add: snap)
  then have "reachable jl (?st (Some 1) (WrCheck [7]))"
    by (rule write_to [OF _ write_lock [of _ 1 "[7]"]]) (simp_all add: snap)
  then show ?thesis
    by (rule write_to [OF _ write_recheck [of _ 1 "[7]"]]) (simp_all add: snap)
qed

lemma sample_send_step: "session_step jl sample_sending sample_sent"
  using by_write [OF write_send [of sample_sending 1 "[7]" "Inr ()"]] by (simp add: snap)

lemma sample_waiting_reached: "reachable jl sample_waiting"
proof -
  let ?st = "\<lambda>mu p w. snapshot Stopping True mu False p RStart w [] [(1, StartCall, Inr ()), (1, WriteCall, Inr ())]"
  have "reachable jl sample_sent" by (rule reach_step [OF sample_sending_reached sample_send_step])
  then have "reachable jl (?st None SpConn [Audio [7]])"
    by (rule stop_to [OF _ stop_begin [of 1]]) (simp_all add: snap)
  then have "reachable jl (?st None SpLock [Audio [7]])"
    by (rule stop_to [OF _ stop_conn [of _ 1]]) (simp_all add: snap)
  then have "reachable jl (?st (Some 1) SpCheck [Audio [7]])"
    by (rule stop_to [OF _ stop_lock [of _ 1]]) (simp_all add: snap)
  then have "reachable jl (?st (Some 1) SpSend [Audio [7]])"
    by (rule stop_to [OF _ stop_check [of _ 1]]) (simp_all add: snap)
  then have "reachable jl (?st None SpSent [Audio [7], EndSignal])"
    by (rule stop_to [OF _ stop_sent [of _ 1]]) (simp_all add: snap)
  then show ?thesis
    by (rule stop_to [OF _ stop_wait [of _ 1]]) (simp_all add: snap)
qed

lemma sample_gone_reached: "reachable jl sample_gone"
proof -
  let ?st = "\<lambda>q. snapshot Stopping True None False (SpWait True) q [Audio [7], EndSignal]
     [(False, sample_start)] [(1, StartCall, Inr ()), (1, WriteCall, Inr ())]"
  let ?over = "\<lambda>conn fin q. snapshot Stopped conn None fin (SpWait True) q [Audio [7], EndSignal]
     [(False, sample_start)] [(1, StartCall, Inr ()), (1, WriteCall, Inr ())]"
  have "reachable jl (?st (RCall sample_start ToFetch))"
    by (rule reader_to [OF sample_waiting_reached reader_start [of _ _ "''v''" None]]) (simp_all add: snap)
  then have "reachable jl (?st RFetch)"
    by (rule reader_to [OF _ callback_returns [of _ sample_start ToFetch]]) (simp_all add: snap)
  then have "reachable jl (?st RRead)"
    by (rule reader_to [OF _ reader_fetch]) (simp_all add: snap)
  then have "reachable jl (?st (RFinish AExit))"
    by (rule reader_to [OF _ reader_read [of _ _ "(- 1, None, None)"]])
      (simp_all add: snap read_action_stopping(1) do_action_def)
  then have "reachable jl (?over True False (RClose AExit))"
    by (rule reader_to [OF _ finish_store [of _ AExit]]) (simp_all add: snap)
  then have "reachable jl (?over False True RSignal)"
    by (rule reader_to [OF _ finish_close [of _ AExit]]) (simp_all add: snap)
  then show ?thesis
    by (rule reader_to [OF _ signal_done]) (simp_all add: snap)
qed

lemma sample_over_reached: "reachable jl sample_over"
proof -
  let ?st = "\<lambda>p. snapshot Stopped False None True p RGone [Audio [7], EndSignal]
     [(False, sample_start)] [(1, StartCall, Inr ()), (1, WriteCall, Inr ())]"
  have "reachable jl (?st (SpWaited True))"
    by (rule stop_to [OF sample_gone_reached wait_done [of _ 1 True]]) (simp_all add: snap)
  then have "reachable jl (?st SpStore)"
    by (rule stop_to [OF _ waited_store [of _ 1]]) (simp_all add: snap)
  then show ?thesis
    by (rule stop_to [OF _ stop_store [of _ 1]]) (simp_all add: snap)
qed

section \<open>The promises\<close>

text \<open>Once the reader is gone nothing calls back.\<close>

lemma reader_gone_quiet:
  assumes "session_step jl s s'" and "ls_done s" and "ls_reader s = RGone"
  shows "ls_done s' \<and> ls_events s' = ls_events s"
  using assms(1)
proof cases
  case (by_start c)
  then show ?thesis using assms(2) by cases auto
next
  case (by_write c)
  then show ?thesis using assms(2) by cases auto
next
  case (by_stop c)
  then show ?thesis using assms(2) by cases auto
next
  case by_watchdog
  then show ?thesis using assms(2) by cases auto
next
  case by_reader
  then show ?thesis using assms(3) by cases auto
qed

text \<open>
  Claim C1. Refinement: whatever threads call \<^verbatim>\<open>Start\<close>, \<^verbatim>\<open>Write\<close> and \<^verbatim>\<open>Stop\<close> and however
  their steps and those of the reader, its callbacks and the stop watchdogs interleave, every
  step is a step of the abstract session (a session that is started at most once, gets audio
  only between its start and its one end signal, and ends by being stopped) or leaves it
  alone; once the session runs its state only moves forward and no frame is taken back.
\<close>

theorem session_refines:
  assumes "reachable jl s" and "session_step jl s s'"
  shows "spec_step (abs_session s) (abs_session s') \<and> spec_reachable (abs_session s') \<and>
    (ls_state s \<ge> Running \<longrightarrow> ls_state s \<le> ls_state s' \<and> prefix (ls_wire s) (ls_wire s'))"
proof -
  have step: "spec_step (abs_session s) (abs_session s')" by (rule step_refines [OF assms])
  have reach: "reachable jl s'" using assms by (rule reach_step)
  show ?thesis
    using step recognizer.view_reachable [OF reach] spec_monotone [OF step] by (simp add: abs_session_def)
qed

theorem session_refines_witness:
  "spec_step (Running, []) (Running, [Audio [7]]) \<and> spec_reachable (Running, [Audio [7]])"
  using session_refines [where jl = "doc_lib []", OF sample_sending_reached sample_send_step]
  by (simp add: abs_session_def sample_sending_def sample_sent_def snapshot_def)

text \<open>
  Claim C2. The wire: in every reachable state nothing has been sent while the session is idle
  or starting, at most one end signal has been sent and nothing after it, an end signal is on
  the wire only when the session is stopping or stopped, and at most one thread is sending.
\<close>

theorem wire_protocol:
  assumes "reachable jl s"
  shows "(ls_state s < Running \<longrightarrow> ls_wire s = []) \<and>
    EndSignal \<notin> set (butlast (ls_wire s)) \<and>
    (EndSignal \<in> set (ls_wire s) \<longrightarrow> Stopping \<le> ls_state s) \<and>
    (\<forall>c c'. holds (ls_pc s c) \<longrightarrow> holds (ls_pc s c') \<longrightarrow> c = c')"
proof -
  have "c = c'" if "holds (ls_pc s c)" and "holds (ls_pc s c')" for c c'
    using inv_mutex_at [OF reachable_invs(1) [OF assms] that(1)]
      inv_mutex_at [OF reachable_invs(1) [OF assms] that(2)] by simp
  moreover have "ls_wire s = []" if "ls_state s < Running"
    using recognizer.end_signal_last(3) [OF assms] that unfolding abs_session_def fst_conv snd_conv not_le by blast
  ultimately show ?thesis
    using recognizer.end_signal_last(1,2) [OF assms] by (simp add: abs_session_def)
qed

theorem wire_protocol_witness:
  "EndSignal \<notin> set (butlast [Audio [7], EndSignal]) \<and> Stopping \<le> Stopped"
  using wire_protocol [where jl = "doc_lib []", OF sample_over_reached] by (simp add: sample_over_def snapshot_def)

text \<open>
  Claim C3. Callbacks: the first one is the start and it comes once, at most one start of the
  session succeeds, no callback follows a terminal one (the completion, or a failure reported
  after the session was finished); and once the reader has signalled its end the session is
  stopped, its connection closed, and no step of any thread begins another callback.
\<close>

theorem callbacks_ordered:
  assumes "reachable jl s"
  shows "(ls_events s \<noteq> [] \<longrightarrow> start_event (hd (ls_events s))) \<and>
    (\<forall>x\<in>set (tl (ls_events s)). \<not> start_event x) \<and>
    starts s \<le> 1 \<and>
    (\<forall>x\<in>set (butlast (ls_events s)). \<not> terminal_event x) \<and>
    (ls_done s \<longrightarrow> ls_state s = Stopped \<and> \<not> ls_conn s \<and>
      (\<forall>s'. session_step jl s s' \<longrightarrow> ls_done s' \<and> ls_events s' = ls_events s))"
proof -
  have started: "starts s \<le> 1"
    using reachable_quiet(2) [OF assms] by (simp add: inv_starts_def)
  have over: "ls_state s = Stopped \<and> \<not> ls_conn s" if "ls_done s"
    using reachable_invs(6) [OF assms] that by (auto simp: inv_reader_def)
  have quiet: "ls_done s' \<and> ls_events s' = ls_events s" if "ls_done s" and "session_step jl s s'" for s'
    using reader_gone_quiet [OF that(2,1)] reachable_invs(6) [OF assms] that(1) by (simp add: inv_reader_def)
  show ?thesis
    using reachable_invs(7) [OF assms] started over quiet unfolding inv_events_def by blast
qed

theorem callbacks_ordered_witness:
  "start_event (False, sample_start) \<and>
   session_step (doc_lib []) sample_over (returns 2 StopCall (Inl not_running) sample_over) \<and>
   ls_events (returns 2 StopCall (Inl not_running) sample_over) = [(False, sample_start)]"
proof -
  have over: "ls_events sample_over = [(False, sample_start)]" "ls_done sample_over" "ls_state sample_over = Stopped"
    "ls_pc sample_over 2 = CIdle"
    by (simp_all add: sample_over_def snapshot_def)
  then have step: "session_step (doc_lib []) sample_over (returns 2 StopCall (Inl not_running) sample_over)"
    by (intro by_stop [of 2] stop_refused) (simp_all add: may_call_def)
  have "start_event (False, sample_start)"
    using callbacks_ordered [OF sample_over_reached [of "doc_lib []"]] over(1) by simp
  moreover have "ls_events (returns 2 StopCall (Inl not_running) sample_over) = ls_events sample_over"
    using callbacks_ordered [OF sample_over_reached [of "doc_lib []"]] over(2) step by blast
  ultimately show ?thesis using step over(1) by simp
qed

text \<open>
  Claim C4. Stopping: a call to \<^verbatim>\<open>Stop\<close> that has returned without an exception, from any
  thread but a callback, leaves the session stopped; the application code inside a callback
  is never made to wait for the reader thread it runs on, even when it calls \<^verbatim>\<open>Stop\<close>; and
  at most one call has got past the check of the running state, which it has left behind.
\<close>

theorem stop_stops:
  assumes "reachable jl s"
  shows "((c, StopCall, Inr ()) \<in> set (ls_returns s) \<longrightarrow> c \<noteq> 0 \<longrightarrow> ls_state s = Stopped) \<and>
    \<not> in_wait (ls_pc s 0) \<and>
    (stopping (ls_pc s c) \<longrightarrow> Stopping \<le> ls_state s \<and> (\<forall>c'. stopping (ls_pc s c') \<longrightarrow> c' = c))"
proof -
  have "ls_state s = Stopped" if "(c, StopCall, Inr ()) \<in> set (ls_returns s)" and "c \<noteq> 0"
    using reachable_invs(8) [OF assms] that unfolding inv_returns_def by blast
  moreover have "c' = c" if "stopping (ls_pc s c)" and "stopping (ls_pc s c')" for c'
    using inv_stop_at(1) [OF reachable_invs(3) [OF assms] that(1)] that(2) by simp
  moreover have "Stopping \<le> ls_state s" if "stopping (ls_pc s c)"
    using inv_stop_at(2) [OF reachable_invs(3) [OF assms] that] by simp
  ultimately show ?thesis using callback_never_waits [OF assms] by blast
qed

theorem stop_stops_witness:
  "ls_state sample_over = Stopped \<and> \<not> in_wait (ls_pc sample_waiting 0) \<and> Stopping \<le> ls_state sample_waiting"
  using stop_stops [OF sample_over_reached [of "doc_lib []"], of 1]
    stop_stops [OF sample_waiting_reached [of "doc_lib []"], of 1]
  by (simp add: sample_over_def sample_waiting_def snapshot_def)

text \<open>
  Claim C5. No call is shut out: from every reachable state, whatever operation thread \<open>c\<close> is
  in and wherever the other threads are, there is a run in which no thread makes a new call
  and after which the operation has returned. In particular neither the write mutex nor the
  wait of \<^verbatim>\<open>Stop\<close> for the reader can deadlock, with calls from callbacks included.
\<close>

theorem calls_return:
  assumes "reachable jl s"
  shows "\<exists>s'. (internal_step jl)\<^sup>*\<^sup>* s s' \<and> ls_pc s' c = CIdle"
  using assms by (rule caller_returns)

theorem calls_return_witness:
  "ls_pc sample_waiting 1 = SpWait True \<and>
   (\<exists>s'. (internal_step (doc_lib []))\<^sup>*\<^sup>* sample_waiting s' \<and> ls_pc s' 1 = CIdle)"
  using calls_return [OF sample_waiting_reached [of "doc_lib []"], of 1]
  by (simp add: sample_waiting_def snapshot_def)

end
