(* ===== verification/V3Lifecycle.thy ===== *)
theory V3Lifecycle
  imports LifecycleSpec V3Speech
begin

text \<open>
  The lifecycle of the v3 recognizer, from its own copy of the code in \<^verbatim>\<open>src/v3.cc\<close>: for every
  control point of \<^verbatim>\<open>Start\<close>, \<^verbatim>\<open>Write\<close>, \<^verbatim>\<open>Stop\<close> and the reader what the next access to the
  shared state does. The two copies have the same steps, so that the promises of the
  lifecycle hold for both recognizers.
\<close>

section \<open>Operations\<close>

definition Start_v3 :: "caller \<Rightarrow> session \<Rightarrow> session \<Rightarrow> bool" where
  "Start_v3 c s s' \<longleftrightarrow>
     (case ls_pc s c of
        CIdle \<Rightarrow> may_call c s \<and>
          s' = (if ls_state s = Idle then move_to c StOpen (s \<lparr> ls_state := Starting \<rparr>)
                else returns c StartCall (Inl (ASRError kErrAlreadyStarted ''recognizer already started'')) s)
      | StOpen \<Rightarrow>
          s' = move_to c StStore (s \<lparr> ls_conn := True \<rparr>) \<or>
          (\<exists>e left. s' = returns c StartCall (Inl e) (s \<lparr> ls_state := Idle, ls_conn := left \<rparr>))
      | StStore \<Rightarrow> s' = move_to c StSpawn (s \<lparr> ls_state := Running \<rparr>)
      | StSpawn \<Rightarrow> s' = returns c StartCall (Inr ()) (s \<lparr> ls_reader := RStart \<rparr>)
      | _ \<Rightarrow> False)"

definition Write_v3 :: "caller \<Rightarrow> session \<Rightarrow> session \<Rightarrow> bool" where
  "Write_v3 c s s' \<longleftrightarrow>
     (case ls_pc s c of
        CIdle \<Rightarrow> may_call c s \<and>
          (if ls_state s \<noteq> Running then s' = returns c WriteCall (Inl not_running) s
           else \<exists>data. s' = move_to c (WrConn data) s)
      | WrConn data \<Rightarrow>
          s' = (if \<not> ls_conn s then returns c WriteCall (Inl no_connection) s else move_to c (WrLock data) s)
      | WrLock data \<Rightarrow> ls_write_mu s = None \<and> s' = move_to c (WrCheck data) (s \<lparr> ls_write_mu := Some c \<rparr>)
      | WrCheck data \<Rightarrow>
          s' = (if ls_state s \<noteq> Running
                then returns c WriteCall (Inl not_running) (s \<lparr> ls_write_mu := None \<rparr>)
                else move_to c (WrSend data) s)
      | WrSend data \<Rightarrow>
          (\<exists>err. s' = returns c WriteCall
             (case err of None \<Rightarrow> Inr ()
              | Some e \<Rightarrow> Inl (ASRError kErrWriteFailed (''write audio data failed: '' @ e)))
             (s \<lparr> ls_wire := ls_wire s @ [Audio data], ls_write_mu := None \<rparr>))
      | _ \<Rightarrow> False)"

definition Stop_v3 :: "caller \<Rightarrow> session \<Rightarrow> session \<Rightarrow> bool" where
  "Stop_v3 c s s' \<longleftrightarrow>
     (case ls_pc s c of
        CIdle \<Rightarrow> may_call c s \<and>
          s' = (if ls_state s = Running then move_to c SpConn (s \<lparr> ls_state := Stopping \<rparr>)
                else returns c StopCall (Inl not_running) s)
      | SpConn \<Rightarrow>
          s' = (if \<not> ls_conn s then returns c StopCall (Inl no_connection) (s \<lparr> ls_state := Stopped \<rparr>)
                else move_to c SpLock s)
      | SpLock \<Rightarrow> ls_write_mu s = None \<and> s' = move_to c SpCheck (s \<lparr> ls_write_mu := Some c \<rparr>)
      | SpCheck \<Rightarrow>
          s' = (if ls_state s = Stopped then move_to c (SpWait False) (s \<lparr> ls_write_mu := None \<rparr>)
                else move_to c SpSend s)
      | SpSend \<Rightarrow>
          (\<exists>err. s' = move_to c (case err of None \<Rightarrow> SpSent | Some e \<Rightarrow> SpFailed e)
             (s \<lparr> ls_wire := ls_wire s @ [EndSignal], ls_write_mu := None \<rparr>))
      | SpFailed send_err \<Rightarrow>
          s' = move_to c (if ls_state s = Stopped then SpWait False else SpClose send_err) s
      | SpClose send_err \<Rightarrow> s' = move_to c (SpThrow send_err) (s \<lparr> ls_conn := False \<rparr>)
      | SpThrow send_err \<Rightarrow>
          s' = returns c StopCall (Inl (ASRError kErrWriteFailed (''send end signal failed: '' @ send_err)))
                 (s \<lparr> ls_state := Stopped \<rparr>)
      | SpSent \<Rightarrow>
          s' = (if c = 0 then returns c StopCall (Inr ()) (s \<lparr> ls_watchdogs := Suc (ls_watchdogs s) \<rparr>)
                else move_to c (SpWait True) s)
      | SpWait b \<Rightarrow>
          if ls_done s then s' = move_to c (SpWaited b) s
          else \<not> ls_terminal s \<and> s' = move_to c (SpWaited b) (s \<lparr> ls_conn := False \<rparr>)
      | SpWaited b \<Rightarrow> s' = (if b then move_to c SpStore s else returns c StopCall (Inr ()) s)
      | SpStore \<Rightarrow> s' = returns c StopCall (Inr ()) (s \<lparr> ls_state := Stopped \<rparr>)
      | _ \<Rightarrow> False)"

section \<open>The reader\<close>

definition DispatchEvent_v3 :: "SpeechRecognitionResponse \<Rightarrow> event option" where
  "DispatchEvent_v3 resp =
     (let slice = rr_slice_type (sr_result resp)
      in if sr_final_flag resp = 1 \<and> slice \<noteq> 2 then None
         else if slice = 0 then Some (OnSentenceBegin resp)
         else if slice = 1 then Some (OnRecognitionResultChange resp)
         else if slice = 2 then Some (OnSentenceEnd resp) else None)"

text \<open>The start callback carries the speaker context that \<^verbatim>\<open>Connect\<close> has stored.\<close>

definition start_response_v3 :: "SpeechRecognizer_v3 \<Rightarrow> SpeechRecognitionResponse" where
  "start_response_v3 self =
     \<lparr> sr_code = 0, sr_message = ''success'', sr_voice_id = r3_voice_id self, sr_message_id = [],
       sr_final_flag = 0, sr_result = RecognitionResult_default, sr_has_result = False,
       sr_speaker_continue = r3_speaker_continue self \<rparr>"

definition read_pass_v3 ::
  "json_lib \<Rightarrow> session \<Rightarrow> int \<times> WsFrame option \<times> string option \<Rightarrow> session" where
  "read_pass_v3 jl s rd =
     (let continue = goto RRead s; ret = goto (RFinish AExit) s;
          fail = (\<lambda>e. goto (RFinish (AFail (OnFail None e) False)) s);
          stopping = ls_state s \<ge> Stopping
      in case rd of (rc, frame, read_err) \<Rightarrow>
        if rc = 0 then (if ls_state s = Stopped then ret else continue)
        else if rc < 0 then
          (if stopping then ret
           else fail (ASRError kErrReadFailed (''read message failed'' @
             (case read_err of None \<Rightarrow> [] | Some e \<Rightarrow> if e = [] then [] else '': '' @ e))))
        else (case frame of
            None \<Rightarrow> continue
          | Some f \<Rightarrow>
              if wf_opcode f = 0x2
              then enter (OnFail None (ASRError kErrReadFailed
                     ''unmarshal response failed: unexpected binary frame'')) ToRead s
              else if wf_opcode f = 0x8
              then (if stopping then ret else fail (ASRError kErrReadFailed ''connection closed by server''))
              else if wf_opcode f \<noteq> 0x1 then continue
              else (case ParseSpeechResponse jl (string_of (wf_payload f)) of
                  Inl e \<Rightarrow>
                    if is_asr_error e then enter (OnFail None e) ToRead s
                    else goto (RFinish (AFail (panic (exn_what e)) False)) s
                | Inr resp \<Rightarrow>
                    if sr_code resp \<noteq> 0
                    then goto (RFinish (AFail (OnFail (Some resp)
                           (ASRError (sr_code resp) (sr_message resp))) True)) s
                    else if sr_final_flag resp = 1 then goto (RFinish (AComplete resp)) s
                    else if \<not> sr_has_result resp then continue
                    else (case DispatchEvent_v3 resp of
                        None \<Rightarrow> continue
                      | Some ev \<Rightarrow> enter ev ToRead s))))"

text \<open>\<^verbatim>\<open>ReadLoop\<close> around it; what follows a finished routine is written once in \<open>Lifecycle\<close>.\<close>

definition Reader_v3 :: "json_lib \<Rightarrow> session \<Rightarrow> session \<Rightarrow> bool" where
  "Reader_v3 jl s s' \<longleftrightarrow>
     (case ls_reader s of
        RStart \<Rightarrow> \<exists>self. s' = enter (OnRecognitionStart (start_response_v3 self)) ToFetch s
      | RCall ev k \<Rightarrow> ls_pc s 0 = CIdle \<and>
          (s' = after_call k s \<or>
           \<not> shielded ev \<and> (\<exists>what. s' = goto (RFinish (AFail (panic what) False)) s))
      | RFetch \<Rightarrow> s' = goto (if \<not> ls_conn s then RFinish AExit else RRead) s
      | RRead \<Rightarrow> \<exists>rd. s' = read_pass_v3 jl s rd
      | RFinish a \<Rightarrow>
          s' = (if ls_finished s then after_finish a s else goto (RClose a) (s \<lparr> ls_state := Stopped \<rparr>))
      | RClose a \<Rightarrow> s' = after_finish a (s \<lparr> ls_conn := False, ls_finished := True \<rparr>)
      | RMark a \<Rightarrow> s' = after_mark a (s \<lparr> ls_terminal := True \<rparr>)
      | RSignal \<Rightarrow> s' = goto RGone (s \<lparr> ls_done := True \<rparr>)
      | _ \<Rightarrow> False)"

definition session_step_v3 :: "json_lib \<Rightarrow> session \<Rightarrow> session \<Rightarrow> bool" where
  "session_step_v3 jl s s' \<longleftrightarrow>
     (\<exists>c. Start_v3 c s s' \<or> Write_v3 c s s' \<or> Stop_v3 c s s') \<or> watchdog_step s s' \<or> Reader_v3 jl s s'"

section \<open>The two copies agree\<close>

lemma Start_v3_same: "Start_v3 c s s' \<longleftrightarrow> start_call c s s'"
proof
  assume "start_call c s s'"
  then show "Start_v3 c s s'" by cases (auto simp: Start_v3_def may_call_def)
next
  assume "Start_v3 c s s'"
  then show "start_call c s s'"
    by (cases "ls_pc s c") (auto simp: Start_v3_def intro: start_call.intros split: if_splits option.splits)
qed

lemma Write_v3_same: "Write_v3 c s s' \<longleftrightarrow> write_call c s s'"
proof
  assume "write_call c s s'"
  then show "Write_v3 c s s'" by cases (auto simp: Write_v3_def may_call_def split_option_ex)
next
  assume "Write_v3 c s s'"
  then show "write_call c s s'"
    by (cases "ls_pc s c") (auto simp: Write_v3_def intro: write_call.intros split: if_splits option.splits simp del: append_Cons append.simps)
qed

lemma Stop_v3_same: "Stop_v3 c s s' \<longleftrightarrow> stop_call c s s'"
proof
  assume "stop_call c s s'"
  then show "Stop_v3 c s s'" by cases (auto simp: Stop_v3_def may_call_def split_option_ex)
next
  assume "Stop_v3 c s s'"
  then show "stop_call c s s'"
    by (cases "ls_pc s c") (auto simp: Stop_v3_def intro: stop_call.intros split: if_splits option.splits simp del: append_Cons append.simps)
qed

lemma DispatchEvent_v3_same: "DispatchEvent_v3 = DispatchEvent"
  by (rule ext) (simp add: DispatchEvent_v3_def DispatchEvent_def Let_def)

lemma read_pass_v3_same: "read_pass_v3 jl s rd = do_action (read_action jl (ls_state s) rd) s"
  by (cases rd)
    (simp add: read_pass_v3_def read_action_def do_action_def DispatchEvent_v3_same Let_def panic_def
      split: option.split sum.split exn.split)

lemma start_response_v3_surj: "\<exists>self. start_response_v3 self = start_response v sc"
  by (rule exI [of _ "new_SpeechRecognizer_v3 cred e \<lparr> r3_voice_id := v, r3_speaker_continue := sc \<rparr>"])
    (simp add: start_response_v3_def start_response_def)

lemma start_response_v3_same: "start_response_v3 self = start_response (r3_voice_id self) (r3_speaker_continue self)"
  by (simp add: start_response_v3_def start_response_def)

lemma Reader_v3_same: "Reader_v3 jl s s' \<longleftrightarrow> reader_step jl s s'"
proof
  assume "reader_step jl s s'"
  then show "Reader_v3 jl s s'"
  proof cases
    case (reader_start voice_id sc)
    then show ?thesis using start_response_v3_surj [of voice_id sc] by (simp add: Reader_v3_def) metis
  qed (auto simp: Reader_v3_def read_pass_v3_same)
next
  assume "Reader_v3 jl s s'"
  then show "reader_step jl s s'"
    using reader_fetch [of s jl]
    by (cases "ls_reader s")
      (auto simp: Reader_v3_def read_pass_v3_same start_response_v3_same intro: reader_step.intros split: if_splits)
qed

section \<open>Property\<close>


end
