(* ===== verification/Teardown.thy ===== *)
theory Teardown
  imports LifecycleProps V3Lifecycle
begin

text \<open>
  The destructor of a realtime recognizer: a best-effort \<^verbatim>\<open>Stop\<close> of a session that still
  runs, then the join of the reader thread. No application thread may be inside another
  operation by then; the reader, its callbacks and the watchdogs may.
\<close>

section \<open>The destructor\<close>

datatype dpc = DLoad | DStop | DJoin | DGone

text \<open>
  \<open>c\<close> is the thread that destroys. Whatever \<^verbatim>\<open>Stop\<close> throws is swallowed. A thread that was
  never started is not joined.
\<close>

inductive destroy_step :: "caller \<Rightarrow> dpc \<times> session \<Rightarrow> dpc \<times> session \<Rightarrow> bool" for c :: caller where
  destroy_running: "ls_state s = Running \<Longrightarrow> destroy_step c (DLoad, s) (DStop, s)"
| destroy_ended: "ls_state s \<noteq> Running \<Longrightarrow> destroy_step c (DLoad, s) (DJoin, s)"
| destroy_stop: "stop_call c s s' \<Longrightarrow> ls_pc s' c \<noteq> CIdle \<Longrightarrow> destroy_step c (DStop, s) (DStop, s')"
| destroy_stopped: "stop_call c s s' \<Longrightarrow> ls_pc s' c = CIdle \<Longrightarrow> destroy_step c (DStop, s) (DJoin, s')"
| destroy_join: "ls_reader s = RNone \<or> ls_reader s = RGone \<Longrightarrow> destroy_step c (DJoin, s) (DGone, s)"

text \<open>The same for v3, over its own \<^verbatim>\<open>Stop\<close>.\<close>

definition destroy_v3 :: "caller \<Rightarrow> dpc \<times> session \<Rightarrow> dpc \<times> session \<Rightarrow> bool" where
  "destroy_v3 c x y \<longleftrightarrow>
     (case x of (d, s) \<Rightarrow>
        case d of
          DLoad \<Rightarrow> y = (if ls_state s = Running then DStop else DJoin, s)
        | DStop \<Rightarrow> \<exists>s'. Stop_v3 c s s' \<and> y = (if ls_pc s' c = CIdle then DJoin else DStop, s')
        | DJoin \<Rightarrow> (ls_reader s = RNone \<or> ls_reader s = RGone) \<and> y = (DGone, s)
        | DGone \<Rightarrow> False)"

text \<open>What goes on beside it: the reader, the application code in its callbacks, the watchdogs.\<close>

inductive background_step :: "json_lib \<Rightarrow> session \<Rightarrow> session \<Rightarrow> bool" for jl :: json_lib where
  back_start: "start_call 0 s s' \<Longrightarrow> background_step jl s s'"
| back_write: "write_call 0 s s' \<Longrightarrow> background_step jl s s'"
| back_stop: "stop_call 0 s s' \<Longrightarrow> background_step jl s s'"
| back_watchdog: "watchdog_step s s' \<Longrightarrow> background_step jl s s'"
| back_reader: "reader_step jl s s' \<Longrightarrow> background_step jl s s'"

inductive teardown_step :: "json_lib \<Rightarrow> caller \<Rightarrow> dpc \<times> session \<Rightarrow> dpc \<times> session \<Rightarrow> bool"
  for jl :: json_lib and c :: caller where
  by_destructor: "destroy_step c x y \<Longrightarrow> teardown_step jl c x y"
| by_background: "background_step jl s s' \<Longrightarrow> teardown_step jl c (d, s) (d, s')"

definition alone :: "session \<Rightarrow> bool" where
  "alone s \<longleftrightarrow> (\<forall>x. x \<noteq> 0 \<longrightarrow> ls_pc s x = CIdle)"

section \<open>Lemmas\<close>

lemma destroy_v3_same: "destroy_v3 c x y \<longleftrightarrow> destroy_step c x y"
  by (cases x; cases "fst x")
    (auto simp: destroy_v3_def Stop_v3_same destroy_step.simps split: if_splits)

lemma background_session: "background_step jl s s' \<Longrightarrow> session_step jl s s'"
  by (auto elim!: background_step.cases intro: session_step.intros)

lemma background_reachable: "background_step jl s s' \<Longrightarrow> reachable jl s \<Longrightarrow> reachable jl s'"
  by (blast intro: reach_step background_session)

lemma background_pc: "background_step jl s s' \<Longrightarrow> x \<noteq> 0 \<Longrightarrow> ls_pc s' x = ls_pc s x"
  by (auto elim!: background_step.cases start_call.cases write_call.cases stop_call.cases
      watchdog_step.cases reader_step.cases)

text \<open>\<^verbatim>\<open>Start\<close> from a callback is always refused.\<close>

lemma callback_start_refused:
  assumes "reachable jl s" and "start_call 0 s s'"
  shows "s' = returns 0 StartCall (Inl (ASRError kErrAlreadyStarted ''recognizer already started'')) s"
proof -
  have started: "ls_state s \<noteq> Idle" if "in_callback (ls_reader s)"
    using that reachable_invs(2) [OF assms(1)] unfolding inv_start_def by (cases "ls_reader s") auto
  have "\<not> launching (ls_pc s 0)"
    using inv_start_at(1) [OF reachable_invs(2) [OF assms(1)], of 0] reachable_invs(5) [OF assms(1)]
    unfolding inv_callback_def by (cases "ls_pc s 0") auto
  with assms(2) started show ?thesis by cases (auto simp: may_call_def)
qed

lemma background_over:
  assumes "background_step jl s s'" and "reachable jl s" and "ls_state s \<noteq> Running"
  shows "ls_state s' \<noteq> Running"
  using assms(1)
proof cases
  case back_start
  from callback_start_refused [OF assms(2) this] show ?thesis using assms(3) by simp
qed (use assms(3) in \<open>auto elim!: write_call.cases stop_call.cases watchdog_step.cases reader_step.cases\<close>)

text \<open>A \<^verbatim>\<open>Stop\<close> that is over has left the running state behind.\<close>

lemma stop_over:
  assumes "stop_call c s s'" and "ls_pc s' c = CIdle" and "reachable jl s"
  shows "ls_state s' \<noteq> Running"
  using assms(1)
proof cases
  case stop_in_callback
  then show ?thesis using inv_stop_at(2) [OF reachable_invs(3) [OF assms(3)], of c] by auto
next
  case waited
  then show ?thesis using reachable_invs(3) [OF assms(3)] by (auto simp: inv_stop_def)
qed (use assms(2) in auto)

text \<open>The invariant of a destruction.\<close>

definition dying :: "json_lib \<Rightarrow> caller \<Rightarrow> dpc \<Rightarrow> session \<Rightarrow> bool" where
  "dying jl c d s \<longleftrightarrow> reachable jl s \<and>
     (\<forall>x. x \<noteq> 0 \<longrightarrow> ls_pc s x \<noteq> CIdle \<longrightarrow> x = c \<and> d = DStop \<and> stopping (ls_pc s x)) \<and>
     (d = DJoin \<or> d = DGone \<longrightarrow> ls_state s \<noteq> Running) \<and>
     (d = DGone \<longrightarrow> ls_reader s = RNone \<or> ls_reader s = RGone)"


lemma dying_reachable: "dying jl c d s \<Longrightarrow> reachable jl s"
  by (simp add: dying_def)

lemma dying_start: "reachable jl s \<Longrightarrow> alone s \<Longrightarrow> dying jl c DLoad s"
  by (simp add: dying_def alone_def)

lemma dying_background:
  assumes "dying jl c d s" and "background_step jl s s'" and "c \<noteq> 0"
  shows "dying jl c d s'"
proof -
  note step = assms(2) and reach = dying_reachable [OF assms(1)]
  have "ls_reader s' = ls_reader s" if "ls_reader s = RNone \<or> ls_reader s = RGone"
    using step
  proof cases
    case back_start
    from callback_start_refused [OF reach this] show ?thesis by simp
  qed (use that in \<open>auto elim!: write_call.cases stop_call.cases watchdog_step.cases reader_step.cases\<close>)
  with assms(1) show ?thesis
    using background_reachable [OF step reach] background_pc [OF step] background_over [OF step reach]
    unfolding dying_def by metis
qed

lemma stop_begun: "stop_call c s s' \<Longrightarrow> ls_pc s' c \<noteq> CIdle \<Longrightarrow> stopping (ls_pc s' c)"
  by (auto elim!: stop_call.cases)

lemma stop_others: "stop_call c s s' \<Longrightarrow> x \<noteq> c \<Longrightarrow> ls_pc s' x = ls_pc s x"
  by (auto elim!: stop_call.cases)

lemma dying_destroy:
  assumes "destroy_step c (d, s) (d', s')" and "dying jl c d s" and "c \<noteq> 0"
  shows "dying jl c d' s'"
  using assms(1)
proof cases
  case destroy_stop
  have "reachable jl s'" using destroy_stop dying_reachable [OF assms(2)] by (blast intro: reach_step by_stop)
  moreover have "x = c" if "x \<noteq> 0" and "ls_pc s' x \<noteq> CIdle" for x
    using that assms(2) stop_others [OF destroy_stop(3), of x] unfolding dying_def by metis
  ultimately show ?thesis
    using destroy_stop stop_begun [OF destroy_stop(3,4)] unfolding dying_def by auto
next
  case destroy_stopped
  have "reachable jl s'" using destroy_stopped dying_reachable [OF assms(2)] by (blast intro: reach_step by_stop)
  moreover have "ls_state s' \<noteq> Running" using stop_over dying_reachable [OF assms(2)] destroy_stopped by blast
  moreover have "ls_pc s' x = CIdle" if "x \<noteq> 0" for x
    using that assms(2) destroy_stopped stop_others [of c s s' x] unfolding dying_def by metis
  ultimately show ?thesis using destroy_stopped unfolding dying_def by auto
qed (use assms(2) in \<open>auto simp: dying_def\<close>)

lemma dying_step: "teardown_step jl c (d, s) (d', s') \<Longrightarrow> dying jl c d s \<Longrightarrow> c \<noteq> 0 \<Longrightarrow> dying jl c d' s'"
  by (auto elim!: teardown_step.cases intro: dying_background dying_destroy)

lemma dying_run:
  assumes "(teardown_step jl c)\<^sup>*\<^sup>* (d, s) (d', s')" and "dying jl c d s" and "c \<noteq> 0"
  shows "dying jl c d' s'"
  using assms(1)
proof (induction "(d', s')" arbitrary: d' s' rule: rtranclp_induct)
  case base
  then show ?case using assms(2) by simp
next
  case (step y)
  then show ?case using dying_step [of jl c "fst y" "snd y"] assms(3) by (cases y) auto
qed

text \<open>When the destructor has returned, only watchdogs are left, which touch the connection at most.\<close>

lemma dead_step:
  assumes "dying jl c DGone s" and "background_step jl s s'"
  shows "watchdog_step s s'"
proof -
  note reach = dying_reachable [OF assms(1)]
  have no_call: "\<not> in_callback (ls_reader s)" using assms(1) unfolding dying_def by auto
  then have idle: "ls_pc s 0 = CIdle" using reachable_invs(5) [OF reach] by (auto simp: inv_callback_def)
  show ?thesis
    using assms(2)
    by cases (use no_call idle assms(1) in
        \<open>auto simp: may_call_def dying_def elim!: start_call.cases write_call.cases stop_call.cases reader_step.cases\<close>)
qed

lemma dead_run:
  assumes "(background_step jl)\<^sup>*\<^sup>* s s'" and "dying jl c DGone s" and "c \<noteq> 0"
  shows "dying jl c DGone s' \<and> ls_events s' = ls_events s \<and> ls_wire s' = ls_wire s \<and>
    ls_reader s' = ls_reader s \<and> ls_pc s' = ls_pc s"
  using assms(1)
proof induction
  case (step t u)
  then have "watchdog_step t u" and "dying jl c DGone u"
    using dead_step [of jl c t u] dying_background [of jl c DGone t u] assms(3) by blast+
  with step.IH show ?case by (auto elim!: watchdog_step.cases)
qed (use assms(2) in simp)

section \<open>The reader can come to its end\<close>

fun before_finish :: "rpc \<Rightarrow> nat" where
  "before_finish RStart = 6"
| "before_finish (RCall _ ToFetch) = 5"
| "before_finish RFetch = 4"
| "before_finish (RCall _ ToRead) = 4"
| "before_finish RRead = 3"
| "before_finish (RFinish _) = 2"
| "before_finish (RClose _) = 1"
| "before_finish _ = 0"

lemma toward_finish:
  assumes "reachable jl s" and "\<not> ls_finished s" and "ls_reader s \<noteq> RNone" and "Stopping \<le> ls_state s"
    and "ls_pc s 0 = CIdle"
  shows "\<exists>s'. reader_step jl s s' \<and> (ls_finished s' \<or> before_finish (ls_reader s') < before_finish (ls_reader s)) \<and>
    ls_pc s' = ls_pc s \<and> Stopping \<le> ls_state s' \<and> ls_reader s' \<noteq> RNone"
proof -
  have ok: "reader_ok False (ls_reader s)"
    using reachable_invs(6) [OF assms(1)] assms(2) by (simp add: inv_reader_def)
  have go: ?thesis if "reader_step jl s t"
    "ls_finished t \<or> before_finish (ls_reader t) < before_finish (ls_reader s)"
    "ls_pc t = ls_pc s" "Stopping \<le> ls_state t" "ls_reader t \<noteq> RNone" for t
    using that by blast
  show ?thesis
  proof (cases "ls_reader s")
    case RStart
    from go [OF reader_start [OF this, where voice_id = "[]" and sc = None]] show ?thesis using RStart assms(4) by simp
  next
    case (RCall ev k)
    from go [OF callback_returns [OF this assms(5)]] show ?thesis
      using RCall ok assms(4) by (cases k) (simp_all add: after_call_def)
  next
    case RFetch
    from go [OF reader_fetch [OF this]] show ?thesis using RFetch assms(4) by simp
  next
    case RRead
    from go [OF reader_read [OF this, of _ "(- 1, None, None)"]] show ?thesis
      using RRead assms(4) by (simp add: read_action_stopping(1) do_action_def)
  next
    case (RFinish a)
    from go [OF finish_store [OF this assms(2)]] show ?thesis using RFinish by simp
  next
    case (RClose a)
    from go [OF finish_close [OF this]] show ?thesis using RClose assms(4) by simp
  qed (use ok assms(3) in simp_all)
qed

lemma state_forward:
  assumes "(internal_step jl)\<^sup>*\<^sup>* s s'" and "reachable jl s" and "Stopping \<le> ls_state s"
  shows "Stopping \<le> ls_state s'"
  using assms(1)
proof induction
  case (step t u)
  have "reachable jl t" using step.hyps(1) assms(2) by (rule reachable_run)
  from step_refines [OF this internal_session [OF step.hyps(2)]] step.IH show ?case
    using spec_monotone [of "abs_session t" "abs_session u"] by (auto simp: abs_session_def rstate_order)
qed (rule assms(3))

lemma reader_ends:
  assumes "reachable jl s" and "ls_reader s \<noteq> RNone" and "Stopping \<le> ls_state s"
  shows "\<exists>s'. (internal_step jl)\<^sup>*\<^sup>* s s' \<and> ls_done s'"
  using assms
proof (induction "before_finish (ls_reader s)" arbitrary: s rule: less_induct)
  case less
  show ?case
  proof (cases "ls_finished s")
    case True
    then show ?thesis using reader_finishes [OF less.prems(1)] by blast
  next
    case False
    obtain t where t: "(internal_step jl)\<^sup>*\<^sup>* s t" "ls_pc t 0 = CIdle" "ls_reader t = ls_reader s"
      "ls_finished t = ls_finished s"
      using callback_call_returns [OF less.prems(1,2)] by blast
    have reach: "reachable jl t" using reachable_run [OF t(1) less.prems(1)] .
    obtain u where u: "reader_step jl t u"
      "ls_finished u \<or> before_finish (ls_reader u) < before_finish (ls_reader s)"
      "Stopping \<le> ls_state u" "ls_reader u \<noteq> RNone"
      using toward_finish [OF reach] t False less.prems state_forward by metis
    have su: "(internal_step jl)\<^sup>*\<^sup>* s u" using t(1) int_reader [OF u(1)] by simp
    have "\<exists>v. (internal_step jl)\<^sup>*\<^sup>* u v \<and> ls_done v"
    proof (cases "ls_finished u")
      case True
      then show ?thesis using reader_finishes [OF reachable_run [OF su less.prems(1)]] by blast
    next
      case False
      then show ?thesis using less.hyps [OF _ reachable_run [OF su less.prems(1)] u(4,3)] u(2) by blast
    qed
    with su show ?thesis by (blast intro: rtranclp_trans)
  qed
qed

text \<open>A run inside the SDK is a run of the destruction.\<close>

lemma internal_teardown:
  assumes "internal_step jl s s'" and "dying jl c d s" and "c \<noteq> 0" and "d = DStop \<longrightarrow> ls_pc s c \<noteq> CIdle"
  shows "\<exists>d'. teardown_step jl c (d, s) (d', s') \<and> (d \<noteq> DStop \<longrightarrow> d' = d) \<and>
    (d = DStop \<longrightarrow> d' = (if ls_pc s' c = CIdle then DJoin else DStop))"
proof -
  have mine: "x = c \<and> d = DStop \<and> stopping (ls_pc s x)" if "x \<noteq> 0" "ls_pc s x \<noteq> CIdle" for x
    using assms(2) that unfolding dying_def by blast
  have behind: ?thesis if "background_step jl s s'"
    using by_background [OF that, of c d] background_pc [OF that assms(3)] assms(4) by auto
  show ?thesis
    using assms(1)
  proof cases
    case (int_start x)
    show ?thesis
    proof (cases "x = 0")
      case True
      then show ?thesis using int_start behind back_start by blast
    next
      case False
      with mine [of x] int_start show ?thesis by (auto simp: may_call_def elim!: start_call.cases)
    qed
  next
    case (int_write x)
    show ?thesis
    proof (cases "x = 0")
      case True
      then show ?thesis using int_write behind back_write by blast
    next
      case False
      with mine [of x] int_write show ?thesis by (auto simp: may_call_def elim!: write_call.cases)
    qed
  next
    case (int_stop x)
    show ?thesis
    proof (cases "x = 0")
      case True
      then show ?thesis using int_stop behind back_stop by blast
    next
      case False
      with mine [of x] int_stop have "stop_call c s s'" "d = DStop" by auto
      then show ?thesis
        using by_destructor [OF destroy_stop [of c s s']] by_destructor [OF destroy_stopped [of c s s']] by auto
    qed
  next
    case int_reader
    then show ?thesis using behind back_reader by blast
  qed
qed

lemma internal_run_teardown:
  assumes "(internal_step jl)\<^sup>*\<^sup>* s s'" and "dying jl c d s" and "c \<noteq> 0" and "d = DStop \<longrightarrow> ls_pc s c \<noteq> CIdle"
  shows "\<exists>d'. (teardown_step jl c)\<^sup>*\<^sup>* (d, s) (d', s') \<and> (d \<noteq> DStop \<longrightarrow> d' = d) \<and>
    (d = DStop \<longrightarrow> d' = (if ls_pc s' c = CIdle then DJoin else DStop))"
  using assms(1)
proof induction
  case base
  then show ?case using assms(4) by auto
next
  case (step t u)
  then obtain d' where d': "(teardown_step jl c)\<^sup>*\<^sup>* (d, s) (d', t)" "d \<noteq> DStop \<longrightarrow> d' = d"
    "d = DStop \<longrightarrow> d' = (if ls_pc t c = CIdle then DJoin else DStop)" by blast
  have t: "dying jl c d' t" using dying_run [OF d'(1) assms(2,3)] .
  obtain e where e: "teardown_step jl c (d', t) (e, u)" "d' \<noteq> DStop \<longrightarrow> e = d'"
    "d' = DStop \<longrightarrow> e = (if ls_pc u c = CIdle then DJoin else DStop)"
    using internal_teardown [OF step.hyps(2) t assms(3)] d' by (metis dpc.distinct(7))
  have idle: "ls_pc u c = CIdle" if "d' = DJoin"
    using dying_step [OF e(1) t assms(3)] e(2) that assms(3) unfolding dying_def by auto
  show ?case
    using d'(2,3) e(2,3) idle
    by (intro exI [of _ e] conjI rtranclp.rtrancl_into_rtrancl [OF d'(1) e(1)]; cases "ls_pc t c = CIdle") auto
qed

lemma join_returns:
  assumes "dying jl c DJoin s" and "c \<noteq> 0"
  shows "\<exists>s'. (teardown_step jl c)\<^sup>*\<^sup>* (DJoin, s) (DGone, s')"
proof (cases "ls_reader s = RNone")
  case True
  then show ?thesis by (blast intro: by_destructor destroy_join)
next
  case False
  note reach = dying_reachable [OF assms(1)]
  have "Stopping \<le> ls_state s"
    using assms(1) False reachable_invs(2) [OF reach] unfolding dying_def inv_start_def by (cases "ls_state s") auto
  from reader_ends [OF reach False this] obtain t where t: "(internal_step jl)\<^sup>*\<^sup>* s t" "ls_done t" by blast
  then have "(teardown_step jl c)\<^sup>*\<^sup>* (DJoin, s) (DJoin, t)"
    using internal_run_teardown [OF t(1) assms] by auto
  moreover have "ls_reader t = RGone"
    using reachable_invs(6) [OF reachable_run [OF t(1) reach]] t(2) by (simp add: inv_reader_def)
  then have "teardown_step jl c (DJoin, t) (DGone, t)" by (blast intro: by_destructor destroy_join)
  ultimately show ?thesis by (blast intro: rtranclp.rtrancl_into_rtrancl)
qed

lemma stop_returns:
  assumes "dying jl c DStop s" and "c \<noteq> 0"
  shows "\<exists>s'. (teardown_step jl c)\<^sup>*\<^sup>* (DStop, s) (DJoin, s')"
proof -
  have inside: "\<exists>s'. (teardown_step jl c)\<^sup>*\<^sup>* (DStop, t) (DJoin, s')"
    if die: "dying jl c DStop t" and pc: "ls_pc t c \<noteq> CIdle" for t
  proof -
    obtain u where u: "(internal_step jl)\<^sup>*\<^sup>* t u" "ls_pc u c = CIdle"
      using caller_returns [OF dying_reachable [OF die]] by blast
    with internal_run_teardown [OF u(1) die assms(2)] pc show ?thesis by auto
  qed
  show ?thesis
  proof (cases "ls_pc s c = CIdle")
    case False
    then show ?thesis using inside assms(1) by blast
  next
    case True
    then have may: "may_call c s" using assms(2) by (simp add: may_call_def)
    show ?thesis
    proof (cases "ls_state s = Running")
      case True
      then have "stop_call c s (move_to c SpConn (s \<lparr> ls_state := Stopping \<rparr>))" using may by (intro stop_begin)
      then have step: "teardown_step jl c (DStop, s) (DStop, move_to c SpConn (s \<lparr> ls_state := Stopping \<rparr>))"
        by (intro by_destructor destroy_stop) simp_all
      with inside dying_step [OF step assms] show ?thesis by (fastforce intro: converse_rtranclp_into_rtranclp)
    next
      case False
      then have "stop_call c s (returns c StopCall (Inl not_running) s)" using may by (intro stop_refused)
      then have "teardown_step jl c (DStop, s) (DJoin, returns c StopCall (Inl not_running) s)"
        by (intro by_destructor destroy_stopped) simp_all
      then show ?thesis by blast
    qed
  qed
qed

section \<open>Properties\<close>

text \<open>
  Claim C6. Destruction is final: when the destructor of a recognizer has returned, called from a
  thread that is not in a callback and with no other application thread inside an operation,
  the reader thread has ended or was never started, nothing runs in a callback, a session
  that had been started is stopped with its connection closed, and whatever still runs (the
  detached watchdogs) neither calls the application back nor sends anything.
\<close>

theorem destroyed_quiet:
  assumes "reachable jl s0" and "alone s0" and "c \<noteq> 0" and "(teardown_step jl c)\<^sup>*\<^sup>* (DLoad, s0) (DGone, s)"
  shows "(\<forall>x. ls_pc s x = CIdle) \<and>
    (ls_reader s = RNone \<and> ls_state s = Idle \<and> ls_events s = [] \<and> ls_wire s = [] \<or>
     ls_reader s = RGone \<and> ls_done s \<and> ls_state s = Stopped \<and> \<not> ls_conn s) \<and>
    (\<forall>s'. (background_step jl)\<^sup>*\<^sup>* s s' \<longrightarrow>
       ls_events s' = ls_events s \<and> ls_wire s' = ls_wire s \<and> ls_reader s' = ls_reader s \<and> ls_pc s' = ls_pc s)"
proof -
  have dead: "dying jl c DGone s" using dying_run [OF assms(4) dying_start [OF assms(1,2)] assms(3)] .
  note reach = dying_reachable [OF dead]
  have gone: "ls_reader s = RNone \<or> ls_reader s = RGone" using dead by (simp add: dying_def)
  have "ls_pc s x = CIdle" for x
    using dead gone reachable_invs(5) [OF reach] by (cases "x = 0") (auto simp: dying_def inv_callback_def)
  moreover from this have "launchers (ls_pc s) = {}" by (simp add: launchers_def)
  then have "ls_state s = Idle" if "ls_reader s = RNone"
    using that reachable_invs(2) [OF reach] by (auto simp: inv_start_def)
  then have "ls_state s = Idle \<and> ls_events s = [] \<and> ls_wire s = []" if "ls_reader s = RNone"
    using that reachable_invs(7) [OF reach] reachable_quiet(1) [OF reach] by (auto simp: inv_events_def inv_quiet_def)
  moreover have "ls_done s \<and> ls_state s = Stopped \<and> \<not> ls_conn s" if "ls_reader s = RGone"
    using that reachable_invs(6) [OF reach] by (simp add: inv_reader_def)
  moreover have "ls_events s' = ls_events s \<and> ls_wire s' = ls_wire s \<and> ls_reader s' = ls_reader s \<and> ls_pc s' = ls_pc s"
    if "(background_step jl)\<^sup>*\<^sup>* s s'" for s'
    using dead_run [OF that dead assms(3)] by simp
  ultimately show ?thesis using gone by blast
qed

text \<open>
  Claim C7. The destructor can always return: wherever a destruction stands, whatever the reader,
  its callbacks and the watchdogs have done meanwhile, there is a run in which no other
  thread of the application calls anything and after which the destructor has returned.
\<close>

theorem destructor_returns:
  assumes "reachable jl s0" and "alone s0" and "c \<noteq> 0" and "(teardown_step jl c)\<^sup>*\<^sup>* (DLoad, s0) (d, s)"
  shows "\<exists>s'. (teardown_step jl c)\<^sup>*\<^sup>* (d, s) (DGone, s')"
proof -
  note die = dying_run [OF assms(4) dying_start [OF assms(1,2)] assms(3)]
  have join: "\<exists>s'. (teardown_step jl c)\<^sup>*\<^sup>* (d, s) (DGone, s')"
    if "(teardown_step jl c)\<^sup>*\<^sup>* (d, s) (DJoin, t)" for t
    using join_returns [OF dying_run [OF that die assms(3)] assms(3)] that by (blast intro: rtranclp_trans)
  have stop: "\<exists>s'. (teardown_step jl c)\<^sup>*\<^sup>* (d, s) (DGone, s')"
    if "(teardown_step jl c)\<^sup>*\<^sup>* (d, s) (DStop, t)" for t
    using stop_returns [OF dying_run [OF that die assms(3)] assms(3)] that join by (blast intro: rtranclp_trans)
  show ?thesis
  proof (cases d)
    case DLoad
    show ?thesis
    proof (cases "ls_state s = Running")
      case True
      then show ?thesis using stop [of s] DLoad by (blast intro: by_destructor destroy_running)
    next
      case False
      then show ?thesis using join [of s] DLoad by (blast intro: by_destructor destroy_ended)
    qed
  qed (use stop [of s] join [of s] in auto)
qed

text \<open>The session of the sample run, destroyed while it runs and after it is over.\<close>

lemma sample_alone: "alone sample_running" "alone sample_over"
  by (simp_all add: alone_def sample_running_def sample_over_def snapshot_def)

theorem destroyed_quiet_witness:
  "(teardown_step (doc_lib []) 1)\<^sup>*\<^sup>* (DLoad, sample_over) (DGone, sample_over) \<and>
   ls_pc sample_over 2 = CIdle \<and> \<not> ls_conn sample_over"
proof -
  have over: "ls_state sample_over \<noteq> Running" "ls_reader sample_over = RGone"
    by (simp_all add: sample_over_def snapshot_def)
  then have "teardown_step (doc_lib []) 1 (DLoad, sample_over) (DJoin, sample_over)"
    "teardown_step (doc_lib []) 1 (DJoin, sample_over) (DGone, sample_over)"
    by (blast intro: by_destructor destroy_ended destroy_join)+
  then have run: "(teardown_step (doc_lib []) 1)\<^sup>*\<^sup>* (DLoad, sample_over) (DGone, sample_over)" by simp
  note quiet = destroyed_quiet [OF sample_over_reached sample_alone(2) _ run]
  have "\<forall>x. ls_pc sample_over x = CIdle" by (rule conjunct1 [OF quiet]) simp
  moreover have "\<not> ls_conn sample_over"
    using conjunct1 [OF conjunct2 [OF quiet]] over(2) by simp
  ultimately show ?thesis using run by blast
qed

theorem destructor_returns_witness:
  "\<exists>s'. (teardown_step (doc_lib []) 1)\<^sup>*\<^sup>* (DStop, sample_running) (DGone, s')"
proof -
  have "ls_state sample_running = Running" by (simp add: sample_running_def snapshot_def)
  then have "(teardown_step (doc_lib []) 1)\<^sup>*\<^sup>* (DLoad, sample_running) (DStop, sample_running)"
    by (blast intro: by_destructor destroy_running)
  from destructor_returns [OF sample_running_reached sample_alone(1) _ this] show ?thesis by simp
qed

end
