(* ===== verification/Uplink.thy ===== *)
theory Uplink
  imports LifecycleProps WsProps
begin

text \<open>
  The lifecycle over the WebSocket transport: the frames that the threads of a session send,
  one after the other under the write mutex, as calls of \<^verbatim>\<open>SendBinary\<close> and \<^verbatim>\<open>SendText\<close>, and what
  the service decodes from the bytes.
\<close>

section \<open>Sending\<close>

definition end_text :: string where
  "end_text = ''{\"type\":\"end\"}''"

text \<open>The send of \<^verbatim>\<open>Write\<close> and that of \<^verbatim>\<open>Stop\<close>.\<close>

fun send_signal :: "os_lib \<Rightarrow> wire_frame \<Rightarrow> string option io" where
  "send_signal os (Audio data) s = SendBinary os data s"
| "send_signal os EndSignal s = SendText os end_text s"

text \<open>
  The pong that the reader thread sends, with the result of the write that it ignores. The
  deadline is that of the read that took the ping.
\<close>

definition write_pong :: "os_lib \<Rightarrow> int \<Rightarrow> u8 list \<Rightarrow> string option io" where
  "write_pong os deadline payload s =
     (case rand_bytes 4 s of
        None \<Rightarrow> None
      | Some (key, s1) \<Rightarrow>
          (case now_ms s1 of
             None \<Rightarrow> None
           | Some (t, s2) \<Rightarrow> WriteAll os (EncodeWsFrame 0xA payload True key) (remaining deadline t) s2))"

lemma send_pong_write: "send_pong os d p s = map_option (\<lambda>(_, s'). ((), s')) (write_pong os d p s)"
  by (simp add: send_pong_def write_pong_def split: option.split)

datatype outgoing = Signal wire_frame | PongOf int "u8 list"

fun signals :: "outgoing list \<Rightarrow> wire_frame list" where
  "signals [] = []"
| "signals (Signal f # xs) = f # signals xs"
| "signals (PongOf d p # xs) = signals xs"

text \<open>
  The sends of a session, those of the reader thread among them. The first error of \<^verbatim>\<open>Write\<close>
  or \<^verbatim>\<open>Stop\<close> is the last send; a pong that failed does not end anything, and the flag tells
  whether every pong went out whole.
\<close>

fun send_session :: "os_lib \<Rightarrow> outgoing list \<Rightarrow> (string option \<times> bool) io" where
  "send_session os [] s = Some ((None, True), s)"
| "send_session os (Signal f # xs) s =
     (case send_signal os f s of
        None \<Rightarrow> None
      | Some (Some err, s1) \<Rightarrow> Some ((Some err, True), s1)
      | Some (None, s1) \<Rightarrow> send_session os xs s1)"
| "send_session os (PongOf d p # xs) s =
     (case write_pong os d p s of
        None \<Rightarrow> None
      | Some (e, s1) \<Rightarrow>
          map_option (\<lambda>((r, whole), s2). ((r, whole \<and> e = None), s2)) (send_session os xs s1))"

section \<open>Receiving\<close>

fun received :: "wire_frame \<Rightarrow> WsFrame" where
  "received (Audio data) = \<lparr> wf_opcode = 0x2, wf_payload = data, wf_fin = True \<rparr>"
| "received EndSignal = \<lparr> wf_opcode = 0x1, wf_payload = bytes_of end_text, wf_fin = True \<rparr>"

fun sendable_frame :: "wire_frame \<Rightarrow> bool" where
  "sendable_frame (Audio data) \<longleftrightarrow> length data < 2 ^ 64"
| "sendable_frame EndSignal \<longleftrightarrow> True"

fun sent_frame :: "outgoing \<Rightarrow> WsFrame" where
  "sent_frame (Signal f) = received f"
| "sent_frame (PongOf d p) = \<lparr> wf_opcode = 0xA, wf_payload = p, wf_fin = True \<rparr>"

fun sendable_item :: "outgoing \<Rightarrow> bool" where
  "sendable_item (Signal f) \<longleftrightarrow> sendable_frame f"
| "sendable_item (PongOf d p) \<longleftrightarrow> length p < 2 ^ 64"

text \<open>
  The shape of a session's stream: audio packets, then at most one end signal.
\<close>

definition uplink :: "wire_frame list \<Rightarrow> bool" where
  "uplink fs \<longleftrightarrow> (\<exists>packets. fs = map Audio packets \<or> fs = map Audio packets @ [EndSignal])"

lemma uplink_iff: "uplink fs \<longleftrightarrow> EndSignal \<notin> set (butlast fs)"
proof (induction fs rule: rev_induct)
  case Nil
  show ?case by (simp add: uplink_def)
next
  case (snoc f fs)
  have audio: "EndSignal \<notin> set fs \<longleftrightarrow> (\<exists>packets. fs = map Audio packets)"
    by (induction fs) (auto simp: Cons_eq_map_conv, metis wire_frame.exhaust)
  show ?case
  proof (cases f)
    case (Audio d)
    then show ?thesis using audio by (auto simp: uplink_def map_eq_append_conv append_eq_map_conv) (metis list.simps(8,9) map_append)
  next
    case EndSignal
    then show ?thesis using audio by (auto simp: uplink_def append_eq_map_conv)
  qed
qed

lemma uplink_prefix: "uplink (fs @ gs) \<Longrightarrow> uplink fs"
  by (auto simp: uplink_iff butlast_append dest: in_set_butlastD split: if_splits)

lemma length_end_text: "length (bytes_of end_text) < 2 ^ 64"
  by (simp add: end_text_def)

lemma send_signal_sent:
  assumes "send_signal os f s = Some (r, s')" and "sendable_frame f"
  shows "\<exists>bs rest. ws_out s' = ws_out s @ bs \<and> (rest = []) = (r = None) \<and>
    (\<forall>more. decode_frame ((bs @ rest) @ more) = Some (received f, more))"
proof (cases f)
  case (Audio data)
  then have "frame_sent 2 data s r s'"
    using assms send_frame_sent [of os 2 data s r s'] by (simp add: SendBinary_def)
  then show ?thesis using Audio by (simp add: frame_sent_def)
next
  case EndSignal
  then have "frame_sent 1 (bytes_of end_text) s r s'"
    using assms(1) length_end_text send_frame_sent [of os 1 "bytes_of end_text" s r s'] by (simp add: SendText_def)
  then show ?thesis using EndSignal by (simp add: frame_sent_def)
qed

lemma write_pong_sent:
  assumes "write_pong os d p s = Some (r, s')" and "length p < 2 ^ 64"
  shows "frame_sent 0xA p s r s'"
proof -
  from assms(1) obtain key s1 t s2 where k: "rand_bytes 4 s = Some (key, s1)" and n: "now_ms s1 = Some (t, s2)"
    and w: "WriteAll os (EncodeWsFrame 0xA p True key) (remaining d t) s2 = Some (r, s')"
    by (auto simp: write_pong_def split: option.splits)
  have "ws_out s2 = ws_out s" "length key = 4"
    using rand_quiet [OF k] now_quiet [OF n] by (simp_all add: quiet_def)
  with WriteAll_frame_sent [OF w _ _ assms(2)] show ?thesis by (simp add: frame_sent_def)
qed

lemma item_sent:
  assumes "frame_sent op p s r s'"
  shows "\<exists>bs rest. ws_out s' = ws_out s @ bs \<and> (rest = []) = (r = None) \<and>
    (\<forall>more. decode_frame ((bs @ rest) @ more) = Some (\<lparr> wf_opcode = op, wf_payload = p, wf_fin = True \<rparr>, more))"
  using assms by (simp add: frame_sent_def)

lemma signals_sent: "filter (\<lambda>g. \<not> is_control g) (map sent_frame xs) = map received (signals xs)"
proof (induction xs rule: signals.induct)
  case (2 f xs)
  then show ?case by (cases f) (simp_all add: is_control_def)
qed (simp_all add: is_control_def)

lemma signals_append: "signals (xs @ ys) = signals xs @ signals ys"
  by (induction xs rule: signals.induct) simp_all

text \<open>
  \<open>n\<close> frames went out whole; \<open>part\<close> is what was sent of the next one.
\<close>

definition stream_sent :: "outgoing list \<Rightarrow> ws \<Rightarrow> string option \<Rightarrow> ws \<Rightarrow> bool" where
  "stream_sent xs s r s' \<longleftrightarrow>
     (\<exists>n bs part rest. n \<le> length xs \<and> ws_out s' = ws_out s @ bs @ part \<and>
        framed bs (map sent_frame (take n xs)) \<and>
        (r = None \<and> n = length xs \<and> part = [] \<or>
         r \<noteq> None \<and> n < length xs \<and> (\<exists>f. xs ! n = Signal f) \<and> rest \<noteq> [] \<and>
           (\<forall>more. decode_frame ((part @ rest) @ more) = Some (sent_frame (xs ! n), more))))"

lemma stream_sent_more:
  assumes "ws_out s1 = ws_out s @ bs" and "\<forall>more. decode_frame (bs @ more) = Some (sent_frame x, more)"
    and "stream_sent xs s1 r s'"
  shows "stream_sent (x # xs) s r s'"
proof -
  obtain n cs part rest where ih: "n \<le> length xs" "ws_out s' = ws_out s1 @ cs @ part"
    "framed cs (map sent_frame (take n xs))"
    "r = None \<and> n = length xs \<and> part = [] \<or> r \<noteq> None \<and> n < length xs \<and> (\<exists>f. xs ! n = Signal f) \<and> rest \<noteq> [] \<and>
       (\<forall>more. decode_frame ((part @ rest) @ more) = Some (sent_frame (xs ! n), more))"
    using assms(3) unfolding stream_sent_def by blast
  have "framed (bs @ cs) (map sent_frame (take (Suc n) (x # xs)))"
    using assms(2) ih(3) by (simp add: framed_append)
  then show ?thesis using ih assms(1) unfolding stream_sent_def
    by (intro exI [of _ "Suc n"] exI [of _ "bs @ cs"] exI [of _ part] exI [of _ rest]) auto
qed

lemma send_session_sent:
  assumes "send_session os xs s = Some ((r, True), s')" and "\<forall>x\<in>set xs. sendable_item x"
  shows "stream_sent xs s r s'"
  using assms
proof (induction xs arbitrary: s)
  case Nil
  then show ?case by (auto simp: stream_sent_def)
next
  case (Cons x xs)
  show ?case
  proof (cases x)
    case (Signal f)
    with Cons.prems(1) obtain r1 s1 where send: "send_signal os f s = Some (r1, s1)"
      by (auto split: option.splits)
    obtain bs rest where sent: "ws_out s1 = ws_out s @ bs" "(rest = []) = (r1 = None)"
      "\<forall>more. decode_frame ((bs @ rest) @ more) = Some (received f, more)"
      using send_signal_sent [OF send] Cons.prems(2) Signal by auto
    show ?thesis
    proof (cases r1)
      case (Some err)
      then have "r = Some err" "s' = s1" using Cons.prems(1) send Signal by simp_all
      then show ?thesis using sent Some Signal unfolding stream_sent_def
        by (intro exI [of _ 0] exI [of _ "[]"] exI [of _ bs] exI [of _ rest]) simp
    next
      case None
      then have "stream_sent xs s1 r s'" using Cons.prems Cons.IH send Signal by simp
      then show ?thesis using sent None Signal by (intro stream_sent_more [of s1 s bs]) simp_all
    qed
  next
    case (PongOf d p)
    with Cons.prems(1) obtain s1 where send: "write_pong os d p s = Some (None, s1)"
      and next': "send_session os xs s1 = Some ((r, True), s')"
      by (auto split: option.splits)
    obtain bs where "ws_out s1 = ws_out s @ bs" "\<forall>more. decode_frame (bs @ more) = Some (sent_frame x, more)"
      using item_sent [OF write_pong_sent [OF send]] Cons.prems(2) PongOf by auto
    then show ?thesis using Cons.IH [OF next'] Cons.prems(2) by (intro stream_sent_more [of s1 s bs]) simp_all
  qed
qed

text \<open>
  A pong that is cut off: its write times out after the header, and the audio of the next \<^verbatim>\<open>Write\<close>,
  which is reported as sent, is what the service takes for the pong's payload.
\<close>

lemma cut_pong_swallows:
  "\<exists>s'. send_session sample_os [PongOf 100 [1, 2, 3, 4, 5, 6, 7], Signal (Audio [7])]
       (new_ws [Rand [0, 0, 0, 0], NowMs 0, NowMs 0, NowMs 0, ready, SendOk 6, NowMs 200,
          Rand [0, 0, 0, 0], NowMs 200, NowMs 200, ready, SendOk 7]) = Some ((None, False), s') \<and>
     decode_frame (ws_out s') =
       Some (\<lparr> wf_opcode = 0xA, wf_payload = [0x82, 0x81, 0, 0, 0, 0, 7], wf_fin = True \<rparr>, [])"
  by (rule exI [of _ "(new_ws []) \<lparr> ws_out := [0x8A, 0x87, 0, 0, 0, 0, 0x82, 0x81, 0, 0, 0, 0, 7] \<rparr>"]) code_simp

section \<open>Property\<close>


definition sample_uplink :: ws where
  "sample_uplink = new_ws [Rand [0, 0, 0, 0], NowMs 0, NowMs 0, ready, SendOk 7,
     Rand [0, 0, 0, 0], NowMs 0, NowMs 0, NowMs 0, ready, SendOk 6,
     Rand [0, 0, 0, 0], NowMs 0, NowMs 0, ready, SendOk 20]"

lemma sample_uplink_run:
  "send_session sample_os [Signal (Audio [7]), PongOf 100 [], Signal EndSignal] sample_uplink =
     Some ((None, True), sample_uplink \<lparr> ws_env := [],
       ws_out := [0x82, 0x81, 0, 0, 0, 0, 7, 0x8A, 0x80, 0, 0, 0, 0, 0x81, 0x8E, 0, 0, 0, 0] @ bytes_of end_text \<rparr>)"
  by code_simp


end
