(* ===== verification/Downlink.thy ===== *)
theory Downlink
  imports LifecycleProps WsProps V3Speech
begin

text \<open>
  From the bytes of the service to the callbacks of the application: \<^verbatim>\<open>ReadLoopInner\<close> of a
  running session whose callbacks return, over the WebSocket transport, with the segmentation
  and the timeouts of the transport.
\<close>

section \<open>The read loop\<close>

definition dispatched :: "SpeechRecognitionResponse \<Rightarrow> event list" where
  "dispatched resp = (case DispatchEvent resp of None \<Rightarrow> [] | Some ev \<Rightarrow> [ev])"

text \<open>The callbacks of one pass, and whether the loop goes on.\<close>

fun act_events :: "action \<Rightarrow> event list \<times> bool" where
  "act_events Again = ([], True)"
| "act_events Leave = ([], False)"
| "act_events (LeaveFailed e) = ([OnFail None e], False)"
| "act_events (Report e) = ([OnFail None e], True)"
| "act_events (Escape e) = ([panic (exn_what e)], False)"
| "act_events (FailTerminal resp) = ([OnFail (Some resp) (ASRError (sr_code resp) (sr_message resp))], False)"
| "act_events (CompleteWith resp) = (dispatched resp @ [OnRecognitionComplete resp], False)"
| "act_events (Deliver resp) = (dispatched resp, True)"

text \<open>
  The speaker context that a response carries is kept for \<^verbatim>\<open>GetSpeakerContinue\<close> before the
  response is looked at.
\<close>

definition noted ::
  "json_lib \<Rightarrow> int \<times> WsFrame option \<times> string option \<Rightarrow> SpeakerContinue option \<Rightarrow> SpeakerContinue option" where
  "noted jl rd sc =
     (case rd of
        (rc, Some f, _) \<Rightarrow>
          if 0 < rc \<and> wf_opcode f = 0x1
          then (case ParseSpeechResponse jl (string_of (wf_payload f)) of
                  Inl _ \<Rightarrow> sc
                | Inr resp \<Rightarrow> note_continue resp sc)
          else sc
      | _ \<Rightarrow> sc)"

function read_session ::
  "json_lib \<Rightarrow> os_lib \<Rightarrow> rstate \<Rightarrow> SpeakerContinue option \<Rightarrow> (event list \<times> SpeakerContinue option) io" where
  "read_session jl os st sc s =
     (case Read os True kReadPollMs s of
        None \<Rightarrow> None
      | Some (rd, s1) \<Rightarrow>
          (case act_events (read_action jl st rd) of
             (evs, False) \<Rightarrow> Some ((evs, noted jl rd sc), s1)
           | (evs, True) \<Rightarrow>
               map_option (\<lambda>((evs1, sc1), s2). ((evs @ evs1, sc1), s2))
                 (read_session jl os st (noted jl rd sc) s1)))"
  by pat_completeness auto
termination
  by (relation "measure (\<lambda>(jl, os, st, sc, s). io_size s)") (auto dest: Read_io)

declare read_session.simps [simp del]

section \<open>What is heard\<close>

text \<open>
  The bytes taken, the messages among their frames, and how many bytes were lost to timeouts
  that struck within a frame header.
\<close>

inductive heard :: "u8 list \<Rightarrow> WsFrame list \<Rightarrow> nat \<Rightarrow> bool" where
  heard_nothing: "heard [] [] 0"
| heard_message: "framed cs (ctl @ [f]) \<Longrightarrow> list_all is_control ctl \<Longrightarrow> \<not> is_control f \<Longrightarrow> heard bs fs n \<Longrightarrow>
     heard (cs @ bs) (f # fs) n"
| heard_timeout: "framed cs ctl \<Longrightarrow> list_all is_control ctl \<Longrightarrow> length part < 2 \<Longrightarrow> heard bs fs n \<Longrightarrow>
     heard (cs @ part @ bs) fs (n + length part)"

lemma decode_frame_append:
  "decode_frame bs = Some (f, rest) \<Longrightarrow> decode_frame (bs @ cs) = Some (f, rest @ cs)"
  by (cases bs rule: decode_frame.cases) (auto simp: Let_def split: if_splits)

lemma framed_join: "framed bs fs \<Longrightarrow> framed cs gs \<Longrightarrow> framed (bs @ cs) (fs @ gs)"
proof (induction fs arbitrary: bs)
  case Nil
  then show ?case by simp
next
  case (Cons f fs)
  from Cons.prems(1) obtain rest where dec: "decode_frame bs = Some (f, rest)" and fs: "framed rest fs"
    by (auto split: option.splits)
  have "decode_frame (bs @ cs) = Some (f, rest @ cs)" using dec by (rule decode_frame_append)
  then show ?case using Cons.IH [OF fs Cons.prems(2)] by simp
qed

lemma control_filter: "list_all is_control ctl \<Longrightarrow> filter (\<lambda>f. \<not> is_control f) ctl = []"
  by (induction ctl) simp_all

lemma heard_in_step:
  "heard bs fs n \<Longrightarrow> n = 0 \<Longrightarrow> \<exists>gs. framed bs gs \<and> fs = filter (\<lambda>f. \<not> is_control f) gs"
proof (induction rule: heard.induct)
  case heard_nothing
  show ?case by (intro exI [of _ "[]"]) simp
next
  case (heard_message cs ctl f bs fs n)
  then obtain gs where "framed bs gs" "fs = filter (\<lambda>f. \<not> is_control f) gs" by blast
  with heard_message.hyps show ?case
    using framed_join [of cs "ctl @ [f]" bs gs] by (intro exI [of _ "ctl @ [f] @ gs"]) (simp add: control_filter)
next
  case (heard_timeout cs ctl part bs fs n)
  then obtain gs where "framed bs gs" "fs = filter (\<lambda>f. \<not> is_control f) gs" by auto
  with heard_timeout.hyps heard_timeout.prems show ?case
    using framed_join [of cs ctl bs gs] by (intro exI [of _ "ctl @ gs"]) (simp add: control_filter)
qed

text \<open>The callbacks of a message of a running session, and whether it ends the loop.\<close>

definition message_events :: "json_lib \<Rightarrow> WsFrame \<Rightarrow> event list" where
  "message_events jl f = fst (act_events (read_action jl Running (1, Some f, None)))"

definition goes_on :: "json_lib \<Rightarrow> WsFrame \<Rightarrow> bool" where
  "goes_on jl f = snd (act_events (read_action jl Running (1, Some f, None)))"

definition message_continue :: "json_lib \<Rightarrow> SpeakerContinue option \<Rightarrow> WsFrame \<Rightarrow> SpeakerContinue option" where
  "message_continue jl sc f = noted jl (1, Some f, None) sc"

lemma noted_nothing: "noted jl (rc, None, e) sc = sc"
  by (simp add: noted_def)

lemma read_action_timeout: "act_events (read_action jl Running (0, f, e)) = ([], True)"
  by (simp add: read_action_def)

lemma read_action_lost:
  "\<exists>msg. act_events (read_action jl Running (- 1, f, e)) = ([OnFail None (ASRError kErrReadFailed msg)], False)"
  by (simp add: read_action_def rstate_order)

text \<open>
  A run of the loop that takes the bytes \<open>bs\<close> with the messages \<open>fs\<close> and makes the callbacks
  \<open>evs\<close>; \<open>fin\<close> reports a connection that failed at \<open>t\<close>.
\<close>

definition heard_run ::
  "json_lib \<Rightarrow> os_lib \<Rightarrow> SpeakerContinue option \<Rightarrow> ws \<Rightarrow> event list \<times> SpeakerContinue option \<Rightarrow> ws \<Rightarrow>
     u8 list \<Rightarrow> WsFrame list \<Rightarrow> nat \<Rightarrow> bool" where
  "heard_run jl os sc s out s' bs fs n \<longleftrightarrow> heard bs fs n \<and> snd out = foldl (message_continue jl) sc fs \<and>
     (\<exists>t fin. ws_in t = ws_in s @ bs \<and>
        fst out = concat (map (message_events jl) fs) @ fin \<and> (\<forall>f\<in>set (butlast fs). goes_on jl f) \<and>
        (fin = [] \<and> t = s' \<and> fs \<noteq> [] \<and> \<not> goes_on jl (last fs) \<or>
         (\<exists>err msg. Read os True kReadPollMs t = Some ((- 1, None, err), s') \<and>
            fin = [OnFail None (ASRError kErrReadFailed msg)] \<and> (\<forall>f\<in>set fs. goes_on jl f))))"

lemma heard_run_more:
  assumes "took s bs s1" and "framed bs (ctl @ [f])" and "list_all is_control ctl" and "\<not> is_control f"
    and "goes_on jl f" and "heard_run jl os (message_continue jl sc f) s1 (evs, sc') s' cs fs n"
  shows "heard_run jl os sc s (message_events jl f @ evs, sc') s' (bs @ cs) (f # fs) n"
proof -
  obtain t fin where run: "heard cs fs n" "ws_in t = ws_in s1 @ cs"
    "evs = concat (map (message_events jl) fs) @ fin" "\<forall>f\<in>set (butlast fs). goes_on jl f"
    "fin = [] \<and> t = s' \<and> fs \<noteq> [] \<and> \<not> goes_on jl (last fs) \<or>
     (\<exists>err msg. Read os True kReadPollMs t = Some ((- 1, None, err), s') \<and>
        fin = [OnFail None (ASRError kErrReadFailed msg)] \<and> (\<forall>f\<in>set fs. goes_on jl f))"
    using assms(6) unfolding heard_run_def fst_conv by blast
  have "sc' = foldl (message_continue jl) sc (f # fs)" using assms(6) by (simp add: heard_run_def)
  then show ?thesis
    unfolding heard_run_def using heard_message [OF assms(2-4) run(1)] assms(1,5) run(2-5)
    by (intro conjI exI [of _ t] exI [of _ fin]) (auto simp: took_def)
qed

lemma heard_run_last:
  assumes "took s bs s1" and "framed bs (ctl @ [f])" and "list_all is_control ctl" and "\<not> is_control f"
    and "\<not> goes_on jl f"
  shows "heard_run jl os sc s (message_events jl f, message_continue jl sc f) s1 bs [f] 0"
  unfolding heard_run_def using heard_message [OF assms(2-4) heard_nothing] assms(1,5)
  by (intro conjI exI [of _ s1] exI [of _ "[]"]) (auto simp: took_def)

lemma heard_run_timeout:
  assumes "took s (bs @ part) s1" and "framed bs ctl" and "list_all is_control ctl" and "length part < 2"
    and "heard_run jl os sc s1 out s' cs fs n"
  shows "heard_run jl os sc s out s' (bs @ part @ cs) fs (n + length part)"
proof -
  have h: "heard (bs @ part @ cs) fs (n + length part)"
    using assms(5) by (intro heard_timeout [OF assms(2-4)]) (simp add: heard_run_def)
  have "ws_in s1 = ws_in s @ bs @ part" using assms(1) by (simp add: took_def)
  then show ?thesis using assms(5) h by (simp add: heard_run_def)
qed

lemma heard_run_lost:
  assumes "Read os True kReadPollMs s = Some ((- 1, None, err), s')"
  shows "heard_run jl os sc s ([OnFail None (ASRError kErrReadFailed msg)], sc) s' [] [] 0"
  unfolding heard_run_def using assms heard_nothing
  by (intro conjI exI [of _ s] exI [of _ "[OnFail None (ASRError kErrReadFailed msg)]"]) auto

lemma read_session_heard:
  assumes "read_session jl os Running sc s = Some (out, s')" and "ws_read_buf s = []"
  shows "\<exists>bs fs n. heard_run jl os sc s out s' bs fs n"
  using assms
proof (induction "io_size s" arbitrary: s sc out rule: less_induct)
  case less
  from less.prems(1) obtain rd s1 where rd: "Read os True kReadPollMs s = Some (rd, s1)"
    by (subst (asm) read_session.simps) (auto split: option.splits)
  note run = less.prems(1) [unfolded read_session.simps [of jl os Running sc s] rd option.case prod.case]
  from Read_outcome [OF rd less.prems(2)] consider
      (message) bs ctl f where "took s bs s1" "framed bs (ctl @ [f])" "list_all is_control ctl" "\<not> is_control f"
        "rd = (1, Some f, None)"
    | (timeout) bs ctl part where "took s (bs @ part) s1" "framed bs ctl" "list_all is_control ctl"
        "length part < 2" "rd = (0, None, None)"
    | (lost) e where "rd = (- 1, None, e)"
    unfolding read_outcome_def by blast
  then show ?case
  proof cases
    case message
    have buf: "ws_read_buf s1 = []" using message(1) by (simp add: took_def)
    show ?thesis
    proof (cases "goes_on jl f")
      case True
      with run message(5) obtain evs1 sc1 where
          more: "read_session jl os Running (message_continue jl sc f) s1 = Some ((evs1, sc1), s')"
        and out: "out = (message_events jl f @ evs1, sc1)"
        by (auto simp: goes_on_def message_events_def message_continue_def split: prod.splits bool.splits)
      from less.hyps [OF Read_io [OF rd] more buf] heard_run_more [OF message(1-4) True] show ?thesis
        unfolding out by blast
    next
      case False
      with run message(5) have "out = (message_events jl f, message_continue jl sc f)" "s' = s1"
        by (auto simp: goes_on_def message_events_def message_continue_def split: prod.splits bool.splits)
      then show ?thesis using heard_run_last [OF message(1-4) False] by blast
    qed
  next
    case timeout
    then have "read_session jl os Running sc s1 = Some (out, s')" and "ws_read_buf s1 = []"
      using run by (auto simp: read_action_timeout took_def noted_nothing split: option.splits prod.splits)
    from less.hyps [OF Read_io [OF rd] this] heard_run_timeout [OF timeout(1-4)] show ?thesis by blast
  next
    case lost
    obtain msg where "act_events (read_action jl Running rd) = ([OnFail None (ASRError kErrReadFailed msg)], False)"
      using read_action_lost lost by blast
    then have "out = ([OnFail None (ASRError kErrReadFailed msg)], sc)" "s' = s1"
      using run lost by (auto simp: noted_nothing)
    then show ?thesis using heard_run_lost rd lost by blast
  qed
qed

section \<open>Property\<close>

text \<open>
  Claim C9. From the service's bytes to the application. While a session runs and its callbacks
  return, the reader takes messages off the connection one after the other and makes the
  callbacks of each exactly once, in the order of the messages and with nothing in between,
  until a message that ends the session, or until the connection fails, which is reported
  as the last callback. A response with an error code fails, a final one is dispatched and
  completes, any other one is dispatched if it has a result; the speaker context that can be
  asked for is that of the last response that carried one. If no timeout struck within a
  frame header, the messages are all data frames of the service's stream, whatever the
  segmentation, the timeouts and the pings.
\<close>

theorem downlink_delivers:
  assumes "read_session jl os Running sc s = Some ((evs, sc'), s')" and "ws_read_buf s = []"
  shows "\<exists>bs fs n t fin. heard bs fs n \<and> ws_in t = ws_in s @ bs \<and>
    evs = concat (map (message_events jl) fs) @ fin \<and> (\<forall>f\<in>set (butlast fs). goes_on jl f) \<and>
    (fin = [] \<and> t = s' \<and> fs \<noteq> [] \<and> \<not> goes_on jl (last fs) \<or>
     (\<exists>err msg. Read os True kReadPollMs t = Some ((- 1, None, err), s') \<and>
        fin = [OnFail None (ASRError kErrReadFailed msg)] \<and> (\<forall>f\<in>set fs. goes_on jl f))) \<and>
    (n = 0 \<longrightarrow> (\<exists>gs. framed bs gs \<and> fs = filter (\<lambda>f. \<not> is_control f) gs)) \<and>
    sc' = foldl (message_continue jl) sc fs \<and>
    (\<forall>f\<in>set fs. \<forall>resp old. wf_opcode f = 0x1 \<longrightarrow> ParseSpeechResponse jl (string_of (wf_payload f)) = Inr resp \<longrightarrow>
       message_events jl f =
         (if sr_code resp \<noteq> 0 then [OnFail (Some resp) (ASRError (sr_code resp) (sr_message resp))]
          else if sr_final_flag resp = 1 then dispatched resp @ [OnRecognitionComplete resp]
          else if sr_has_result resp then dispatched resp else []) \<and>
       message_continue jl old f = (case sr_speaker_continue resp of None \<Rightarrow> old | Some c \<Rightarrow> Some c))"
proof -
  have told: "message_events jl f =
      (if sr_code resp \<noteq> 0 then [OnFail (Some resp) (ASRError (sr_code resp) (sr_message resp))]
       else if sr_final_flag resp = 1 then dispatched resp @ [OnRecognitionComplete resp]
       else if sr_has_result resp then dispatched resp else [])"
    if "wf_opcode f = 0x1" and "ParseSpeechResponse jl (string_of (wf_payload f)) = Inr resp" for f resp
    using that by (simp add: message_events_def read_action_def)
  have kept: "message_continue jl old f = (case sr_speaker_continue resp of None \<Rightarrow> old | Some c \<Rightarrow> Some c)"
    if "wf_opcode f = 0x1" and "ParseSpeechResponse jl (string_of (wf_payload f)) = Inr resp" for old f resp
    using that by (simp add: message_continue_def noted_def note_continue_def)
  obtain bs fs n t fin where run: "heard bs fs n" "ws_in t = ws_in s @ bs"
    "evs = concat (map (message_events jl) fs) @ fin" "\<forall>f\<in>set (butlast fs). goes_on jl f"
    "fin = [] \<and> t = s' \<and> fs \<noteq> [] \<and> \<not> goes_on jl (last fs) \<or>
     (\<exists>err msg. Read os True kReadPollMs t = Some ((- 1, None, err), s') \<and>
        fin = [OnFail None (ASRError kErrReadFailed msg)] \<and> (\<forall>f\<in>set fs. goes_on jl f))"
    and sc: "sc' = foldl (message_continue jl) sc fs"
    using read_session_heard [OF assms] unfolding heard_run_def fst_conv snd_conv by blast
  show ?thesis
  proof (intro exI conjI)
    show "n = 0 \<longrightarrow> (\<exists>gs. framed bs gs \<and> fs = filter (\<lambda>f. \<not> is_control f) gs)"
      using heard_in_step [OF run(1)] by simp
  qed (use run sc told kept in \<open>simp_all only:, blast\<close>)
qed

definition sample_docs :: "(string \<times> json) list" where
  "sample_docs = [(''r'', JObj [(''code'', JInt 0), (''final'', JInt 1), (''message'', JStr ''ok'')])]"

definition sample_down :: ws where
  "sample_down = new_ws [NowMs 0, NowMs 0, ready, RecvData [0x81], NowMs 0, ready, RecvData [1],
     NowMs 0, NowMs 0, ready, RecvData [0x72]]"

lemma sample_down_run:
  "\<exists>s'. Read sample_os True kReadPollMs sample_down =
      Some ((1, Some \<lparr> wf_opcode = 1, wf_payload = [0x72], wf_fin = True \<rparr>, None), s')"
proof -
  have "\<exists>s'. Read sample_os True 100 sample_down =
      Some ((1, Some \<lparr> wf_opcode = 1, wf_payload = [0x72], wf_fin = True \<rparr>, None), s')"
    by (rule exI [of _ "sample_down \<lparr> ws_env := [], ws_in := [0x81, 1, 0x72] \<rparr>"]) code_simp
  then show ?thesis by (simp add: kReadPollMs_def)
qed

definition sample_final :: SpeechRecognitionResponse where
  "sample_final = \<lparr> sr_code = 0, sr_message = ''ok'', sr_voice_id = [], sr_message_id = [], sr_final_flag = 1,
     sr_result = RecognitionResult_default, sr_has_result = False, sr_speaker_continue = None \<rparr>"

lemma sample_response:
  "ParseSpeechResponse (doc_lib sample_docs) ''r'' = Inr sample_final"
  by (simp add: ParseSpeechResponse_def ParseSpeechResponseInner_def doc_lib_def sample_docs_def
      jvalue_def ParseSpeakerContinue_def jmember_def rethrow_as_def sample_final_def)

lemma sample_session:
  "\<exists>s'. read_session (doc_lib sample_docs) sample_os Running None sample_down =
     Some (([OnRecognitionComplete sample_final], None), s')"
proof -
  obtain s' where read: "Read sample_os True kReadPollMs sample_down =
      Some ((1, Some \<lparr> wf_opcode = 1, wf_payload = [0x72], wf_fin = True \<rparr>, None), s')"
    using sample_down_run by blast
  have payload: "char_of_byte 0x72 = CHR ''r''" by code_simp
  have final: "sr_code sample_final = 0" "sr_final_flag sample_final = 1" "dispatched sample_final = []"
    by (simp_all add: sample_final_def dispatched_def DispatchEvent_def RecognitionResult_default_def)
  have "read_action (doc_lib sample_docs) Running (1, Some \<lparr> wf_opcode = 1, wf_payload = [0x72], wf_fin = True \<rparr>, None) =
      CompleteWith sample_final"
    using final by (simp add: read_action_def payload sample_response)
  moreover have "noted (doc_lib sample_docs) (1, Some \<lparr> wf_opcode = 1, wf_payload = [0x72], wf_fin = True \<rparr>, None) None =
      None"
    by (simp add: noted_def payload sample_response note_continue_def sample_final_def)
  ultimately show ?thesis by (simp add: read_session.simps [of "doc_lib sample_docs"] read final)
qed

theorem downlink_delivers_witness:
  "\<exists>fs. concat (map (message_events (doc_lib sample_docs)) fs) = [OnRecognitionComplete sample_final] \<and> fs \<noteq> [] \<and>
     \<not> goes_on (doc_lib sample_docs) (last fs)"
proof -
  obtain s' where run: "read_session (doc_lib sample_docs) sample_os Running None sample_down =
      Some (([OnRecognitionComplete sample_final], None), s')"
    using sample_session by blast
  have "ws_read_buf sample_down = []" by (simp add: sample_down_def new_ws_def)
  from downlink_delivers [OF run this] obtain fs t fin where
    "[OnRecognitionComplete sample_final] = concat (map (message_events (doc_lib sample_docs)) fs) @ fin"
    "fin = [] \<and> t = s' \<and> fs \<noteq> [] \<and> \<not> goes_on (doc_lib sample_docs) (last fs) \<or>
     (\<exists>err msg. Read sample_os True kReadPollMs t = Some ((- 1, None, err), s') \<and>
        fin = [OnFail None (ASRError kErrReadFailed msg)] \<and> (\<forall>f\<in>set fs. goes_on (doc_lib sample_docs) f))"
    by (elim exE conjE) (rule that; assumption)
  then show ?thesis by (elim disjE exE conjE) (auto simp: Cons_eq_append_conv)
qed

end
