(* ===== verification/ReaderRun.thy ===== *)
theory ReaderRun
  imports Downlink
begin

text \<open>
  The sequential read loop of \<open>Downlink\<close> is a run of the reader thread of \<open>Lifecycle\<close>: the
  same callbacks in the same order, and the thread at its end when the loop ends.
\<close>

section \<open>The loop is a run of the reader thread\<close>

text \<open>\<open>follows jl s evs p s'\<close>: the reader alone gets from \<open>s\<close> to \<open>p\<close>, making the callbacks \<open>evs\<close>.\<close>

definition follows :: "json_lib \<Rightarrow> session \<Rightarrow> event list \<Rightarrow> session \<Rightarrow> bool" where
  "follows jl s evs s' \<longleftrightarrow>
     (reader_step jl)\<^sup>*\<^sup>* s s' \<and> map snd (ls_events s') = map snd (ls_events s) @ evs \<and> ls_pc s' = ls_pc s"

lemma follows_refl: "follows jl s [] s"
  by (simp add: follows_def)

lemma follows_trans: "follows jl s evs t \<Longrightarrow> follows jl t evs' u \<Longrightarrow> follows jl s (evs @ evs') u"
  by (auto simp: follows_def)

text \<open>\<open>ends jl s evs\<close>: the reader alone gets from \<open>s\<close> to its end, making the callbacks \<open>evs\<close>.\<close>

definition ends :: "json_lib \<Rightarrow> session \<Rightarrow> event list \<Rightarrow> bool" where
  "ends jl s evs \<longleftrightarrow> (\<exists>s'. follows jl s evs s' \<and> ls_reader s' = RGone)"

lemma ends_quiet:
  assumes "reader_step jl s t" and "ends jl t evs" and "ls_events t = ls_events s" and "ls_pc t = ls_pc s"
  shows "ends jl s evs"
  using assms unfolding ends_def follows_def by (metis converse_rtranclp_into_rtranclp)

lemma ends_call:
  assumes "reader_step jl s t" and "ends jl t evs" and "map snd (ls_events t) = map snd (ls_events s) @ [ev]"
    and "ls_pc t = ls_pc s"
  shows "ends jl s (ev # evs)"
  using assms unfolding ends_def follows_def by (metis append_Cons append_Nil append_assoc converse_rtranclp_into_rtranclp)

lemma ends_gone: "ls_reader s = RGone \<Longrightarrow> ends jl s []"
  unfolding ends_def using follows_refl by blast

lemma ends_signal: "ls_reader s = RSignal \<Longrightarrow> ends jl s []"
  by (rule ends_quiet [OF signal_done]) (simp_all add: ends_gone)

lemma ends_exit:
  assumes "ls_reader s = RFinish AExit"
  shows "ends jl s []"
proof (cases "ls_finished s")
  case True
  with assms show ?thesis
    by - (rule ends_quiet [OF finish_again [of _ AExit]], simp_all add: after_finish_def ends_signal)
next
  case False
  let ?t = "goto (RClose AExit) (s \<lparr> ls_state := Stopped \<rparr>)"
  have "ends jl ?t []"
    by (rule ends_quiet [OF finish_close [of _ AExit]]) (simp_all add: after_finish_def ends_signal)
  with assms False show ?thesis by - (rule ends_quiet [OF finish_store [of _ AExit]], simp_all)
qed

lemma ends_last_call:
  assumes "ls_reader s = RCall ev ToExit" and "ls_pc s 0 = CIdle"
  shows "ends jl s []"
  by (rule ends_quiet [OF callback_returns [OF assms]]) (simp_all add: after_call_def ends_exit)

text \<open>The end of the session: \<^verbatim>\<open>Finish\<close>, the mark when there is one, and the last callbacks.\<close>

lemma ends_fail:
  assumes "ls_reader s = RFinish (AFail ev mark)" and "\<not> ls_finished s" and "ls_pc s 0 = CIdle"
  shows "ends jl s [ev]"
proof -
  let ?t = "goto (RClose (AFail ev mark)) (s \<lparr> ls_state := Stopped \<rparr>)"
  let ?u = "?t \<lparr> ls_conn := False, ls_finished := True \<rparr>"
  have call: "ends jl (enter ev ToExit v) []" if "ls_pc v = ls_pc s" for v
    using that assms(3) by (intro ends_last_call) simp_all
  have "ends jl ?t [ev]"
  proof (cases mark)
    case True
    have "ends jl (goto (RMark (AFail ev mark)) ?u) [ev]"
      by (rule ends_call [OF mark_terminal [of _ "AFail ev mark"]]) (simp_all add: after_mark_def call)
    with True show ?thesis
      by - (rule ends_quiet [OF finish_close [of _ "AFail ev mark"]], simp_all add: after_finish_def)
  next
    case False
    then show ?thesis
      by - (rule ends_call [OF finish_close [of _ "AFail ev mark"]], simp_all add: after_finish_def call)
  qed
  with assms(1,2) show ?thesis by - (rule ends_quiet [OF finish_store [of _ "AFail ev mark"]], simp_all)
qed

lemma ends_complete:
  assumes "ls_reader s = RFinish (AComplete resp)" and "\<not> ls_finished s" and "ls_pc s 0 = CIdle"
  shows "ends jl s (dispatched resp @ [OnRecognitionComplete resp])"
proof -
  let ?done = "OnRecognitionComplete resp"
  let ?t = "goto (RClose (AComplete resp)) (s \<lparr> ls_state := Stopped \<rparr>)"
  let ?m = "goto (RMark (AComplete resp)) (?t \<lparr> ls_conn := False, ls_finished := True \<rparr>)"
  have call: "ends jl (enter ?done ToExit v) []" if "ls_pc v = ls_pc s" for v
    using that assms(3) by (intro ends_last_call) simp_all
  have "ends jl ?m (dispatched resp @ [?done])"
  proof (cases "DispatchEvent resp")
    case None
    then have "ends jl ?m [?done]"
      by - (rule ends_call [OF mark_terminal [of _ "AComplete resp"]], simp_all add: after_mark_def call)
    with None show ?thesis by (simp add: dispatched_def)
  next
    case (Some ev)
    let ?w = "enter ev (ToComplete resp) (?m \<lparr> ls_terminal := True \<rparr>)"
    have "ends jl ?w [?done]"
      using assms(3) by - (rule ends_call [OF callback_returns [of _ ev "ToComplete resp"]], simp_all add: after_call_def call)
    then have "ends jl ?m [ev, ?done]"
      using Some by - (rule ends_call [OF mark_terminal [of _ "AComplete resp"]], simp_all add: after_mark_def)
    with Some show ?thesis by (simp add: dispatched_def)
  qed
  then have "ends jl ?t (dispatched resp @ [?done])"
    by - (rule ends_quiet [OF finish_close [of _ "AComplete resp"]], simp_all add: after_finish_def)
  with assms(1,2) show ?thesis by - (rule ends_quiet [OF finish_store [of _ "AComplete resp"]], simp_all)
qed

text \<open>One pass: at the next read, or at the end of the thread.\<close>

definition reading :: "session \<Rightarrow> bool" where
  "reading s \<longleftrightarrow> ls_reader s = RRead \<and> \<not> ls_finished s \<and> ls_pc s 0 = CIdle"

lemma ends_leave:
  assumes "reading s" and "do_action (read_action jl (ls_state s) rd) s = goto p s" and "ends jl (goto p s) evs"
  shows "ends jl s evs"
  using assms(1) ends_quiet [OF reader_read [of s jl rd] _ _ _] assms(2,3) by (simp add: reading_def)

lemma again_follows:
  assumes "reading s" and "do_action (read_action jl (ls_state s) rd) s = goto RRead s"
  shows "\<exists>s'. follows jl s [] s' \<and> reading s' \<and> ls_state s' = ls_state s"
  using assms reader_read [of s jl rd]
  by (intro exI [of _ "goto RRead s"]) (auto simp: follows_def reading_def)

lemma report_follows:
  assumes "reading s" and "do_action (read_action jl (ls_state s) rd) s = enter ev ToRead s"
  shows "\<exists>s'. follows jl s [ev] s' \<and> reading s' \<and> ls_state s' = ls_state s"
proof -
  have "reader_step jl s (enter ev ToRead s)"
    using assms reader_read [of s jl rd] by (simp add: reading_def)
  moreover have "reader_step jl (enter ev ToRead s) (goto RRead (enter ev ToRead s))"
    using callback_returns [of "enter ev ToRead s" ev ToRead jl] assms(1) by (simp add: after_call_def reading_def)
  ultimately show ?thesis using assms(1)
    by (intro exI [of _ "goto RRead (enter ev ToRead s)"])
      (auto simp: follows_def reading_def intro: converse_rtranclp_into_rtranclp)
qed

lemma pass_follows:
  assumes "reading s" and "act_events (read_action jl (ls_state s) rd) = (evs, on)"
  shows "if on then \<exists>s'. follows jl s evs s' \<and> reading s' \<and> ls_state s' = ls_state s else ends jl s evs"
proof -
  note pos = assms(1) [unfolded reading_def]
  note again = again_follows [OF assms(1), of jl rd] and report = report_follows [OF assms(1), of jl rd]
    and leave = ends_leave [OF assms(1), of jl rd]
  have fail: "ends jl (goto (RFinish (AFail ev mark)) s) [ev]" for ev mark
    using pos by (intro ends_fail) simp_all
  show ?thesis
  proof (cases "read_action jl (ls_state s) rd")
    case Leave
    then show ?thesis using assms(2) leave [OF _ ends_exit] by (auto simp: do_action_def)
  next
    case (CompleteWith resp)
    have "ends jl (goto (RFinish (AComplete resp)) s) (dispatched resp @ [OnRecognitionComplete resp])"
      using pos by (intro ends_complete) simp_all
    with CompleteWith show ?thesis using assms(2) leave by (auto simp: do_action_def)
  next
    case (Deliver resp)
    then show ?thesis using assms(2) again report
      by (cases "DispatchEvent resp") (auto simp: do_action_def dispatched_def)
  qed (use assms(2) again report leave [OF _ fail] in \<open>auto simp: do_action_def\<close>)
qed

text \<open>The whole loop.\<close>

lemma read_session_ends:
  assumes "read_session jl os st sc w = Some ((evs, sc'), w')" and "reading s" and "ls_state s = st"
  shows "ends jl s evs"
  using assms
proof (induction "io_size w" arbitrary: w s sc evs rule: less_induct)
  case less
  from less.prems(1) obtain rd w1 where rd: "Read os True kReadPollMs w = Some (rd, w1)"
    by (subst (asm) read_session.simps) (auto split: option.splits)
  note run = less.prems(1) [unfolded read_session.simps [of jl os st sc w] rd option.case prod.case]
  obtain evs1 on where act: "act_events (read_action jl st rd) = (evs1, on)" by fastforce
  have pass: "if on then \<exists>t. follows jl s evs1 t \<and> reading t \<and> ls_state t = st else ends jl s evs1"
    by (rule pass_follows [OF less.prems(2), of jl rd evs1 on, unfolded less.prems(3), OF act])
  show ?case
  proof (cases on)
    case True
    with pass obtain t where t: "follows jl s evs1 t" "reading t" "ls_state t = st" by auto
    from run act True obtain evs2 where "read_session jl os st (noted jl rd sc) w1 = Some ((evs2, sc'), w')" and evs: "evs = evs1 @ evs2" by auto
    from less.hyps [OF Read_io [OF rd] this(1) t(2,3)] show ?thesis
      unfolding ends_def evs using follows_trans [OF t(1)] by blast
  next
    case False
    with run act pass show ?thesis by auto
  qed
qed

end
