(* ===== verification/Examples.thy ===== *)
theory Examples
  imports AudioIntake FileProps V3Props
begin

text \<open>
  The offline programs under \<^verbatim>\<open>examples/\<close>: \<^verbatim>\<open>sentence_asr.cc\<close>, \<^verbatim>\<open>file_asr.cc\<close> and their v3
  forms, from the command line to the exit code, over the recognizers of the SDK. A program
  gives how it ends, what it writes to the two streams in order, and the world afterwards.
\<close>

section \<open>A process\<close>

text \<open>\<open>Terminate e\<close>: an exception leaves \<^verbatim>\<open>main\<close>, or behaviour is undefined.\<close>

datatype ending = Exit int | Terminate exn

datatype print = Out string | Err string

type_synonym 'a stage = "ending \<times> print list + 'a"

text \<open>
  The environment variables, the files that can be read, and the order in which the compiler
  evaluates the three arguments of a constructor, which C++ leaves open.
\<close>

record host =
  h_getenv :: "string \<Rightarrow> string option"
  h_file :: "string \<Rightarrow> u8 list option"
  h_order :: "nat list"

definition quits :: "int \<Rightarrow> string \<Rightarrow> 'a stage" where
  "quits k message = Inl (Exit k, [Err message])"

definition nl :: string where
  "nl = [CHR 0x0A]"

text \<open>A \<^verbatim>\<open>const char*\<close> is printed up to its first NUL.\<close>

definition c_str :: "string \<Rightarrow> string" where
  "c_str s = takeWhile (\<lambda>c. c \<noteq> CHR 0x00) s"

text \<open>The handler around the calls, with the heading that it prints.\<close>

definition caught :: "string \<Rightarrow> exn \<Rightarrow> ending \<times> print list" where
  "caught heading e = (if is_asr_error e then (Exit 1, [Err (heading @ c_str (exn_what e) @ nl)]) else (Terminate e, []))"

definition then_prints :: "print list \<Rightarrow> ending \<times> print list \<Rightarrow> ending \<times> print list" where
  "then_prints before r = (fst r, before @ snd r)"

section \<open>Numbers in the environment\<close>

text \<open>
  \<^verbatim>\<open>strtoll\<close>: blanks, a sign, digits; None when there is no digit. \<^verbatim>\<open>std::stoll\<close> throws then,
  and for a value out of range; for \<^verbatim>\<open>std::atoll\<close> and \<^verbatim>\<open>std::atoi\<close> no digit is 0, and a value out
  of range is undefined.
\<close>

definition is_digit :: "char \<Rightarrow> bool" where
  "is_digit c \<longleftrightarrow> 48 \<le> char_code c \<and> char_code c \<le> 57"

definition digits_value :: "string \<Rightarrow> int" where
  "digits_value ds = foldl (\<lambda>n c. 10 * n + (int (char_code c) - 48)) 0 ds"

definition strtoll :: "string \<Rightarrow> int option" where
  "strtoll v =
     (let t = trim_front v;
          neg = (t \<noteq> [] \<and> hd t = CHR ''-'');
          d = takeWhile is_digit (if t \<noteq> [] \<and> hd t \<in> {CHR ''-'', CHR ''+''} then tl t else t)
      in if d = [] then None else Some (if neg then - digits_value d else digits_value d))"

definition in_width :: "nat \<Rightarrow> int \<Rightarrow> bool" where
  "in_width w i \<longleftrightarrow> - (2 ^ (w - 1)) \<le> i \<and> i < 2 ^ (w - 1)"

definition stoll :: "string \<Rightarrow> int result" where
  "stoll v =
     (case strtoll v of
        None \<Rightarrow> Inl (StdException ''stoll'')
      | Some i \<Rightarrow> if in_width 64 i then Inr i else Inl (StdException ''stoll''))"

definition ato :: "nat \<Rightarrow> string \<Rightarrow> int result" where
  "ato w v =
     (case strtoll v of
        None \<Rightarrow> Inr 0
      | Some i \<Rightarrow> if in_width w i then Inr i else Inl (Undefined ''number out of range''))"

text \<open>An exception here leaves \<^verbatim>\<open>main\<close>.\<close>

definition uncaught :: "'a result \<Rightarrow> 'a stage" where
  "uncaught r = (case r of Inl e \<Rightarrow> Inl (Terminate e, []) | Inr x \<Rightarrow> Inr x)"

section \<open>Credentials and arguments\<close>

definition EnvStr :: "host \<Rightarrow> string \<Rightarrow> string stage" where
  "EnvStr h name =
     (case h_getenv h name of
        None \<Rightarrow> quits 1 (''missing env var: '' @ name @ nl)
      | Some v \<Rightarrow> Inr v)"

definition EnvInt :: "host \<Rightarrow> string \<Rightarrow> int stage" where
  "EnvInt h name =
     (case h_getenv h name of
        None \<Rightarrow> quits 1 (''missing env var: '' @ name @ nl)
      | Some v \<Rightarrow> uncaught (stoll v))"

text \<open>The arguments are evaluated in the order of the host; the first that stops stops the program.\<close>

fun all_of :: "nat list \<Rightarrow> (nat \<Rightarrow> unit stage) \<Rightarrow> unit stage" where
  "all_of [] f = Inr ()"
| "all_of (i # is) f = bindE (f i) (\<lambda>_. all_of is f)"

definition env_credential :: "host \<Rightarrow> Credential stage" where
  "env_credential h =
     (let app = EnvInt h ''TRTC_ASR_APP_ID'';
          sdk = EnvInt h ''TRTC_ASR_SDK_APP_ID'';
          secret = EnvStr h ''TRTC_ASR_SECRET_KEY''
      in bindE (all_of (h_order h) (\<lambda>i. if i = 0 then bindE app (\<lambda>_. Inr ())
                                      else if i = 1 then bindE sdk (\<lambda>_. Inr ())
                                      else bindE secret (\<lambda>_. Inr ()))) (\<lambda>_.
         bindE app (\<lambda>a. bindE sdk (\<lambda>s. bindE secret (\<lambda>k. Inr (new_Credential a s k))))))"

definition env_credential_v3 :: "host \<Rightarrow> Credential stage" where
  "env_credential_v3 h =
     (let key = (case h_getenv h ''TRTC_ASR_SECRET_KEY'' of None \<Rightarrow> [] | Some v \<Rightarrow> v)
      in bindE (case h_getenv h ''TRTC_ASR_SDK_APP_ID'' of None \<Rightarrow> Inr 0 | Some v \<Rightarrow> uncaught (ato 64 v)) (\<lambda>sdk.
         if sdk = 0 \<or> key = []
         then quits 1 (''Set TRTC_ASR_SDK_APP_ID and TRTC_ASR_SECRET_KEY first.'' @ nl)
         else Inr (NewCredential_v3 sdk key)))"

definition engine_missing :: "'a stage" where
  "engine_missing = quits 2 (''error: engine argument is required (engine model type, e.g. bigmodel)'' @ nl)"

definition default_lang :: "string \<Rightarrow> string \<Rightarrow> string" where
  "default_lang engine lang = (if lang = [] \<and> engine = ''bigmodel'' then ''zh'' else lang)"

definition arg :: "string list \<Rightarrow> nat \<Rightarrow> string \<Rightarrow> string" where
  "arg argv i otherwise = (if i < length argv then argv ! i else otherwise)"

definition opened :: "host \<Rightarrow> string \<Rightarrow> u8 list stage" where
  "opened h path =
     (case h_file h path of
        None \<Rightarrow> quits 1 (''cannot open '' @ path @ nl)
      | Some bytes \<Rightarrow> Inr bytes)"

section \<open>The sentence programs\<close>

definition result_heading :: string where
  "result_heading = string_of [0xE8, 0xAF, 0x86, 0xE5, 0x88, 0xAB, 0xE7, 0xBB, 0x93, 0xE6, 0x9E, 0x9C, 0x3A, 0x20]"

definition duration_heading :: string where
  "duration_heading = string_of [0xE9, 0x9F, 0xB3, 0xE9, 0xA2, 0x91, 0xE6, 0x97, 0xB6, 0xE9, 0x95, 0xBF, 0x3A, 0x20]"

definition failure_heading :: string where
  "failure_heading = string_of [0xE8, 0xAF, 0x86, 0xE5, 0x88, 0xAB, 0xE5, 0xA4, 0xB1, 0xE8, 0xB4, 0xA5, 0x3A, 0x20]"

definition task_heading :: string where
  "task_heading = string_of [0xE4, 0xBB, 0xBB, 0xE5, 0x8A, 0xA1, 0xE5, 0xB7, 0xB2, 0xE6, 0x8F, 0x90, 0xE4, 0xBA, 0xA4, 0x3A, 0x20]"

definition sentence_setup ::
  "host \<Rightarrow> string list \<Rightarrow> (SentenceRecognizer \<times> u8 list \<times> SentenceRecognitionRequest) stage" where
  "sentence_setup h argv =
     (if length argv < 2
      then quits 1 (''usage: '' @ argv ! 0 @ '' <audio-file> [format=pcm] <engine> [lang]'' @ nl)
      else if length argv \<le> 3 then engine_missing
      else
        let engine = argv ! 3; lang = default_lang engine (arg argv 4 [])
        in bindE (opened h (argv ! 1)) (\<lambda>bytes.
           bindE (env_credential h) (\<lambda>cred.
           Inr (new_SentenceRecognizer cred, bytes,
             new_SentenceRecognitionRequest \<lparr> sq_eng_service_type := engine,
               sq_voice_format := arg argv 2 ''pcm'',
               sq_language := (if lang \<noteq> [] then lang else []) \<rparr>))))"

definition sentence_report :: "SentenceRecognitionResult \<Rightarrow> print list" where
  "sentence_report res =
     [Out (result_heading @ srr_result res @ nl),
      Out (duration_heading @ to_string (srr_audio_duration res) @ '' ms'' @ nl)]"

definition sentence_asr :: "sdk_env \<Rightarrow> host \<Rightarrow> string list \<Rightarrow> world \<Rightarrow> (ending \<times> print list) \<times> world" where
  "sentence_asr env h argv w =
     (case sentence_setup h argv of
        Inl stop \<Rightarrow> (stop, w)
      | Inr (self, bytes, req) \<Rightarrow>
          (case fst (RecognizeDataWithOptions env self bytes (Some req) w) of
             (Inr res, w') \<Rightarrow> ((Exit 0, sentence_report res), w')
           | (Inl e, w') \<Rightarrow> (caught failure_heading e, w')))"

definition v3_sentence_setup ::
  "host \<Rightarrow> string list \<Rightarrow> (SentenceRecognizer_v3 \<times> u8 list \<times> TranscribeRequest) stage" where
  "v3_sentence_setup h argv =
     bindE (env_credential_v3 h) (\<lambda>cred.
     if length argv \<le> 2 then engine_missing
     else
       let engine = argv ! 2; lang = default_lang engine (arg argv 3 [])
       in bindE (opened h (arg argv 1 ''audio.pcm'')) (\<lambda>bytes.
          Inr (new_SentenceRecognizer_v3 cred, bytes,
            new_TranscribeRequest \<lparr> tq_engine_model_type := engine, tq_voice_format := ''pcm'',
              tq_language := (if lang \<noteq> [] then lang else []) \<rparr>)))"

definition v3_sentence_report :: "TranscribeResponse \<Rightarrow> print list" where
  "v3_sentence_report resp =
     [Out (''Result: '' @ tr_result resp @ nl),
      Out (''Duration: '' @ to_string (tr_audio_duration resp) @ '' ms  RequestId: '' @ tr_request_id resp @ nl)] @
     map (\<lambda>x. Out (''  ['' @ to_string (vw_start_time x) @ '' - '' @ to_string (vw_end_time x) @ ''] '' @
                 vw_word x @ nl)) (tr_word_list resp)"

definition v3_sentence_asr :: "sdk_env \<Rightarrow> host \<Rightarrow> string list \<Rightarrow> world \<Rightarrow> (ending \<times> print list) \<times> world" where
  "v3_sentence_asr env h argv w =
     (case v3_sentence_setup h argv of
        Inl stop \<Rightarrow> (stop, w)
      | Inr (self, bytes, req) \<Rightarrow>
          (case fst (RecognizeDataWithOptions_v3 env self bytes (Some req) w) of
             (Inr resp, w') \<Rightarrow> ((Exit 0, v3_sentence_report resp), w')
           | (Inl e, w') \<Rightarrow> (caught ''recognize failed: '' e, w')))"

section \<open>The file programs\<close>

text \<open>The second component says whether the recording is named by a URL.\<close>

definition file_setup :: "host \<Rightarrow> string list \<Rightarrow> (FileRecognizer \<times> bool \<times> CreateRecTaskRequest) stage" where
  "file_setup h argv =
     (if length argv < 2
      then quits 1 (''usage: '' @ argv ! 0 @ '' <audio-file> <engine> [lang] | -u <url> <engine> [lang]'' @ nl)
      else
        let url_mode = (argv ! 1 = ''-u''); engine_idx = (if url_mode then 3 else 2)
        in if length argv \<le> engine_idx then engine_missing
           else
             let engine = argv ! engine_idx;
                 lang = default_lang engine (arg argv (if url_mode then 4 else 3) [])
             in bindE (env_credential h) (\<lambda>cred.
                Inr (new_FileRecognizer cred, url_mode,
                  new_CreateRecTaskRequest \<lparr> cq_engine_model_type := engine, cq_channel_num := 1,
                    cq_res_text_format := 1, cq_language := (if lang \<noteq> [] then lang else []) \<rparr>)))"

text \<open>The task is created from the URL or from the bytes of the file.\<close>

definition file_task ::
  "sdk_env \<Rightarrow> host \<Rightarrow> string list \<Rightarrow> FileRecognizer \<Rightarrow> bool \<Rightarrow> CreateRecTaskRequest \<Rightarrow> world \<Rightarrow>
     string result stage \<times> world" where
  "file_task env h argv self url_mode req w =
     (if url_mode
      then if length argv < 3 then (quits 1 (''missing url after -u'' @ nl), w)
        else (case CreateTask env self (req \<lparr> cq_source_type := kSourceTypeURL, cq_url := argv ! 2 \<rparr>) w of
                (r, w') \<Rightarrow> (Inr r, w'))
      else (case opened h (argv ! 1) of
              Inl stop \<Rightarrow> (Inl stop, w)
            | Inr bytes \<Rightarrow>
                (case fst (CreateTaskFromDataWithOptions env self bytes (Some req) w) of
                   (r, w') \<Rightarrow> (Inr r, w'))))"

definition file_report :: "TaskStatus \<Rightarrow> print list" where
  "file_report st =
     [Out (result_heading @ ts_result st @ nl),
      Out (duration_heading @ fmt_g (ts_audio_duration st) @ '' s'' @ nl)] @
     map (\<lambda>d. Out (''  ['' @
         (if sd_speaker_role_name d \<noteq> [] then sd_speaker_role_name d
          else if sd_channel_id d > 0 then ''ch'' @ to_string (sd_channel_id d)
          else ''spk'' @ to_string (sd_speaker_id d)) @
         ''] ('' @ to_string (sd_start_ms d) @ ''-'' @ to_string (sd_end_ms d) @ ''ms) '' @
         sd_final_sentence d @ nl)) (ts_result_detail st)"

definition file_asr ::
  "sdk_env \<Rightarrow> host \<Rightarrow> string list \<Rightarrow> world \<Rightarrow> ((ending \<times> print list) \<times> world) option" where
  "file_asr env h argv w =
     (case file_setup h argv of
        Inl stop \<Rightarrow> Some (stop, w)
      | Inr (self, url_mode, req) \<Rightarrow>
          (case file_task env h argv self url_mode req w of
             (Inl stop, w1) \<Rightarrow> Some (stop, w1)
           | (Inr (Inl e), w1) \<Rightarrow> Some (caught failure_heading e, w1)
           | (Inr (Inr tid), w1) \<Rightarrow>
               let submitted = [Out (task_heading @ tid @ nl)]
               in case WaitForResult env self tid w1 of
                    None \<Rightarrow> None
                  | Some (Inl e, w2) \<Rightarrow> Some (then_prints submitted (caught failure_heading e), w2)
                  | Some (Inr st, w2) \<Rightarrow> Some (then_prints submitted (Exit 0, file_report st), w2)))"

definition v3_file_setup ::
  "host \<Rightarrow> string list \<Rightarrow> (FileRecognizer_v3 \<times> bool \<times> CreateTranscriptionRequest) stage" where
  "v3_file_setup h argv =
     bindE (env_credential_v3 h) (\<lambda>cred.
     if length argv < 2
     then quits 1 (''Usage: v3_file_asr <local.wav> <engine> [lang] | v3_file_asr -u <url> <engine> [lang]'' @ nl)
     else
       let url_mode = (argv ! 1 = ''-u''); engine_idx = (if url_mode then 3 else 2)
       in if length argv \<le> engine_idx then engine_missing
          else
            let engine = argv ! engine_idx;
                lang = default_lang engine
                  (if url_mode \<and> length argv > 4 then argv ! 4
                   else if \<not> url_mode \<and> length argv > 3 then argv ! 3 else [])
            in Inr (new_FileRecognizer_v3 cred, url_mode,
                 new_CreateTranscriptionRequest \<lparr> ct_engine_model_type := engine, ct_channel_num := 1,
                   ct_res_text_format := 1, ct_language := (if lang \<noteq> [] then lang else []) \<rparr>))"

definition v3_file_task ::
  "sdk_env \<Rightarrow> host \<Rightarrow> string list \<Rightarrow> FileRecognizer_v3 \<Rightarrow> bool \<Rightarrow> CreateTranscriptionRequest \<Rightarrow> world \<Rightarrow>
     string result stage \<times> world" where
  "v3_file_task env h argv self url_mode req w =
     (if url_mode
      then (case CreateTask_v3 env self (req \<lparr> ct_source_type := kSourceTypeUrl_v3, ct_url := argv ! 2 \<rparr>) w of
              (r, w') \<Rightarrow> (Inr r, w'))
      else (case opened h (argv ! 1) of
              Inl stop \<Rightarrow> (Inl stop, w)
            | Inr bytes \<Rightarrow>
                (case fst (CreateTaskFromDataWithOptions_v3 env self bytes (Some req) w) of
                   (r, w') \<Rightarrow> (Inr r, w'))))"

definition v3_file_report :: "TranscriptionStatus \<Rightarrow> print list" where
  "v3_file_report st =
     [Out (''Status: '' @ tv_status_str st @ ''  Duration: '' @ fmt_g (tv_audio_duration st) @ '' s'' @ nl),
      Out (''Result: '' @ tv_result st @ nl)] @
     map (\<lambda>d. Out (''  ['' @ to_string (dv_start_ms d) @ '' - '' @ to_string (dv_end_ms d) @ '']'' @
         (if dv_speaker_role_name d \<noteq> [] then '' ['' @ dv_speaker_role_name d @ '']''
          else if dv_speaker_id d > 0 then '' [spk'' @ to_string (dv_speaker_id d) @ '']'' else []) @
         '' '' @ dv_final_sentence d @ nl)) (tv_result_detail st)"

definition v3_file_asr ::
  "sdk_env \<Rightarrow> host \<Rightarrow> string list \<Rightarrow> world \<Rightarrow> ((ending \<times> print list) \<times> world) option" where
  "v3_file_asr env h argv w =
     (case v3_file_setup h argv of
        Inl stop \<Rightarrow> Some (stop, w)
      | Inr (self, url_mode, req) \<Rightarrow>
          (case v3_file_task env h argv self url_mode req w of
             (Inl stop, w1) \<Rightarrow> Some (stop, w1)
           | (Inr (Inl e), w1) \<Rightarrow> Some (caught ''failed: '' e, w1)
           | (Inr (Inr tid), w1) \<Rightarrow>
               let submitted = [Out (''Task created: '' @ tid @ nl)]
               in case WaitForResult_v3 env self tid w1 of
                    None \<Rightarrow> None
                  | Some (Inl e, w2) \<Rightarrow> Some (then_prints submitted (caught ''failed: '' e), w2)
                  | Some (Inr st, w2) \<Rightarrow> Some (then_prints submitted (Exit 0, v3_file_report st), w2)))"

section \<open>A sample\<close>

definition sample_host :: host where
  "sample_host = \<lparr> h_getenv = (\<lambda>name. if name = ''TRTC_ASR_SECRET_KEY'' then Some ''key'' else Some ''1400000000''),
     h_file = (\<lambda>path. if path = ''a.pcm'' then Some [7] else None), h_order = [2, 1, 0] \<rparr>"

end
