(* ===== verification/ExamplesProps.thy ===== *)
theory ExamplesProps
  imports Examples
begin

text \<open>How the offline programs end, and what has happened by then.\<close>

section \<open>Exit codes\<close>

definition on_stdout :: "print \<Rightarrow> bool" where
  "on_stdout p = (case p of Out _ \<Rightarrow> True | Err _ \<Rightarrow> False)"

definition exits_well :: "ending \<times> print list \<Rightarrow> bool" where
  "exits_well r \<longleftrightarrow>
     (case fst r of
        Exit k \<Rightarrow> if k = 0 then list_all on_stdout (snd r)
                  else k \<in> {1, 2} \<and> snd r \<noteq> [] \<and> \<not> on_stdout (last (snd r))
      | Terminate e \<Rightarrow> \<not> is_asr_error e)"

definition stops_well :: "'a stage \<Rightarrow> bool" where
  "stops_well m \<longleftrightarrow> (case m of Inl r \<Rightarrow> exits_well r \<and> fst r \<noteq> Exit 0 | Inr _ \<Rightarrow> True)"

lemma stops_well_simps [simp]:
  "stops_well (Inr x)"
  "stops_well (Inl r) \<longleftrightarrow> exits_well r \<and> fst r \<noteq> Exit 0"
  by (simp_all add: stops_well_def)

lemma stops_well_quits [simp]: "k = 1 \<or> k = 2 \<Longrightarrow> stops_well (quits k message)"
  by (auto simp: quits_def exits_well_def on_stdout_def)

lemma stops_well_bind: "stops_well m \<Longrightarrow> (\<And>x. stops_well (f x)) \<Longrightarrow> stops_well (bindE m f)"
  by (cases m) auto

lemma stops_well_opened [simp]: "stops_well (opened h path)"
  by (simp add: opened_def split: option.split)

lemma stops_well_engine [simp]: "stops_well engine_missing"
  by (simp add: engine_missing_def)

lemma stoll_foreign: "stoll v = Inl e \<Longrightarrow> \<not> is_asr_error e"
  and ato_foreign: "ato n v = Inl e \<Longrightarrow> \<not> is_asr_error e"
  by (auto simp: stoll_def ato_def split: option.splits if_splits)

lemma stops_well_uncaught: "(\<And>e. r = Inl e \<Longrightarrow> \<not> is_asr_error e) \<Longrightarrow> stops_well (uncaught r)"
  by (cases r) (simp_all add: uncaught_def exits_well_def)

lemma stops_well_env [simp]: "stops_well (EnvInt h name)" "stops_well (EnvStr h name)"
  by (auto simp: EnvInt_def EnvStr_def split: option.split intro: stops_well_uncaught stoll_foreign dest: stoll_foreign)

lemma stops_well_all: "(\<And>i. stops_well (f i)) \<Longrightarrow> stops_well (all_of is f)"
  by (induction "is") (auto intro: stops_well_bind)

lemma stops_well_credential [simp]: "stops_well (env_credential h)" "stops_well (env_credential_v3 h)"
  unfolding env_credential_def env_credential_v3_def Let_def
  by (auto intro!: stops_well_bind stops_well_all stops_well_uncaught split: option.splits dest: ato_foreign)

lemma stops_well_setup [simp]:
  "stops_well (sentence_setup h argv)" "stops_well (v3_sentence_setup h argv)"
  "stops_well (file_setup h argv)" "stops_well (v3_file_setup h argv)"
  unfolding sentence_setup_def v3_sentence_setup_def file_setup_def v3_file_setup_def Let_def
  by (auto intro!: stops_well_bind)

lemma exits_well_caught: "exits_well (caught heading e)" "fst (caught heading e) \<noteq> Exit 0"
  by (simp_all add: caught_def exits_well_def on_stdout_def)

lemma exits_well_after:
  "list_all on_stdout before \<Longrightarrow> exits_well r \<Longrightarrow> exits_well (then_prints before r)"
  by (auto simp: then_prints_def exits_well_def split: ending.splits)

lemma reports_out:
  "list_all on_stdout (sentence_report a)" "list_all on_stdout (v3_sentence_report b)"
  "list_all on_stdout (file_report c)" "list_all on_stdout (v3_file_report d)"
  by (simp_all add: sentence_report_def v3_sentence_report_def file_report_def v3_file_report_def
      on_stdout_def list_all_iff)

lemma exits_well_report: "list_all on_stdout out \<Longrightarrow> exits_well (Exit 0, out)"
  by (simp add: exits_well_def)

section \<open>Requests\<close>

lemma Recognize_one: "requests_at_most 1 (Recognize env self q)"
  unfolding Recognize_def
  by (intro requests_at_most_pure requests_at_most_tail [OF requests_at_most_api] requests_at_most_liftW)

lemma Recognize_v3_one: "requests_at_most 1 (Recognize_v3 env self q)"
  unfolding Recognize_v3_def
  by (intro requests_at_most_pure requests_at_most_tail [OF call_v3_one] requests_at_most_liftW)

lemma CreateTask_one: "requests_at_most 1 (CreateTask env self q)"
  unfolding CreateTask_def DoRequest_def
  by (intro requests_at_most_pure requests_at_most_tail [OF requests_at_most_api] requests_at_most_liftW)

lemma CreateTask_v3_one: "requests_at_most 1 (CreateTask_v3 env self q)"
  unfolding CreateTask_v3_def
  by (intro requests_at_most_pure requests_at_most_tail [OF call_v3_one] requests_at_most_liftW)

lemma time_kept_zero: "time_kept n w w"
  by (simp add: time_kept_def)

lemma submitted_kept:
  "time_kept 1 w (snd (fst (RecognizeDataWithOptions env sr bytes (Some q) w)))"
  "time_kept 1 w (snd (fst (RecognizeDataWithOptions_v3 env sr3 bytes (Some q3) w)))"
  "time_kept 1 w (snd (fst (CreateTaskFromDataWithOptions env fr bytes (Some t) w)))"
  "time_kept 1 w (snd (fst (CreateTaskFromDataWithOptions_v3 env fr3 bytes (Some t3) w)))"
  using Recognize_one [unfolded requests_at_most_def] Recognize_v3_one [unfolded requests_at_most_def]
    CreateTask_one [unfolded requests_at_most_def] CreateTask_v3_one [unfolded requests_at_most_def]
  by (simp_all add: sentence_audio.request transcribe_audio.request task_audio.request
      transcription_audio.request time_kept_zero)

section \<open>The sentence programs\<close>

text \<open>What an exit with code 0 says, of the v2 and of the v3 program.\<close>

definition sentence_done ::
  "sdk_env \<Rightarrow> host \<Rightarrow> string list \<Rightarrow> print list \<Rightarrow> world \<Rightarrow> world \<Rightarrow> bool" where
  "sentence_done env h argv out w w' \<longleftrightarrow>
     (\<exists>cred bytes q res. env_credential h = Inr cred \<and> h_file h (argv ! 1) = Some bytes \<and>
        bytes \<noteq> [] \<and> int (length bytes) \<le> 3 * 1024 * 1024 \<and>
        Recognize env (new_SentenceRecognizer cred) q w = (Inr res, w') \<and>
        Base64Decode (sq_data q) = Inr bytes \<and> sq_eng_service_type q = argv ! 3 \<and>
        sq_voice_format q = argv ! 2 \<and> sq_language q = default_lang (argv ! 3) (arg argv 4 []) \<and>
        out = sentence_report res)"

definition v3_sentence_done ::
  "sdk_env \<Rightarrow> host \<Rightarrow> string list \<Rightarrow> print list \<Rightarrow> world \<Rightarrow> world \<Rightarrow> bool" where
  "v3_sentence_done env h argv out w w' \<longleftrightarrow>
     (\<exists>cred bytes q res. env_credential_v3 h = Inr cred \<and> h_file h (argv ! 1) = Some bytes \<and>
        bytes \<noteq> [] \<and> int (length bytes) \<le> 3 * 1024 * 1024 \<and>
        Recognize_v3 env (new_SentenceRecognizer_v3 cred) q w = (Inr res, w') \<and>
        Base64Decode (tq_data q) = Inr bytes \<and> tq_engine_model_type q = argv ! 2 \<and>
        tq_voice_format q = ''pcm'' \<and> tq_language q = default_lang (argv ! 2) (arg argv 3 []) \<and>
        out = v3_sentence_report res)"

lemma sentence_setup_Inr:
  assumes "sentence_setup h argv = Inr (self, bytes, req)"
  shows "\<exists>cred. env_credential h = Inr cred \<and> self = new_SentenceRecognizer cred \<and>
    h_file h (argv ! 1) = Some bytes \<and> sq_eng_service_type req = argv ! 3 \<and> sq_voice_format req = argv ! 2 \<and>
    sq_language req = default_lang (argv ! 3) (arg argv 4 [])"
  using assms
  by (auto simp: sentence_setup_def quits_def engine_missing_def Let_def bindE_Inr_iff opened_def arg_def
      split: if_splits option.splits)

lemma v3_sentence_setup_Inr:
  assumes "v3_sentence_setup h argv = Inr (self, bytes, req)"
  shows "\<exists>cred. env_credential_v3 h = Inr cred \<and> self = new_SentenceRecognizer_v3 cred \<and>
    h_file h (argv ! 1) = Some bytes \<and> tq_engine_model_type req = argv ! 2 \<and> tq_voice_format req = ''pcm'' \<and>
    tq_language req = default_lang (argv ! 2) (arg argv 3 [])"
  using assms
  by (auto simp: v3_sentence_setup_def quits_def engine_missing_def Let_def bindE_Inr_iff opened_def arg_def
      split: if_splits option.splits)

lemma sentence_asr_ran:
  assumes "sentence_setup h argv = Inr (self, bytes, req)"
    and "fst (RecognizeDataWithOptions env self bytes (Some req) w) = (Inr res, w')"
  shows "sentence_done env h argv (sentence_report res) w w'"
proof -
  obtain cred where cred: "env_credential h = Inr cred" "self = new_SentenceRecognizer cred"
    "h_file h (argv ! 1) = Some bytes" "sq_eng_service_type req = argv ! 3" "sq_voice_format req = argv ! 2"
    "sq_language req = default_lang (argv ! 3) (arg argv 4 [])"
    using sentence_setup_Inr [OF assms(1)] by blast
  have "bytes \<noteq> []" "int (length bytes) \<le> 3145728" "Recognize env self (with_audio bytes req) w = (Inr res, w')"
    using assms(2) by (auto simp: sentence_audio.request split: if_splits)
  with cred show ?thesis unfolding sentence_done_def
    by (intro exI [of _ cred] exI [of _ bytes] exI [of _ "with_audio bytes req"] exI [of _ res])
      (simp add: Base64Decode_Encode with_audio_def)
qed

lemma v3_sentence_asr_ran:
  assumes "v3_sentence_setup h argv = Inr (self, bytes, req)"
    and "fst (RecognizeDataWithOptions_v3 env self bytes (Some req) w) = (Inr res, w')"
  shows "v3_sentence_done env h argv (v3_sentence_report res) w w'"
proof -
  obtain cred where cred: "env_credential_v3 h = Inr cred" "self = new_SentenceRecognizer_v3 cred"
    "h_file h (argv ! 1) = Some bytes" "tq_engine_model_type req = argv ! 2" "tq_voice_format req = ''pcm''"
    "tq_language req = default_lang (argv ! 2) (arg argv 3 [])"
    using v3_sentence_setup_Inr [OF assms(1)] by blast
  have "bytes \<noteq> []" "int (length bytes) \<le> 3145728" "Recognize_v3 env self (with_audio_v3 bytes req) w = (Inr res, w')"
    using assms(2) by (auto simp: transcribe_audio.request split: if_splits)
  with cred show ?thesis unfolding v3_sentence_done_def
    by (intro exI [of _ cred] exI [of _ bytes] exI [of _ "with_audio_v3 bytes req"] exI [of _ res])
      (simp add: Base64Decode_Encode with_audio_v3_def)
qed

text \<open>
  Claim C26. The sentence programs: each makes at most one request. When its exit code is 0 the
  file could be read and had 1 byte to 3 MiB, the request carried exactly its bytes with the
  engine, the format and the language of the command line, and the recognized text has been
  printed, with nothing on the error stream; with any other code, 1 or 2, the last thing
  printed is a message on the error stream. An exception that leaves \<^verbatim>\<open>main\<close> is never an
  \<^verbatim>\<open>ASRError\<close>.
\<close>

theorem sentence_programs:
  "(case sentence_asr env h argv w of
      (r, w') \<Rightarrow> time_kept 1 w w' \<and> exits_well r \<and>
        (if fst r = Exit 0 then sentence_done env h argv (snd r) w w' else True)) \<and>
   (case v3_sentence_asr env h argv w of
      (r, w') \<Rightarrow> time_kept 1 w w' \<and> exits_well r \<and>
        (if fst r = Exit 0 then v3_sentence_done env h argv (snd r) w w' else True))"
proof
  show "case sentence_asr env h argv w of
      (r, w') \<Rightarrow> time_kept 1 w w' \<and> exits_well r \<and>
        (if fst r = Exit 0 then sentence_done env h argv (snd r) w w' else True)"
  proof (cases "sentence_setup h argv")
    case (Inl stop)
    then show ?thesis using stops_well_setup(1) [of h argv] by (simp add: sentence_asr_def time_kept_zero)
  next
    case (Inr p)
    obtain self bytes req where p: "p = (self, bytes, req)" by (metis surj_pair)
    obtain r w' where r: "fst (RecognizeDataWithOptions env self bytes (Some req) w) = (r, w')" by (metis surj_pair)
    have "time_kept 1 w w'" using submitted_kept(1) [of w env self bytes req] r by simp
    then show ?thesis
      using Inr p r sentence_asr_ran [of h argv self bytes req env w _ w'] exits_well_caught
      by (cases r) (simp_all add: sentence_asr_def exits_well_report reports_out)
  qed
next
  show "case v3_sentence_asr env h argv w of
      (r, w') \<Rightarrow> time_kept 1 w w' \<and> exits_well r \<and>
        (if fst r = Exit 0 then v3_sentence_done env h argv (snd r) w w' else True)"
  proof (cases "v3_sentence_setup h argv")
    case (Inl stop)
    then show ?thesis using stops_well_setup(2) [of h argv] by (simp add: v3_sentence_asr_def time_kept_zero)
  next
    case (Inr p)
    obtain self bytes req where p: "p = (self, bytes, req)" by (metis surj_pair)
    obtain r w' where r: "fst (RecognizeDataWithOptions_v3 env self bytes (Some req) w) = (r, w')" by (metis surj_pair)
    have "time_kept 1 w w'" using submitted_kept(2) [of w env self bytes req] r by simp
    then show ?thesis
      using Inr p r v3_sentence_asr_ran [of h argv self bytes req env w _ w'] exits_well_caught
      by (cases r) (simp_all add: v3_sentence_asr_def exits_well_report reports_out)
  qed
qed

section \<open>The file programs\<close>

definition file_done :: "sdk_env \<Rightarrow> print list \<Rightarrow> world \<Rightarrow> bool" where
  "file_done env out w' \<longleftrightarrow>
     (\<exists>self tid st v. DescribeTaskStatus env self tid v = (Inr st, w') \<and> ts_status st = 2 \<and>
        out = Out (task_heading @ tid @ nl) # file_report st)"

definition v3_file_done :: "sdk_env \<Rightarrow> print list \<Rightarrow> world \<Rightarrow> bool" where
  "v3_file_done env out w' \<longleftrightarrow>
     (\<exists>self tid st v. DescribeTask env self tid v = (Inr st, w') \<and> tv_status st = 2 \<and>
        out = Out (''Task created: '' @ tid @ nl) # v3_file_report st)"

lemma file_task_kept:
  assumes "file_task env h argv self url_mode req w = (m, w1)"
  shows "stops_well m \<and> time_kept 1 w w1"
proof -
  have "time_kept 1 w (snd (CreateTask env self q w))" for q
    using CreateTask_one unfolding requests_at_most_def by blast
  moreover note submitted_kept(3) [of w env self _ req]
  moreover have "stops_well (opened h (argv ! 1))" by simp
  ultimately show ?thesis using assms time_kept_zero [of 1 w]
    by (auto simp: file_task_def simp del: stops_well_opened split: if_splits prod.splits sum.splits)
      (metis snd_conv)+
qed

lemma v3_file_task_kept:
  assumes "v3_file_task env h argv self url_mode req w = (m, w1)"
  shows "stops_well m \<and> time_kept 1 w w1"
proof -
  have "time_kept 1 w (snd (CreateTask_v3 env self q w))" for q
    using CreateTask_v3_one unfolding requests_at_most_def by blast
  moreover note submitted_kept(4) [of w env self _ req]
  moreover have "stops_well (opened h (argv ! 1))" by simp
  ultimately show ?thesis using assms time_kept_zero [of 1 w]
    by (auto simp: v3_file_task_def simp del: stops_well_opened split: if_splits prod.splits sum.splits)
      (metis snd_conv)+
qed

lemma waited:
  assumes "time_kept 1 w w1" and "mono (wd_steady w)"
  shows "\<exists>r w'. WaitForResult env self tid w1 = Some (r, w') \<and> wd_requests w' \<le> wd_requests w + 603 \<and>
      (case r of Inr st \<Rightarrow> ts_status st = 2 \<and> (\<exists>v. DescribeTaskStatus env self tid v = (Inr st, w')) | Inl e \<Rightarrow> True)"
    and "\<exists>r w'. WaitForResult_v3 env self3 tid w1 = Some (r, w') \<and> wd_requests w' \<le> wd_requests w + 603 \<and>
      (case r of Inr st \<Rightarrow> tv_status st = 2 \<and> (\<exists>v. DescribeTask env self3 tid v = (Inr st, w')) | Inl e \<Rightarrow> True)"
proof -
  have kept: "mono (wd_steady w1)" "wd_requests w1 \<le> wd_requests w + 1"
    using assms by (simp_all add: time_kept_def)
  obtain r w' where "WaitForResult env self tid w1 = Some (r, w')" "wd_requests w' \<le> wd_requests w1 + 602"
      "case r of Inr st \<Rightarrow> ts_status st = 2 \<and> (\<exists>v. DescribeTaskStatus env self tid v = (Inr st, w')) | Inl e \<Rightarrow> True"
    using file_poller.wait_ends [of 1000 600000 w1 env self tid "600000"] kept(1)
    unfolding WaitForResult_def WaitForResultWithInterval_def by (fastforce split: sum.splits)
  with kept(2) show "\<exists>r w'. WaitForResult env self tid w1 = Some (r, w') \<and> wd_requests w' \<le> wd_requests w + 603 \<and>
      (case r of Inr st \<Rightarrow> ts_status st = 2 \<and> (\<exists>v. DescribeTaskStatus env self tid v = (Inr st, w')) | Inl e \<Rightarrow> True)"
    by (intro exI [of _ r] exI [of _ w']) simp
  obtain r w' where "WaitForResult_v3 env self3 tid w1 = Some (r, w')" "wd_requests w' \<le> wd_requests w1 + 602"
      "case r of Inr st \<Rightarrow> tv_status st = 2 \<and> (\<exists>v. DescribeTask env self3 tid v = (Inr st, w')) | Inl e \<Rightarrow> True"
    using WaitForResult_v3_ends [of 1000 600000 w1 env self3 tid] kept(1)
    unfolding WaitForResult_v3_def by (fastforce split: sum.splits)
  with kept(2) show "\<exists>r w'. WaitForResult_v3 env self3 tid w1 = Some (r, w') \<and> wd_requests w' \<le> wd_requests w + 603 \<and>
      (case r of Inr st \<Rightarrow> tv_status st = 2 \<and> (\<exists>v. DescribeTask env self3 tid v = (Inr st, w')) | Inl e \<Rightarrow> True)"
    by (intro exI [of _ r] exI [of _ w']) simp
qed

lemma exits_well_submitted:
  "exits_well (then_prints [Out s] (caught heading e))" "fst (then_prints [Out s] (caught heading e)) \<noteq> Exit 0"
  "list_all on_stdout out \<Longrightarrow> exits_well (then_prints [Out s] (Exit 0, out))"
  using exits_well_caught [of heading e]
  by (simp_all add: exits_well_after exits_well_report on_stdout_def) (simp add: then_prints_def)

text \<open>The two programs have one shape; what they rely on in their parts is the locale.\<close>

definition file_run ::
  "('s \<times> bool \<times> 'q) stage \<Rightarrow> ('s \<Rightarrow> bool \<Rightarrow> 'q \<Rightarrow> world \<Rightarrow> string result stage \<times> world) \<Rightarrow>
     ('s \<Rightarrow> string \<Rightarrow> world \<Rightarrow> ('t result \<times> world) option) \<Rightarrow> ('t \<Rightarrow> print list) \<Rightarrow> string \<Rightarrow> string \<Rightarrow> world \<Rightarrow>
     ((ending \<times> print list) \<times> world) option" where
  "file_run prepared task wait report heading failure w =
     (case prepared of
        Inl stop \<Rightarrow> Some (stop, w)
      | Inr (self, url_mode, req) \<Rightarrow>
          (case task self url_mode req w of
             (Inl stop, w1) \<Rightarrow> Some (stop, w1)
           | (Inr (Inl e), w1) \<Rightarrow> Some (caught failure e, w1)
           | (Inr (Inr tid), w1) \<Rightarrow>
               (case wait self tid w1 of
                  None \<Rightarrow> None
                | Some (Inl e, w2) \<Rightarrow> Some (then_prints [Out (heading @ tid @ nl)] (caught failure e), w2)
                | Some (Inr st, w2) \<Rightarrow> Some (then_prints [Out (heading @ tid @ nl)] (Exit 0, report st), w2))))"

locale file_program =
  fixes prepared :: "('s \<times> bool \<times> 'q) stage"
    and task :: "'s \<Rightarrow> bool \<Rightarrow> 'q \<Rightarrow> world \<Rightarrow> string result stage \<times> world"
    and wait :: "'s \<Rightarrow> string \<Rightarrow> world \<Rightarrow> ('t result \<times> world) option"
    and report :: "'t \<Rightarrow> print list" and answered :: "'t \<Rightarrow> string \<Rightarrow> world \<Rightarrow> bool"
  assumes setup_stops: "stops_well prepared"
    and task_kept: "task self url_mode req w = (m, w1) \<Longrightarrow> stops_well m \<and> time_kept 1 w w1"
    and wait_ends: "time_kept 1 w w1 \<Longrightarrow> mono (wd_steady w) \<Longrightarrow>
      \<exists>r w'. wait self tid w1 = Some (r, w') \<and> wd_requests w' \<le> wd_requests w + 603 \<and>
        (case r of Inr st \<Rightarrow> answered st tid w' | Inl e \<Rightarrow> True)"
    and report_out: "list_all on_stdout (report st)"
begin

lemma runs:
  assumes "mono (wd_steady w)"
  shows "\<exists>r w'. file_run prepared task wait report heading failure w = Some (r, w') \<and>
    wd_requests w' \<le> wd_requests w + 603 \<and> exits_well r \<and>
    (fst r = Exit 0 \<longrightarrow> (\<exists>st tid. answered st tid w' \<and> snd r = Out (heading @ tid @ nl) # report st))"
proof (cases prepared)
  case (Inl stop)
  then show ?thesis using setup_stops by (simp add: file_run_def)
next
  case (Inr p)
  obtain self url_mode req where p: "prepared = Inr (self, url_mode, req)" using Inr by (metis surj_pair)
  obtain m w1 where task: "task self url_mode req w = (m, w1)" by (metis surj_pair)
  note kept = task_kept [OF task]
  then have few: "wd_requests w1 \<le> wd_requests w + 603" by (simp add: time_kept_def)
  show ?thesis
  proof (cases m)
    case (Inl stop)
    then show ?thesis using p task kept few by (simp add: file_run_def)
  next
    case created: (Inr c)
    show ?thesis
    proof (cases c)
      case (Inl e)
      then show ?thesis using p task created few exits_well_caught by (simp add: file_run_def)
    next
      case (Inr tid)
      obtain r w' where wait: "wait self tid w1 = Some (r, w')" "wd_requests w' \<le> wd_requests w + 603"
        "case r of Inr st \<Rightarrow> answered st tid w' | Inl e \<Rightarrow> True"
        using wait_ends [OF conjunct2 [OF kept] assms] by blast
      then show ?thesis
        using p task created Inr exits_well_submitted report_out
        by (cases r) (auto simp: file_run_def then_prints_def)
    qed
  qed
qed

end

lemma file_programs_run:
  "file_asr env h argv =
     file_run (file_setup h argv) (file_task env h argv) (WaitForResult env) file_report task_heading failure_heading"
  "v3_file_asr env h argv =
     file_run (v3_file_setup h argv) (v3_file_task env h argv) (WaitForResult_v3 env) v3_file_report
       ''Task created: '' ''failed: ''"
  unfolding fun_eq_iff file_asr_def v3_file_asr_def file_run_def Let_def by simp_all

interpretation v2_program: file_program "file_setup h argv" "file_task env h argv" "WaitForResult env" file_report
    "\<lambda>st tid w'. ts_status st = 2 \<and> (\<exists>self v. DescribeTaskStatus env self tid v = (Inr st, w'))"
  for env h argv
proof
  show "\<exists>r w'. WaitForResult env self tid w1 = Some (r, w') \<and> wd_requests w' \<le> wd_requests w + 603 \<and>
      (case r of Inr st \<Rightarrow> ts_status st = 2 \<and> (\<exists>self v. DescribeTaskStatus env self tid v = (Inr st, w')) | Inl e \<Rightarrow> True)"
    if "time_kept 1 w w1" and "mono (wd_steady w)" for w w1 self tid
    using waited(1) [OF that, of env self tid] by (fastforce split: sum.splits)
qed (use file_task_kept reports_out in simp_all)

interpretation v3_program: file_program "v3_file_setup h argv" "v3_file_task env h argv" "WaitForResult_v3 env"
    v3_file_report "\<lambda>st tid w'. tv_status st = 2 \<and> (\<exists>self v. DescribeTask env self tid v = (Inr st, w'))"
  for env h argv
proof
  show "\<exists>r w'. WaitForResult_v3 env self tid w1 = Some (r, w') \<and> wd_requests w' \<le> wd_requests w + 603 \<and>
      (case r of Inr st \<Rightarrow> tv_status st = 2 \<and> (\<exists>self v. DescribeTask env self tid v = (Inr st, w')) | Inl e \<Rightarrow> True)"
    if "time_kept 1 w w1" and "mono (wd_steady w)" for w w1 self tid
    using waited(2) [OF that, of env self tid] by (fastforce split: sum.splits)
qed (use v3_file_task_kept reports_out in simp_all)

text \<open>
  Claim C27. The file programs end: on a clock that does not run backwards each returns after at
  most 603 requests, one to create the task and 602 to ask for it, whatever the arguments, the
  files and the service. When its exit code is 0 the last answer said that the task was
  successful, and what is printed is the task's id and the report of that very answer.
\<close>

theorem file_programs_end:
  assumes "mono (wd_steady w)"
  shows "(\<exists>r w'. file_asr env h argv w = Some (r, w') \<and> wd_requests w' \<le> wd_requests w + 603 \<and> exits_well r \<and>
      (fst r = Exit 0 \<longrightarrow> file_done env (snd r) w')) \<and>
    (\<exists>r w'. v3_file_asr env h argv w = Some (r, w') \<and> wd_requests w' \<le> wd_requests w + 603 \<and> exits_well r \<and>
      (fst r = Exit 0 \<longrightarrow> v3_file_done env (snd r) w'))"
  using v2_program.runs [OF assms, of h argv env task_heading failure_heading]
    v3_program.runs [OF assms, of h argv env "''Task created: ''" "''failed: ''"]
  unfolding file_programs_run file_done_def v3_file_done_def by blast

theorem file_programs_end_witness:
  "\<exists>r w'. file_asr (sample_env []) sample_host [''file_asr'', ''a.pcm'', ''bigmodel''] (sample_world []) = Some (r, w') \<and>
     wd_requests w' \<le> 603 \<and> exits_well r"
proof -
  have "mono (wd_steady (sample_world []))" by (simp add: sample_simps mono_def)
  from conjunct1 [OF file_programs_end [OF this]]
  show ?thesis by (fastforce simp: sample_simps)
qed

end
