(* ===== verification/ExampleRealtime.thy ===== *)
theory ExampleRealtime
  imports Examples Teardown Uplink SpeechRecognizer V3Speech
begin

text \<open>
  The programs \<^verbatim>\<open>examples/realtime_asr.cc\<close> and \<^verbatim>\<open>examples/v3_realtime_asr.cc\<close>: start a session,
  send a file in pieces of 6400 bytes, stop. The program is thread 1 of the lifecycle; its
  callbacks only print.
\<close>

section \<open>The pieces of a file\<close>

definition kChunk :: nat where
  "kChunk = 6400"

fun chunked :: "u8 list \<Rightarrow> u8 list list" where
  "chunked [] = []"
| "chunked (b # bs) = take kChunk (b # bs) # chunked (drop (kChunk - 1) bs)"

lemma chunked_unfold: "chunked bs = (if bs = [] then [] else take kChunk bs # chunked (drop kChunk bs))"
  by (cases bs) (simp_all add: kChunk_def)

lemma concat_chunked: "concat (chunked bs) = bs"
proof (induction bs rule: chunked.induct)
  case (2 b bs)
  have "take kChunk (b # bs) @ drop (kChunk - 1) bs = b # bs"
    using append_take_drop_id [of kChunk "b # bs"] by (simp add: kChunk_def)
  with 2 show ?case by simp
qed simp

lemma chunked_sizes: "p \<in> set (chunked bs) \<Longrightarrow> p \<noteq> [] \<and> length p \<le> kChunk"
  by (induction bs rule: chunked.induct) (auto simp: kChunk_def)

section \<open>The callbacks\<close>

text \<open>Every callback prints; what the listener does not override does nothing.\<close>

definition segment_line :: "string \<Rightarrow> SpeakerSegment \<Rightarrow> print" where
  "segment_line indent seg =
     Out (indent @ ''['' @ (if ss_speaker_name seg = [] then ''spk'' @ to_string (ss_speaker_id seg) else ss_speaker_name seg) @
       ''] '' @ ss_text seg @ '' ('' @ to_string (ss_start_time seg) @ ''-'' @ to_string (ss_end_time seg) @ ''ms)'' @ nl)"

fun Printer :: "event \<Rightarrow> print list" where
  "Printer (OnRecognitionStart resp) = [Out (''[start] voice_id='' @ sr_voice_id resp @ nl)]"
| "Printer (OnSentenceBegin resp) = [Out (''[begin] index='' @ to_string (rr_index (sr_result resp)) @ nl)]"
| "Printer (OnRecognitionResultChange resp) = [Out (''[change] '' @ rr_voice_text_str (sr_result resp) @ nl)]"
| "Printer (OnSentenceEnd resp) =
     Out (''[end] index='' @ to_string (rr_index (sr_result resp)) @ '' text='' @ rr_voice_text_str (sr_result resp) @
       '' ('' @ to_string (rr_start_time (sr_result resp)) @ ''-'' @ to_string (rr_end_time (sr_result resp)) @ ''ms)'' @ nl) #
     map (segment_line ''       '') (rr_speaker_segments (sr_result resp))"
| "Printer (OnRecognitionComplete resp) = [Out (''[complete] voice_id='' @ sr_voice_id resp @ nl)]"
| "Printer (OnFail _ err) = [Err (''[fail] '' @ c_str (exn_what err) @ nl)]"

fun Printer_v3 :: "event \<Rightarrow> print list" where
  "Printer_v3 (OnRecognitionStart resp) =
     Out (''[start] voice_id='' @ sr_voice_id resp @ nl) #
     (case sr_speaker_continue resp of
        None \<Rightarrow> []
      | Some sc \<Rightarrow> [Out (''speaker context: status='' @ [CHR 0x22] @ sc_continue_status sc @ [CHR 0x22] @ '' id='' @
                       sc_speaker_context_id sc @ nl)])"
| "Printer_v3 (OnSentenceBegin resp) = []"
| "Printer_v3 (OnSentenceEnd resp) =
     Out (''[end] '' @ rr_voice_text_str (sr_result resp) @ nl) #
     map (segment_line ''  '') (rr_speaker_segments (sr_result resp))"
| "Printer_v3 (OnRecognitionResultChange resp) = [Out (''[change] '' @ rr_voice_text_str (sr_result resp) @ nl)]"
| "Printer_v3 (OnRecognitionComplete resp) = [Out (''[complete]'' @ nl)]"
| "Printer_v3 (OnFail _ err) = [Err (''[fail] '' @ c_str (exn_what err) @ nl)]"

section \<open>Before the session\<close>

text \<open>The configured recognizer and the path of the audio, or how the program stops.\<close>

definition realtime_setup :: "host \<Rightarrow> string list \<Rightarrow> (SpeechRecognizer \<times> string) stage" where
  "realtime_setup h argv =
     (if length argv < 2 then quits 1 (''usage: '' @ argv ! 0 @ '' <audio.pcm> <engine> [lang]'' @ nl)
      else if length argv \<le> 2 then engine_missing
      else
        let engine = argv ! 2; lang = default_lang engine (arg argv 3 [])
        in bindE (env_credential h) (\<lambda>cred.
           let recognizer = new_SpeechRecognizer cred engine
           in Inr (if lang \<noteq> [] then SetLanguage lang recognizer else recognizer, argv ! 1)))"

definition v3_options :: "string \<Rightarrow> int \<Rightarrow> string \<Rightarrow> SpeechRecognizer_v3 \<Rightarrow> SpeechRecognizer_v3" where
  "v3_options lang speaker_context speaker_context_id r =
     (let r = (if lang \<noteq> [] then SetLanguage_v3 lang r else r);
          r = (if speaker_context \<noteq> 0
               then SetEnableSpeakerContext_v3 speaker_context
                      (SetSpeakerDiarization_v3 kSpeakerDiarizationCluster r) else r)
      in if speaker_context_id \<noteq> [] then SetSpeakerContextId_v3 speaker_context_id r else r)"

definition v3_realtime_setup :: "host \<Rightarrow> string list \<Rightarrow> (SpeechRecognizer_v3 \<times> string) stage" where
  "v3_realtime_setup h argv =
     bindE (env_credential_v3 h) (\<lambda>cred.
     if length argv \<le> 2 then engine_missing
     else
       let engine = argv ! 2; lang = default_lang engine (arg argv 3 [])
       in bindE (if length argv > 4 then uncaught (ato 32 (argv ! 4)) else Inr 0) (\<lambda>speaker_context.
          Inr (v3_options lang speaker_context (arg argv 5 []) (new_SpeechRecognizer_v3 cred engine),
            arg argv 1 ''examples/test.pcm'')))"

text \<open>What the v3 program prints of the handshake when \<^verbatim>\<open>Start\<close> has returned.\<close>

definition context_line :: "SpeechRecognizer_v3 \<Rightarrow> print list" where
  "context_line self =
     (case GetSpeakerContinue_v3 self of
        None \<Rightarrow> []
      | Some sc \<Rightarrow> [Out (''speaker context id: '' @ sc_speaker_context_id sc @ '' (status: '' @ [CHR 0x22] @
          sc_continue_status sc @ [CHR 0x22] @ '')'' @ string_of [0x20, 0xE2, 0x80, 0x94] @
          '' reuse it as the 5th argument'' @ nl)])"

section \<open>The program\<close>

text \<open>
  \<open>MRead rest good\<close>: at the head of the loop, \<open>good\<close> is the state of the stream and \<open>rest\<close> what
  it still has; \<open>MUnwind k d\<close>: \<^verbatim>\<open>main\<close> returns \<open>k\<close> and the recognizer is being destroyed;
  \<open>MAbort\<close>: an exception left \<^verbatim>\<open>main\<close>.
\<close>

datatype mpc =
    MStart
  | MOpen
  | MRead "u8 list" bool
  | MWrite "u8 list" "u8 list" bool
  | MStop
  | MUnwind int dpc
  | MExit int
  | MAbort exn

text \<open>The result of the operation that thread 1 has just returned from.\<close>

definition outcome :: "session \<Rightarrow> unit result option" where
  "outcome s = (if ls_pc s 1 = CIdle then Some (snd (snd (last (ls_returns s)))) else None)"

text \<open>\<^verbatim>\<open>try { ... } catch (const ASRError&)\<close>: what follows an operation.\<close>

definition guarded_by :: "mpc \<Rightarrow> mpc \<Rightarrow> mpc \<Rightarrow> unit result option \<Rightarrow> mpc" where
  "guarded_by again ok failed r =
     (case r of
        None \<Rightarrow> again
      | Some (Inr _) \<Rightarrow> ok
      | Some (Inl e) \<Rightarrow> if is_asr_error e then failed else MAbort e)"

text \<open>The same without a handler.\<close>

definition unguarded :: "mpc \<Rightarrow> mpc \<Rightarrow> unit result option \<Rightarrow> mpc" where
  "unguarded again ok r =
     (case r of None \<Rightarrow> again | Some (Inr _) \<Rightarrow> ok | Some (Inl e) \<Rightarrow> MAbort e)"

text \<open>The loop reads a piece, or ends with the stream.\<close>

definition read_piece :: "u8 list \<Rightarrow> bool \<Rightarrow> mpc" where
  "read_piece rest good =
     (if \<not> good then MStop
      else if rest = [] then MStop
      else MWrite (take kChunk rest) (drop kChunk rest) (kChunk \<le> length rest))"

text \<open>What the two programs do with the results of the three operations.\<close>

record handlers =
  on_start :: "unit result option \<Rightarrow> mpc"
  on_write :: "u8 list \<Rightarrow> u8 list \<Rightarrow> bool \<Rightarrow> unit result option \<Rightarrow> mpc"
  on_stop :: "unit result option \<Rightarrow> mpc"

definition realtime_asr :: handlers where
  "realtime_asr =
     \<lparr> on_start = guarded_by MStart MOpen (MUnwind 1 DLoad),
       on_write = (\<lambda>piece rest good. guarded_by (MWrite piece rest good) (MRead rest good) MStop),
       on_stop = guarded_by MStop (MUnwind 0 DLoad) (MUnwind 1 DLoad) \<rparr>"

definition v3_realtime_asr :: handlers where
  "v3_realtime_asr =
     \<lparr> on_start = guarded_by MStart MOpen (MUnwind 1 DLoad),
       on_write = (\<lambda>piece rest good. unguarded (MWrite piece rest good) (MRead rest good)),
       on_stop = unguarded MStop (MUnwind 0 DLoad) \<rparr>"

inductive main_step ::
  "json_lib \<Rightarrow> handlers \<Rightarrow> u8 list option \<Rightarrow> mpc \<times> session \<Rightarrow> mpc \<times> session \<Rightarrow> bool"
  for jl :: json_lib and h :: handlers and input :: "u8 list option" where
  main_start: "start_call 1 s s' \<Longrightarrow> main_step jl h input (MStart, s) (on_start h (outcome s'), s')"
| main_open: "main_step jl h input (MOpen, s)
     (case input of None \<Rightarrow> MUnwind 1 DLoad | Some bytes \<Rightarrow> MRead bytes True, s)"
| main_read: "main_step jl h input (MRead rest good, s) (read_piece rest good, s)"
| main_write: "write_call 1 s s' \<Longrightarrow> ls_pc s 1 = CIdle \<longrightarrow> ls_pc s' 1 \<in> {WrConn piece, CIdle} \<Longrightarrow>
     main_step jl h input (MWrite piece rest good, s) (on_write h piece rest good (outcome s'), s')"
| main_stop: "stop_call 1 s s' \<Longrightarrow> main_step jl h input (MStop, s) (on_stop h (outcome s'), s')"
| main_unwind: "destroy_step 1 (d, s) (d', s') \<Longrightarrow>
     main_step jl h input (MUnwind k d, s) (if d' = DGone then MExit k else MUnwind k d', s')"
| main_reader: "reader_step jl s s' \<Longrightarrow> main_step jl h input (m, s) (m, s')"
| main_watchdog: "watchdog_step s s' \<Longrightarrow> main_step jl h input (m, s) (m, s')"

text \<open>The runs of the two programs from their start.\<close>

definition realtime_main :: "json_lib \<Rightarrow> host \<Rightarrow> string list \<Rightarrow> mpc \<times> session \<Rightarrow> bool" where
  "realtime_main jl h argv x \<longleftrightarrow>
     (case realtime_setup h argv of
        Inl _ \<Rightarrow> False
      | Inr (_, path) \<Rightarrow> (main_step jl realtime_asr (h_file h path))\<^sup>*\<^sup>* (MStart, initial) x)"

definition v3_realtime_main :: "json_lib \<Rightarrow> host \<Rightarrow> string list \<Rightarrow> mpc \<times> session \<Rightarrow> bool" where
  "v3_realtime_main jl h argv x \<longleftrightarrow>
     (case v3_realtime_setup h argv of
        Inl _ \<Rightarrow> False
      | Inr (_, path) \<Rightarrow> (main_step jl v3_realtime_asr (h_file h path))\<^sup>*\<^sup>* (MStart, initial) x)"

section \<open>What is on the wire\<close>

text \<open>The pieces \<open>ps\<close> have been handed to the connection, and possibly the end signal.\<close>

definition sent :: "u8 list list \<Rightarrow> session \<Rightarrow> bool" where
  "sent ps s \<longleftrightarrow> ls_wire s = map Audio ps \<or> ls_wire s = map Audio ps @ [EndSignal]"

fun carries :: "u8 list \<Rightarrow> cpc \<Rightarrow> bool" where
  "carries d (WrConn d') = (d' = d)"
| "carries d (WrLock d') = (d' = d)"
| "carries d (WrCheck d') = (d' = d)"
| "carries d (WrSend d') = (d' = d)"
| "carries d _ = False"

definition write_failed :: "session \<Rightarrow> bool" where
  "write_failed s \<longleftrightarrow> (\<exists>e. (1, WriteCall, Inl e) \<in> set (ls_returns s))"

definition all_handed :: "u8 list \<Rightarrow> u8 list list \<Rightarrow> session \<Rightarrow> bool" where
  "all_handed audio ps s \<longleftrightarrow> prefix ps (chunked audio) \<and> (ps = chunked audio \<or> write_failed s)"

text \<open>Where the program is, and what it has sent by then.\<close>

fun stage :: "u8 list \<Rightarrow> mpc \<Rightarrow> session \<Rightarrow> bool" where
  "stage audio MStart s \<longleftrightarrow> ls_wire s = []"
| "stage audio MOpen s \<longleftrightarrow> ls_wire s = [] \<and> ls_pc s 1 = CIdle"
| "stage audio (MRead rest good) s \<longleftrightarrow>
     (\<exists>ps. ls_wire s = map Audio ps \<and> chunked audio = ps @ chunked rest \<and> (\<not> good \<longrightarrow> rest = [])) \<and> ls_pc s 1 = CIdle"
| "stage audio (MWrite piece rest good) s \<longleftrightarrow>
     (\<exists>ps. ls_wire s = map Audio ps \<and> chunked audio = ps @ piece # chunked rest \<and> (\<not> good \<longrightarrow> rest = [])) \<and>
     (ls_pc s 1 = CIdle \<or> carries piece (ls_pc s 1))"
| "stage audio MStop s \<longleftrightarrow> (\<exists>ps. sent ps s \<and> all_handed audio ps s)"
| "stage audio (MUnwind k d) s \<longleftrightarrow>
     (\<exists>ps. sent ps s \<and> prefix ps (chunked audio) \<and> (k = 0 \<longrightarrow> all_handed audio ps s))"
| "stage audio (MExit k) s \<longleftrightarrow>
     (\<exists>ps. sent ps s \<and> prefix ps (chunked audio) \<and> (k = 0 \<longrightarrow> all_handed audio ps s))"
| "stage audio (MAbort e) s \<longleftrightarrow> (\<exists>ps. sent ps s \<and> prefix ps (chunked audio))"

lemma stage_same:
  assumes "ls_wire s' = ls_wire s" and "ls_pc s' 1 = ls_pc s 1" and "ls_returns s' = ls_returns s"
  shows "stage audio m s' \<longleftrightarrow> stage audio m s"
  using assms by (cases m) (simp_all add: sent_def all_handed_def write_failed_def)

lemma background_same:
  "reader_step jl s s' \<Longrightarrow> ls_wire s' = ls_wire s \<and> ls_pc s' = ls_pc s \<and> ls_returns s' = ls_returns s"
  "watchdog_step s s' \<Longrightarrow> ls_wire s' = ls_wire s \<and> ls_pc s' = ls_pc s \<and> ls_returns s' = ls_returns s"
  by (auto elim!: reader_step.cases watchdog_step.cases)

lemma start_wire: "start_call c s s' \<Longrightarrow> ls_wire s' = ls_wire s"
  by (auto elim!: start_call.cases)

lemma write_outcome:
  assumes "write_call 1 s s'" and "ls_pc s 1 = CIdle \<or> carries piece (ls_pc s 1)"
    and "ls_pc s 1 = CIdle \<longrightarrow> ls_pc s' 1 \<in> {WrConn piece, CIdle}"
  shows "case outcome s' of
      None \<Rightarrow> carries piece (ls_pc s' 1) \<and> ls_wire s' = ls_wire s
    | Some (Inr _) \<Rightarrow> ls_wire s' = ls_wire s @ [Audio piece] \<and> ls_pc s' 1 = CIdle
    | Some (Inl e) \<Rightarrow> is_asr_error e \<and> write_failed s' \<and> ls_pc s' 1 = CIdle \<and>
        (ls_wire s' = ls_wire s \<or> ls_wire s' = ls_wire s @ [Audio piece])"
  using assms
  by cases (auto simp: may_call_def outcome_def write_failed_def not_running_def no_connection_def)

lemma stop_wire:
  assumes "stop_call c s s'" and "reachable jl s" and "sent ps s"
  shows "sent ps s'"
proof -
  have "EndSignal \<notin> set (ls_wire s)" if "ls_pc s c = SpSend"
    using reachable_invs(4) [OF assms(2)] that unfolding inv_wire_def by (metis before_end.simps(4))
  with assms(1,3) show ?thesis by cases (auto simp: sent_def)
qed

lemma stop_returns_more: "stop_call c s s' \<Longrightarrow> set (ls_returns s) \<subseteq> set (ls_returns s')"
  by (auto elim!: stop_call.cases)

lemma all_handed_more:
  "all_handed audio ps s \<Longrightarrow> set (ls_returns s) \<subseteq> set (ls_returns s') \<Longrightarrow> all_handed audio ps s'"
  by (auto simp: all_handed_def write_failed_def)

lemma read_piece_stage:
  assumes "stage audio (MRead rest good) s"
  shows "stage audio (read_piece rest good) s"
proof -
  obtain ps where ps: "ls_wire s = map Audio ps" "chunked audio = ps @ chunked rest" "\<not> good \<longrightarrow> rest = []"
    "ls_pc s 1 = CIdle" using assms by auto
  show ?thesis
  proof (cases "good \<and> rest \<noteq> []")
    case True
    then show ?thesis using ps chunked_unfold [of rest] by (auto simp: read_piece_def kChunk_def)
  next
    case False
    then have "rest = []" using ps(3) by auto
    then show ?thesis using ps False by (auto simp: read_piece_def sent_def all_handed_def)
  qed
qed

lemma outcome_idle: "outcome s = Some r \<Longrightarrow> ls_pc s 1 = CIdle"
  by (simp add: outcome_def split: if_splits)

definition example :: "handlers \<Rightarrow> bool" where
  "example h \<longleftrightarrow> h = realtime_asr \<or> h = v3_realtime_asr"

lemmas handling = realtime_asr_def v3_realtime_asr_def guarded_by_def unguarded_def

lemma start_stage:
  assumes "start_call 1 s s'" and "stage audio MStart s" and "example h"
  shows "stage audio (on_start h (outcome s')) s'"
proof -
  have wire: "ls_wire s' = []" using assms(1,2) start_wire by simp
  have none: "\<exists>ps. sent ps s' \<and> prefix ps (chunked audio)"
    by (rule exI [of _ "[]"]) (simp add: sent_def wire)
  show ?thesis
  proof (cases "outcome s'")
    case None
    then show ?thesis using wire assms(3) by (auto simp: example_def handling)
  next
    case (Some r)
    then have "ls_pc s' 1 = CIdle" by (rule outcome_idle)
    with Some wire none assms(3) show ?thesis
      by (cases r) (auto simp: example_def handling simp del: One_nat_def)
  qed
qed

lemma write_stage:
  assumes "write_call 1 s s'" and "ls_pc s 1 = CIdle \<longrightarrow> ls_pc s' 1 \<in> {WrConn piece, CIdle}"
    and "stage audio (MWrite piece rest good) s" and "example h"
  shows "stage audio (on_write h piece rest good (outcome s')) s'"
proof -
  obtain ps where ps: "ls_wire s = map Audio ps" "chunked audio = ps @ piece # chunked rest" "\<not> good \<longrightarrow> rest = []"
    and pc: "ls_pc s 1 = CIdle \<or> carries piece (ls_pc s 1)" using assms(3) by auto
  note out = write_outcome [OF assms(1) pc assms(2)]
  show ?thesis
  proof (cases "outcome s'")
    case None
    with out ps assms(4) show ?thesis by (auto simp: example_def handling)
  next
    case (Some r)
    show ?thesis
    proof (cases r)
      case (Inl e)
      from out Some Inl have e: "is_asr_error e" "write_failed s'"
        "ls_wire s' = map Audio ps \<or> ls_wire s' = map Audio (ps @ [piece])" using ps(1) by auto
      from e(3) obtain qs where "ls_wire s' = map Audio qs" "qs = ps \<or> qs = ps @ [piece]" by blast
      then have "sent qs s'" "prefix qs (chunked audio)" using ps(2) by (auto simp: sent_def prefix_def)
      with e Some Inl assms(4) show ?thesis by (auto simp: example_def handling all_handed_def)
    next
      case (Inr u)
      with out Some have "ls_wire s' = map Audio (ps @ [piece])" "ls_pc s' 1 = CIdle" using ps(1) by simp_all
      moreover have "chunked audio = (ps @ [piece]) @ chunked rest" using ps(2) by simp
      ultimately have "stage audio (MRead rest good) s'" using ps(3) unfolding stage.simps by blast
      then show ?thesis using Some Inr assms(4) by (auto simp: example_def handling simp del: stage.simps)
    qed
  qed
qed

lemma stop_stage:
  assumes "stop_call 1 s s'" and "reachable jl s" and "stage audio MStop s" and "example h"
  shows "stage audio (on_stop h (outcome s')) s'"
proof -
  obtain ps where "sent ps s" "all_handed audio ps s" using assms(3) by auto
  then have "sent ps s'" "all_handed audio ps s'"
    using stop_wire [OF assms(1,2)] all_handed_more stop_returns_more [OF assms(1)] by blast+
  moreover from this(2) have "prefix ps (chunked audio)" by (simp add: all_handed_def)
  ultimately show ?thesis using assms(4)
    by (cases "outcome s'") (auto simp: example_def handling split: sum.split)
qed

lemma unwind_stage:
  assumes "destroy_step 1 (d, s) (d', s')" and "reachable jl s" and "stage audio (MUnwind k d) s"
  shows "stage audio (MUnwind k d') s'"
proof -
  obtain ps where ps: "sent ps s" "prefix ps (chunked audio)" "k = 0 \<longrightarrow> all_handed audio ps s" using assms(3) by auto
  have "sent ps s' \<and> set (ls_returns s) \<subseteq> set (ls_returns s')"
    using assms(1) stop_wire [OF _ assms(2) ps(1)] stop_returns_more ps(1) by cases auto
  with ps all_handed_more show ?thesis by auto
qed

lemma main_reachable:
  assumes "main_step jl h input (m, s) (m', s')" and "reachable jl s"
  shows "reachable jl s'"
  using assms(1)
proof cases
  case (main_unwind d d' k)
  from main_unwind(3) show ?thesis
  proof cases
    case destroy_stop
    from this(3) show ?thesis by (intro reach_step [OF assms(2)] by_stop)
  next
    case destroy_stopped
    from this(3) show ?thesis by (intro reach_step [OF assms(2)] by_stop)
  qed (use assms(2) in simp_all)
qed (use assms(2) in \<open>auto intro: reach_step session_step.intros\<close>)

lemma main_stage:
  assumes "main_step jl h (Some audio) (m, s) (m', s')" and "reachable jl s" and "stage audio m s" and "example h"
  shows "stage audio m' s'"
  using assms(1)
proof cases
  case main_start
  show ?thesis unfolding main_start(2)
    by (rule start_stage [OF main_start(3) assms(3) [unfolded main_start(1)] assms(4)])
next
  case main_open
  then show ?thesis using assms(3) by auto
next
  case (main_read rest good)
  show ?thesis unfolding main_read(2,3) by (rule read_piece_stage [OF assms(3) [unfolded main_read(1)]])
next
  case (main_write piece rest good)
  show ?thesis unfolding main_write(2)
    by (rule write_stage [OF main_write(3,4) assms(3) [unfolded main_write(1)] assms(4)])
next
  case main_stop
  show ?thesis unfolding main_stop(2)
    by (rule stop_stage [OF main_stop(3) assms(2) assms(3) [unfolded main_stop(1)] assms(4)])
next
  case (main_unwind d d' k)
  then have "stage audio (MUnwind k d') s'" using unwind_stage [of d s d' s' jl audio k] assms(2,3) by simp
  then show ?thesis using main_unwind(2) by simp
next
  case main_reader
  then show ?thesis using background_same(1) [OF main_reader(2)] stage_same [of s' s audio m] assms(3) by simp
next
  case main_watchdog
  then show ?thesis using background_same(2) [OF main_watchdog(2)] stage_same [of s' s audio m] assms(3) by simp
qed

lemma main_run:
  assumes "(main_step jl h (Some audio))\<^sup>*\<^sup>* (MStart, initial) (m, s)" and "example h"
  shows "reachable jl s \<and> stage audio m s"
  using assms(1)
proof (induction rule: rtranclp_induct2)
  case refl
  have "stage audio MStart initial" by (simp add: initial_def)
  with reach_init show ?case by blast
next
  case (step m s m' s')
  then show ?case using main_reachable [OF step.hyps(2)] main_stage [OF step.hyps(2) _ _ assms(2)] by blast
qed

lemma stage_sent: "stage audio m s \<Longrightarrow> \<exists>ps. sent ps s \<and> prefix ps (chunked audio)"
  by (cases m) (auto simp: sent_def all_handed_def)

section \<open>What the service gets\<close>

definition audio_received :: "WsFrame list \<Rightarrow> u8 list list" where
  "audio_received gs = map wf_payload (filter (\<lambda>g. wf_opcode g = 0x2) gs)"

fun packets :: "wire_frame list \<Rightarrow> u8 list list" where
  "packets [] = []"
| "packets (Audio data # fs) = data # packets fs"
| "packets (EndSignal # fs) = packets fs"

lemma packets_append [simp]: "packets (fs @ gs) = packets fs @ packets gs"
  by (induction fs rule: packets.induct) simp_all

lemma packets_audio [simp]: "packets (map Audio ps) = ps"
  by (induction ps) simp_all

lemma packets_sent: "sent ps s \<Longrightarrow> packets (ls_wire s) = ps"
  by (auto simp: sent_def)

lemma audio_packets: "audio_received (map sent_frame xs) = packets (signals xs)"
proof (induction xs rule: signals.induct)
  case (2 f xs)
  then show ?case by (cases f) (simp_all add: audio_received_def)
qed (simp_all add: audio_received_def)

lemma wire_sendable:
  assumes "sent ps s" and "prefix ps (chunked audio)" and "Signal f \<in> set xs" and "signals xs = ls_wire s"
  shows "sendable_frame f"
proof (cases f)
  case (Audio data)
  have "f \<in> set (signals xs)" using assms(3) by (induction xs rule: signals.induct) auto
  then have "data \<in> set ps" using assms(1,4) Audio by (auto simp: sent_def)
  then have "length data \<le> kChunk" using assms(2) chunked_sizes set_mono_prefix by blast
  then show ?thesis using Audio by (simp add: kChunk_def)
qed simp

lemma sendable_item_iff:
  "sendable_item x \<longleftrightarrow> (\<forall>f. x = Signal f \<longrightarrow> sendable_frame f) \<and> (\<forall>d p. x = PongOf d p \<longrightarrow> length p < 2 ^ 64)"
  by (cases x) simp_all

lemma main_streams:
  assumes "(main_step jl h (Some audio))\<^sup>*\<^sup>* (MStart, initial) (m, s)" and "example h"
    and "signals xs = ls_wire s" and "\<forall>d p. PongOf d p \<in> set xs \<longrightarrow> length p < 2 ^ 64"
    and "send_session os xs ws = Some ((r, True), ws')"
  shows "\<exists>bs part gs. ws_out ws' = ws_out ws @ bs @ part \<and> framed bs gs \<and>
    prefix (audio_received gs) (chunked audio) \<and> prefix (concat (audio_received gs)) audio \<and>
    (r = None \<longrightarrow> part = []) \<and> (m = MExit 0 \<and> r = None \<longrightarrow> concat (audio_received gs) = audio \<or> write_failed s)"
proof -
  have stage: "stage audio m s" using main_run [OF assms(1,2)] by simp
  then obtain ps where ps: "sent ps s" "prefix ps (chunked audio)" using stage_sent by blast
  have "\<forall>x\<in>set xs. sendable_item x"
  proof
    fix x assume "x \<in> set xs"
    then show "sendable_item x"
      using wire_sendable [OF ps _ assms(3)] assms(4) unfolding sendable_item_iff by blast
  qed
  from send_session_sent [OF assms(5) this] obtain n bs part where sent: "ws_out ws' = ws_out ws @ bs @ part"
    "framed bs (map sent_frame (take n xs))" "r = None \<Longrightarrow> n = length xs" "r = None \<Longrightarrow> part = []" unfolding stream_sent_def by blast
  let ?gs = "map sent_frame (take n xs)"
  have "packets (ls_wire s) = audio_received ?gs @ packets (signals (drop n xs))"
    using assms(3) signals_append [of "take n xs" "drop n xs"] audio_packets [of "take n xs"] by simp
  then have got: "ps = audio_received ?gs @ packets (signals (drop n xs))" using packets_sent [OF ps(1)] by simp
  then have whole: "prefix (audio_received ?gs) (chunked audio)" using ps(2) by (auto simp: prefix_def)
  then have "prefix (concat (audio_received ?gs)) (concat (chunked audio))" by (auto simp: prefix_def)
  then have bytes: "prefix (concat (audio_received ?gs)) audio" by (simp add: concat_chunked)
  have "concat (audio_received ?gs) = audio \<or> write_failed s" if end': "m = MExit 0" "r = None"
  proof -
    obtain qs where qs: "sent qs s" "all_handed audio qs s" using stage end'(1) by auto
    have "audio_received ?gs = qs" using got packets_sent [OF ps(1)] packets_sent [OF qs(1)] sent(3) end'(2) by simp
    then show ?thesis using qs(2) concat_chunked by (auto simp: all_handed_def)
  qed
  with sent(1,2,4) whole bytes show ?thesis by blast
qed

lemma example_run:
  assumes "realtime_main jl h argv x \<or> v3_realtime_main jl h argv x" and "h_file h (argv ! 1) = Some audio"
  shows "\<exists>hs. example hs \<and> (main_step jl hs (Some audio))\<^sup>*\<^sup>* (MStart, initial) x"
proof -
  have "path = argv ! 1" if "realtime_setup h argv = Inr (self, path)" for self path
    using that by (auto simp: realtime_setup_def quits_def engine_missing_def Let_def bindE_Inr_iff split: if_splits)
  moreover have "path = argv ! 1" if "v3_realtime_setup h argv = Inr (self, path)" for self path
    using that by (auto simp: v3_realtime_setup_def quits_def engine_missing_def Let_def bindE_Inr_iff arg_def
        split: if_splits)
  ultimately show ?thesis
    using assms by (auto simp: realtime_main_def v3_realtime_main_def example_def split: sum.splits)
qed


section \<open>A run\<close>

definition sample_argv :: "string list" where
  "sample_argv = [''realtime_asr'', ''a.pcm'', ''bigmodel'']"

abbreviation runs :: "mpc \<Rightarrow> session \<Rightarrow> bool" where
  "runs m s \<equiv> realtime_main (doc_lib []) sample_host sample_argv (m, s)"

lemma sample_number: "stoll ''1400000000'' = Inr 1400000000"
  by code_simp

lemma sample_setup: "\<exists>self. realtime_setup sample_host sample_argv = Inr (self, ''a.pcm'')"
  by (simp add: realtime_setup_def sample_argv_def sample_host_def env_credential_def EnvInt_def EnvStr_def
      Let_def arg_def default_lang_def sample_number uncaught_def)

lemma runs_more:
  "runs m s \<Longrightarrow> main_step (doc_lib []) realtime_asr (Some [7]) (m, s) (m', s') \<Longrightarrow> runs m' s'"
  using sample_setup by (auto simp: realtime_main_def sample_host_def)

lemma runs_start:
  assumes "runs MStart s" and "start_call 1 s t" and "t = u" and "on_start realtime_asr (outcome u) = m"
  shows "runs m u"
  using runs_more [OF assms(1) main_start [OF assms(2)]] unfolding assms(3,4) .

lemma runs_write:
  assumes "runs (MWrite d bs g) s" and "write_call 1 s t" and "t = u"
    and "ls_pc s 1 = CIdle \<longrightarrow> ls_pc u 1 \<in> {WrConn d, CIdle}" and "on_write realtime_asr d bs g (outcome u) = m"
  shows "runs m u"
  using runs_more [OF assms(1) main_write [OF assms(2)]] assms(4) unfolding assms(3,5) by blast

lemma runs_stop:
  assumes "runs MStop s" and "stop_call 1 s t" and "t = u" and "on_stop realtime_asr (outcome u) = m"
  shows "runs m u"
  using runs_more [OF assms(1) main_stop [OF assms(2)]] unfolding assms(3,4) .

lemma runs_reader:
  assumes "runs m s" and "reader_step (doc_lib []) s t" and "t = u"
  shows "runs m u"
  using runs_more [OF assms(1) main_reader [OF assms(2)]] unfolding assms(3) .

lemmas sample_outcomes = outcome_def handling guarded_by_def

lemma runs_open: "runs MOpen sample_running"
proof -
  have "runs MStart initial" using sample_setup by (auto simp: realtime_main_def)
  then have "runs MStart (snapshot Starting False None False StOpen RNone [] [] [])"
    by (rule runs_start [OF _ start_begin [of 1]]) (simp_all add: snap sample_outcomes)
  then have "runs MStart (snapshot Starting True None False StStore RNone [] [] [])"
    by (rule runs_start [OF _ start_opened [of _ 1]]) (simp_all add: snap sample_outcomes)
  then have "runs MStart (snapshot Running True None False StSpawn RNone [] [] [])"
    by (rule runs_start [OF _ start_running [of _ 1]]) (simp_all add: snap sample_outcomes)
  then show ?thesis
    by (rule runs_start [OF _ start_spawn [of _ 1]]) (simp_all add: snap sample_outcomes)
qed

lemma runs_sent: "runs MStop sample_sent"
proof -
  let ?m = "MWrite [7] [] False"
  let ?st = "\<lambda>mu p. snapshot Running True mu False p RStart [] [] [(1, StartCall, Inr ())]"
  have "runs (MRead [7] True) sample_running"
    using runs_more [OF runs_open main_open] by simp
  then have "runs ?m sample_running"
    using runs_more [OF _ main_read [of _ _ _ "[7]" True]] by (simp add: read_piece_def kChunk_def)
  then have "runs ?m (?st None (WrConn [7]))"
    by (rule runs_write [OF _ write_begin [of 1 _ "[7]"]]) (simp_all add: snap sample_outcomes)
  then have "runs ?m (?st None (WrLock [7]))"
    by (rule runs_write [OF _ write_conn [of _ 1 "[7]"]]) (simp_all add: snap sample_outcomes)
  then have "runs ?m (?st (Some 1) (WrCheck [7]))"
    by (rule runs_write [OF _ write_lock [of _ 1 "[7]"]]) (simp_all add: snap sample_outcomes)
  then have "runs ?m sample_sending"
    by (rule runs_write [OF _ write_recheck [of _ 1 "[7]"]]) (simp_all add: snap sample_outcomes)
  then have "runs (MRead [] False) sample_sent"
    by (rule runs_write [OF _ write_send [of _ 1 "[7]" "Inr ()"]]) (simp_all add: snap sample_outcomes)
  then show ?thesis
    using runs_more [OF _ main_read [of _ _ _ "[]" False]] by (simp add: read_piece_def)
qed

lemma runs_waiting: "runs MStop sample_waiting"
proof -
  let ?st = "\<lambda>mu p w. snapshot Stopping True mu False p RStart w [] [(1, StartCall, Inr ()), (1, WriteCall, Inr ())]"
  have "runs MStop (?st None SpConn [Audio [7]])"
    by (rule runs_stop [OF runs_sent stop_begin [of 1]]) (simp_all add: snap sample_outcomes)
  then have "runs MStop (?st None SpLock [Audio [7]])"
    by (rule runs_stop [OF _ stop_conn [of _ 1]]) (simp_all add: snap sample_outcomes)
  then have "runs MStop (?st (Some 1) SpCheck [Audio [7]])"
    by (rule runs_stop [OF _ stop_lock [of _ 1]]) (simp_all add: snap sample_outcomes)
  then have "runs MStop (?st (Some 1) SpSend [Audio [7]])"
    by (rule runs_stop [OF _ stop_check [of _ 1]]) (simp_all add: snap sample_outcomes)
  then have "runs MStop (?st None SpSent [Audio [7], EndSignal])"
    by (rule runs_stop [OF _ stop_sent [of _ 1]]) (simp_all add: snap sample_outcomes)
  then show ?thesis
    by (rule runs_stop [OF _ stop_wait [of _ 1]]) (simp_all add: snap sample_outcomes)
qed

lemma runs_gone: "runs MStop sample_gone"
proof -
  let ?st = "\<lambda>q. snapshot Stopping True None False (SpWait True) q [Audio [7], EndSignal]
     [(False, sample_start)] [(1, StartCall, Inr ()), (1, WriteCall, Inr ())]"
  let ?over = "\<lambda>conn fin q. snapshot Stopped conn None fin (SpWait True) q [Audio [7], EndSignal]
     [(False, sample_start)] [(1, StartCall, Inr ()), (1, WriteCall, Inr ())]"
  have "runs MStop (?st (RCall sample_start ToFetch))"
    by (rule runs_reader [OF runs_waiting reader_start [of _ _ "''v''" None]]) (simp_all add: snap)
  then have "runs MStop (?st RFetch)"
    by (rule runs_reader [OF _ callback_returns [of _ sample_start ToFetch]]) (simp_all add: snap)
  then have "runs MStop (?st RRead)"
    by (rule runs_reader [OF _ reader_fetch]) (simp_all add: snap)
  then have "runs MStop (?st (RFinish AExit))"
    by (rule runs_reader [OF _ reader_read [of _ _ "(- 1, None, None)"]])
      (simp_all add: snap read_action_stopping(1) do_action_def)
  then have "runs MStop (?over True False (RClose AExit))"
    by (rule runs_reader [OF _ finish_store [of _ AExit]]) (simp_all add: snap)
  then have "runs MStop (?over False True RSignal)"
    by (rule runs_reader [OF _ finish_close [of _ AExit]]) (simp_all add: snap)
  then show ?thesis
    by (rule runs_reader [OF _ signal_done]) (simp_all add: snap)
qed

lemma runs_over: "runs (MExit 0) sample_over"
proof -
  let ?st = "\<lambda>p. snapshot Stopped False None True p RGone [Audio [7], EndSignal]
     [(False, sample_start)] [(1, StartCall, Inr ()), (1, WriteCall, Inr ())]"
  have "runs MStop (?st (SpWaited True))"
    by (rule runs_stop [OF runs_gone wait_done [of _ 1 True]]) (simp_all add: snap sample_outcomes)
  then have "runs MStop (?st SpStore)"
    by (rule runs_stop [OF _ waited_store [of _ 1]]) (simp_all add: snap sample_outcomes)
  then have load: "runs (MUnwind 0 DLoad) sample_over"
    by (rule runs_stop [OF _ stop_store [of _ 1]]) (simp_all add: snap sample_outcomes)
  have "ls_state sample_over \<noteq> Running" "ls_reader sample_over = RGone"
    by (simp_all add: sample_over_def snapshot_def)
  then have steps: "destroy_step 1 (DLoad, sample_over) (DJoin, sample_over)"
    "destroy_step 1 (DJoin, sample_over) (DGone, sample_over)"
    by (blast intro: destroy_ended destroy_join)+
  have "runs (MUnwind 0 DJoin) sample_over" using runs_more [OF load main_unwind [OF steps(1)]] by simp
  from runs_more [OF this main_unwind [OF steps(2)]] show ?thesis by simp
qed


end
