(* ===== verification/Spec2Isabelle.thy ===== *)
theory Spec2Isabelle
  imports Sha256 Base64 UserSig Responses Credential SignatureParams Params WsClient WsBounds
    Sigpipe HttpClient AudioIntake FileProps V3Props
    RecognizerProps V3Handshake Teardown Uplink ReaderRun ExamplesProps ExampleRealtime
begin

text \<open>
  Verification of the TRTC ASR SDK for C++: clients of a speech recognition service, for
  realtime sessions over WebSocket, single sentences and whole recordings over HTTP, each in
  the protocol versions v2 and v3. The code is under \<^verbatim>\<open>src/\<close> (implementation) and
  \<^verbatim>\<open>include/trtc_asr/\<close> (interface and data types).

  \<^bold>\<open>How the parts interact.\<close> A credential signs a ticket (UserSig: HMAC-SHA-256, a
  compressed JSON document, a base64 variant). An HTTP recognizer validates a request,
  serialises it to JSON, signs, posts it and reads the envelope of the answer; a recording
  is polled until it is done. A realtime recognizer validates its options, signs, builds the
  URL (v2) or the start frame (v3), connects, and then runs: application threads write
  audio and stop, a reader thread turns frames into callbacks, and a watchdog bounds a stop
  that was called from a callback.

  \<^bold>\<open>Theories and code.\<close>
  \<^item> \<open>Prelude\<close>: results with errors (\<open>bindE\<close>), bytes and characters, decimal numbers,
    trimming, key-ordered maps; \<open>Asr_Error\<close>: \<^verbatim>\<open>errors.h\<close>. An exception is a value of \<open>exn\<close>:
    the SDK's own \<open>ASRError\<close>, an exception of a library, or undefined behaviour.
  \<^item> \<open>Sha256\<close>, \<open>Base64\<close>, \<open>UserSig\<close>: \<^verbatim>\<open>usersig.cc\<close>. The streaming hash with its buffer and
    counters against FIPS 180-4 and RFC 2104; both codecs; the ticket on every branch.
  \<^item> \<open>Double\<close>, \<open>Json\<close>: the numbers and the accessors of the JSON library that the SDK uses.
    Parsing and printing are parameters (\<open>json_lib\<close>), with the law \<open>json_lib_ok\<close> that a
    printed document parses to itself.
  \<^item> \<open>Speaker\<close>, \<open>Responses\<close>: \<^verbatim>\<open>types.h\<close>, \<^verbatim>\<open>types.cc\<close>; \<open>Credential\<close>: \<^verbatim>\<open>credential.h\<close>; \<open>Query\<close>,
    \<open>SignatureParams\<close>: \<^verbatim>\<open>sdkinfo\<close>, \<^verbatim>\<open>signature_params\<close>; \<open>Params\<close>: \<^verbatim>\<open>params.cc\<close>.
  \<^item> \<open>WsFrame\<close>, \<open>WsIO\<close>, \<open>WsClient\<close>, \<open>WsProps\<close>: \<^verbatim>\<open>ws_client\<close>: frame codec, URL, TCP, TLS,
    upgrade, sending and reading with deadlines. A connection is the record \<open>ws\<close>; each system
    or OpenSSL call takes the next answer of an arbitrary list, so that a statement about all
    lists is one about every behaviour of the network. \<open>WsBounds\<close>: the sizes and header
    values of the frames that are accepted. \<open>Sigpipe\<close>: the scoped suppressor.
  \<^item> \<open>HttpClient\<close>, \<open>Wire\<close>, \<open>Polling\<close>: \<^verbatim>\<open>http_client\<close> over an arbitrary sequence of libcurl
    outcomes, what all HTTP requests share, and the locale of the polling loop.
  \<^item> \<open>SentenceRecognizer\<close>, \<open>FileRecognizer\<close>, \<open>FileProps\<close>: the v2 HTTP recognizers;
    \<open>V3Common\<close>, \<open>V3Transcribe\<close>, \<open>V3File\<close>, \<open>V3Props\<close>: those of v3, in \<^verbatim>\<open>v3.cc\<close>.
    \<open>AudioIntake\<close>: the contract of the four operations that take local audio, as a locale
    with an interpretation for each.
  \<^item> \<open>SpeechRecognizer\<close>, \<open>RecognizerProps\<close>: options, validation, URL and connection of the
    v2 realtime recognizer; \<open>V3Speech\<close>, \<open>V3SpeechProps\<close>, \<open>V3Handshake\<close>: of the v3 one, with
    the start frame and the wait for its acknowledgement.
  \<^item> \<open>Session\<close>: lifecycle states, callbacks, and one pass of the read loop as a function.
    \<open>Lifecycle\<close>: \<^verbatim>\<open>Start\<close>, \<^verbatim>\<open>Write\<close>, \<^verbatim>\<open>Stop\<close>, the watchdog and the reader as a step relation on
    the shared state, one step per access to it, for any number of threads.
    \<open>V3Lifecycle\<close>: v3's own copy of that code, with the same steps.
  \<^item> \<open>LifecycleInv\<close>, \<open>LifecycleReach\<close>: the invariants of all reachable states, one concern
    each. \<open>LifecycleSpec\<close>: the abstract session and its refinement, with the locale
    \<open>recognizer_contract\<close>. \<open>LifecycleLive\<close>: every call can return. \<open>LifecycleProps\<close>: what the
    application is promised. \<open>Teardown\<close>: the destructors, beside the reader and the watchdogs.
  \<^item> \<open>Uplink\<close>, \<open>Downlink\<close>, \<open>ReaderRun\<close>: the lifecycle and the transport together: the
    service's view of the bytes of a session, the reader's pongs among them, and the
    application's view of the bytes of the service.
  \<^item> \<open>Examples\<close>, \<open>ExamplesProps\<close>: the offline programs under \<^verbatim>\<open>examples/\<close> as functions of
    the arguments, the environment and the files; \<open>ExampleRealtime\<close>: the realtime programs,
    whose \<^verbatim>\<open>main\<close> is one thread of the lifecycle, down to the bytes on the wire.

  \<^bold>\<open>What the lemmas show.\<close> Reference equivalence (hash, MAC, the two lifecycles), round
  trips (codecs, tickets, query strings, JSON requests and responses, frames), validators
  that accept exactly the documented inputs, the outcome of every operation on every branch,
  framing through arbitrary segmentation and interrupts, the bounds of what is read,
  refinement of the abstract session, invariants and safety of the threads, termination of
  the polling and the reading loops, the possibility of every call and of the destructor to
  return, and what the exit codes of the programs mean.

  \<^bold>\<open>Termination.\<close> Loops over the network end because each pass takes an answer from the list
  (\<open>io_size\<close>); a list that runs out stands for a call that never returns (\<open>None\<close>). No other
  fuel is used. Waiting for a task is bounded by its timeout and interval.

  \<^bold>\<open>Integers.\<close> Lengths, hashes and frame headers are words of their width. \<^verbatim>\<open>int\<close> and
  \<^verbatim>\<open>int64_t\<close> values that are only stored, compared and printed are integers; the conversion of
  a JSON number wraps to the width of its field.

  \<^bold>\<open>Not modelled.\<close> The JSON parser and printer, zlib, libcurl, OpenSSL and the system calls
  (parameters); the generator behind UUIDs and nonces and the clock (arguments); memory
  reclamation; weak memory (the shared state is atomic or under a mutex); the buffering of
  the text streams and the pauses in the programs under \<^verbatim>\<open>examples/\<close>; the tests and their
  mock servers under \<^verbatim>\<open>tests/\<close>, which only call the SDK.
\<close>

end
